(* ===== verification/Prelude.thy ===== *)
theory Prelude
  imports Complex_Main
begin

text \<open>
  Shared vocabulary of the development: Go strings as byte lists with the operations of the
  \<open>strings\<close> package that the program calls, Go clock values and durations, and
  generic lemmas on lists and association lists. Strings are lists of bytes (\<open>char\<close>);
  white space is the ASCII white space of \<open>unicode.IsSpace\<close>, so a multi-byte Unicode
  space is ordinary text here. The collection \<open>go_strings\<close> holds the rewrite rules of
  the string operations.
\<close>

named_theorems go_strings \<open>rewrite rules for the Go string operations\<close>

section \<open>Errors and clocks\<close>

type_synonym time = int
type_synonym duration = int

text \<open>A \<open>time.Time\<close> is its distance in nanoseconds from the Unix epoch.\<close>

definition seconds :: "int \<Rightarrow> duration" where
  "seconds n = n * 1000000000"

definition minutes :: "int \<Rightarrow> duration" where
  "minutes n = 60 * seconds n"

definition hours :: "int \<Rightarrow> duration" where
  "hours n = 60 * minutes n"

text \<open>The zero \<open>time.Time\<close> is midnight of January 1 of year 1.\<close>

definition zero_time :: time where
  "zero_time = - seconds 62135596800"

text \<open>\<open>Time.Sub\<close> saturates at the bounds of a 64-bit \<open>Duration\<close>.\<close>

definition time_sub :: "time \<Rightarrow> time \<Rightarrow> duration" where
  "time_sub t u = max (- (2 ^ 63)) (min (2 ^ 63 - 1) (t - u))"

lemma time_sub_less: "d \<le> 2 ^ 63 - 1 \<Longrightarrow> - (2 ^ 63) < d \<Longrightarrow> time_sub t u < d \<longleftrightarrow> t - u < d"
  by (auto simp: time_sub_def)

lemma time_sub_greater: "d < 2 ^ 63 - 1 \<Longrightarrow> - (2 ^ 63) \<le> d \<Longrightarrow> d < time_sub t u \<longleftrightarrow> d < t - u"
  by (auto simp: time_sub_def)

lemma time_sub_ge: "d \<le> 2 ^ 63 - 1 \<Longrightarrow> - (2 ^ 63) < d \<Longrightarrow> d \<le> time_sub t u \<longleftrightarrow> d \<le> t - u"
  by (auto simp: time_sub_def)

lemmas time_sub_cmp = time_sub_less time_sub_greater time_sub_ge

lemmas duration_defs = seconds_def minutes_def hours_def

section \<open>Strings\<close>

definition is_space :: "char \<Rightarrow> bool" where
  "is_space c \<longleftrightarrow> c = CHR 0x20 \<or> c = CHR 0x09 \<or> c = CHR 0x0A \<or> c = CHR 0x0B \<or> c = CHR 0x0C \<or> c = CHR 0x0D"

text \<open>The class \<open>\s\<close> of Go's regular expressions leaves the vertical tab out.\<close>

definition re_space :: "char \<Rightarrow> bool" where
  "re_space c \<longleftrightarrow> c = CHR 0x20 \<or> c = CHR 0x09 \<or> c = CHR 0x0A \<or> c = CHR 0x0C \<or> c = CHR 0x0D"

lemma re_space_is_space: "re_space c \<Longrightarrow> is_space c"
  by (auto simp: re_space_def is_space_def)

lemma is_space_blank [simp]: "is_space (CHR '' '')"
  by (simp add: is_space_def)

lemma re_space_blank [simp]: "re_space (CHR '' '')"
  by (simp add: re_space_def)

definition trim_right :: "(char \<Rightarrow> bool) \<Rightarrow> string \<Rightarrow> string" where
  "trim_right p s = rev (dropWhile p (rev s))"

definition trim_func :: "(char \<Rightarrow> bool) \<Rightarrow> string \<Rightarrow> string" where
  "trim_func p s = trim_right p (dropWhile p s)"

definition trim_space :: "string \<Rightarrow> string" where
  "trim_space s = trim_func is_space s"

fun has_prefix :: "string \<Rightarrow> string \<Rightarrow> bool" where
  "has_prefix [] s = True"
| "has_prefix (p # ps) [] = False"
| "has_prefix (p # ps) (c # cs) = (p = c \<and> has_prefix ps cs)"

definition trim_prefix :: "string \<Rightarrow> string \<Rightarrow> string" where
  "trim_prefix p s = (if has_prefix p s then drop (length p) s else s)"

text \<open>\<open>strings.Index\<close>, with the result \<open>-1\<close> as \<open>None\<close>.\<close>

fun index_of :: "string \<Rightarrow> string \<Rightarrow> nat option" where
  "index_of sub [] = (if sub = [] then Some 0 else None)"
| "index_of sub (c # cs) = (if has_prefix sub (c # cs) then Some 0 else map_option Suc (index_of sub cs))"

definition contains :: "string \<Rightarrow> string \<Rightarrow> bool" where
  "contains s sub = (index_of sub s \<noteq> None)"

fun str_fields_aux :: "string \<Rightarrow> string \<Rightarrow> string list" where
  "str_fields_aux cur [] = (if cur = [] then [] else [cur])"
| "str_fields_aux cur (c # cs) =
     (if is_space c then (if cur = [] then str_fields_aux [] cs else cur # str_fields_aux [] cs)
      else str_fields_aux (cur @ [c]) cs)"

definition str_fields :: "string \<Rightarrow> string list" where
  "str_fields s = str_fields_aux [] s"

fun join :: "string \<Rightarrow> string list \<Rightarrow> string" where
  "join sep [] = []"
| "join sep [x] = x"
| "join sep (x # y # ys) = x @ sep @ join sep (y # ys)"

fun split_aux :: "char \<Rightarrow> string \<Rightarrow> string \<Rightarrow> string list" where
  "split_aux sep cur [] = [cur]"
| "split_aux sep cur (c # cs) =
     (if c = sep then cur # split_aux sep [] cs else split_aux sep (cur @ [c]) cs)"

definition split_on :: "char \<Rightarrow> string \<Rightarrow> string list" where
  "split_on sep s = split_aux sep [] s"

text \<open>\<open>strings.SplitN(s, sep, 2)\<close> for a one-byte separator: \<open>None\<close> when it has one part.\<close>

definition split2 :: "char \<Rightarrow> string \<Rightarrow> (string \<times> string) option" where
  "split2 sep s =
     (if sep \<in> set s then Some (takeWhile (\<lambda>c. c \<noteq> sep) s, tl (dropWhile (\<lambda>c. c \<noteq> sep) s)) else None)"

text \<open>\<open>strings.SplitN(s, sep, n)\<close> for a one-byte separator and \<open>n > 0\<close>.\<close>

fun splitn :: "nat \<Rightarrow> char \<Rightarrow> string \<Rightarrow> string list" where
  "splitn 0 sep s = []"
| "splitn (Suc 0) sep s = [s]"
| "splitn (Suc (Suc n)) sep s =
     (case split2 sep s of None \<Rightarrow> [s] | Some (a, b) \<Rightarrow> a # splitn (Suc n) sep b)"

text \<open>\<open>strings.ReplaceAll(s, old, "")\<close> for a non-empty \<open>old\<close>.\<close>

function remove_all :: "string \<Rightarrow> string \<Rightarrow> string" where
  "remove_all old [] = []"
| "remove_all old (c # cs) =
     (if old \<noteq> [] \<and> has_prefix old (c # cs) then remove_all old (drop (length old) (c # cs))
      else c # remove_all old cs)"
  by pat_completeness auto
termination
  by (relation "measure (\<lambda>(old, s). length s)") auto

definition ascii_upper :: "char \<Rightarrow> char" where
  "ascii_upper c = (let n = (of_char c :: nat) in if 97 \<le> n \<and> n \<le> 122 then char_of (n - 32) else c)"

definition ascii_lower :: "char \<Rightarrow> char" where
  "ascii_lower c = (let n = (of_char c :: nat) in if 65 \<le> n \<and> n \<le> 90 then char_of (n + 32) else c)"

definition to_upper :: "string \<Rightarrow> string" where
  "to_upper s = map ascii_upper s"

definition to_lower :: "string \<Rightarrow> string" where
  "to_lower s = map ascii_lower s"

definition equal_fold :: "string \<Rightarrow> string \<Rightarrow> bool" where
  "equal_fold s t \<longleftrightarrow> to_lower s = to_lower t"

definition truncate_string :: "string \<Rightarrow> nat \<Rightarrow> string" where
  "truncate_string s n = (if length s \<le> n then s else take n s)"

subsection \<open>Decimal numbers\<close>

definition digit :: "nat \<Rightarrow> char" where
  "digit n = char_of (48 + n)"

definition is_digit :: "char \<Rightarrow> bool" where
  "is_digit c \<longleftrightarrow> 48 \<le> (of_char c :: nat) \<and> (of_char c :: nat) \<le> 57"

fun show_nat :: "nat \<Rightarrow> string" where
  "show_nat n = (if n < 10 then [digit n] else show_nat (n div 10) @ [digit (n mod 10)])"

declare show_nat.simps [simp del]

text \<open>\<open>%d\<close> and \<open>strconv.Itoa\<close>.\<close>

definition show_int :: "int \<Rightarrow> string" where
  "show_int i = (if i < 0 then CHR ''-'' # show_nat (nat (- i)) else show_nat (nat i))"

definition digits_value :: "string \<Rightarrow> nat" where
  "digits_value s = foldl (\<lambda>n c. 10 * n + (of_char c - 48)) 0 s"

text \<open>\<open>strconv.ParseInt(s, 10, 64)\<close> and, on 64-bit platforms, \<open>strconv.Atoi\<close>: an optional sign, digits
  only, within the 64-bit range.\<close>

definition parse_int :: "string \<Rightarrow> int option" where
  "parse_int s =
     (let (neg, ds) = (case s of [] \<Rightarrow> (False, [])
                       | c # cs \<Rightarrow> if c = CHR ''-'' then (True, cs) else if c = CHR ''+'' then (False, cs) else (False, s));
          v = (if neg then - int (digits_value ds) else int (digits_value ds))
      in if ds = [] \<or> \<not> list_all is_digit ds \<or> v < - (2 ^ 63) \<or> 2 ^ 63 \<le> v then None else Some v)"

text \<open>\<open>fmt.Sscanf(s, "%d", &x)\<close>: blanks are skipped and the longest run of sign, digits and
  underscores is read as a number; text after it is ignored.\<close>

definition scan_int :: "string \<Rightarrow> int option" where
  "scan_int s =
     (let t = dropWhile (\<lambda>c. is_space c \<and> c \<noteq> CHR 0x0A) s;
          num = (\<lambda>c. is_digit c \<or> c = CHR ''_'')
      in case t of [] \<Rightarrow> None
         | c # cs \<Rightarrow> if c = CHR ''-'' \<or> c = CHR ''+'' then parse_int (c # takeWhile num cs)
                    else parse_int (takeWhile num t))"


section \<open>Lemmas on strings\<close>

lemma has_prefix_iff [go_strings]: "has_prefix p s \<longleftrightarrow> (\<exists>t. s = p @ t)"
  by (induction p s rule: has_prefix.induct) auto

lemma has_prefix_append [simp]: "has_prefix p (p @ t)"
  by (simp add: has_prefix_iff)

lemma trim_prefix_append [simp]: "trim_prefix p (p @ t) = t"
  by (simp add: trim_prefix_def)

lemma index_of_SomeD: "index_of sub s = Some i \<Longrightarrow> \<exists>a b. s = a @ sub @ b \<and> length a = i"
proof (induction sub s arbitrary: i rule: index_of.induct)
  case (1 sub)
  then show ?case by (auto split: if_splits)
next
  case (2 sub c cs)
  show ?case
  proof (cases "has_prefix sub (c # cs)")
    case True
    then obtain t where "c # cs = sub @ t" by (auto simp: has_prefix_iff)
    moreover have "i = 0" using True "2.prems" by simp
    ultimately show ?thesis by (intro exI [of _ "[]"] exI [of _ t]) simp
  next
    case False
    with "2.prems" obtain j where j: "index_of sub cs = Some j" "i = Suc j" by auto
    with "2.IH" [OF False j(1)] obtain a b where "cs = a @ sub @ b" "length a = j" by blast
    with j show ?thesis by (intro exI [of _ "c # a"] exI [of _ b]) auto
  qed
qed

lemma index_of_NoneD: "index_of sub s = None \<Longrightarrow> s \<noteq> a @ sub @ b"
proof (induction sub s arbitrary: a rule: index_of.induct)
  case (1 sub)
  then show ?case by (auto split: if_splits)
next
  case (2 sub c cs)
  then show ?case by (cases a) (auto simp: has_prefix_iff split: if_splits)
qed

lemma contains_iff [go_strings]: "contains s sub \<longleftrightarrow> (\<exists>a b. s = a @ sub @ b)"
proof
  assume "contains s sub"
  then obtain i where "index_of sub s = Some i" by (auto simp: contains_def)
  then show "\<exists>a b. s = a @ sub @ b" using index_of_SomeD by blast
next
  assume "\<exists>a b. s = a @ sub @ b"
  then show "contains s sub" using index_of_NoneD unfolding contains_def by blast
qed

lemma contains_refl [simp]: "contains s s"
  unfolding contains_iff by (metis append_Nil append_Nil2)

lemma contains_trans: "contains s t \<Longrightarrow> contains t u \<Longrightarrow> contains s u"
  unfolding contains_iff by (metis append_assoc)

text \<open>A word has no white space and is not empty; \<open>str_fields\<close> cuts a string into words.\<close>

definition word_ok :: "string \<Rightarrow> bool" where
  "word_ok w \<longleftrightarrow> w \<noteq> [] \<and> (\<forall>c \<in> set w. \<not> is_space c)"

lemma str_fields_aux_words: "\<forall>c \<in> set cur. \<not> is_space c \<Longrightarrow> w \<in> set (str_fields_aux cur s) \<Longrightarrow> word_ok w"
proof (induction cur s rule: str_fields_aux.induct)
  case (1 cur)
  then show ?case by (simp add: word_ok_def split: if_splits)
next
  case (2 cur c cs)
  then show ?case by (cases "is_space c"; cases "cur = []") (auto simp: word_ok_def)
qed

lemma str_fields_words: "w \<in> set (str_fields s) \<Longrightarrow> word_ok w"
  unfolding str_fields_def by (rule str_fields_aux_words) auto

lemma str_fields_aux_word:
  "\<forall>c \<in> set w. \<not> is_space c \<Longrightarrow> str_fields_aux cur (w @ s) = str_fields_aux (cur @ w) s"
  by (induction w arbitrary: cur) auto

lemma str_fields_word_space:
  assumes "word_ok w" and "is_space c"
  shows "str_fields (w @ c # s) = w # str_fields s"
  using assms str_fields_aux_word [of w "[]" "c # s"] by (simp add: str_fields_def word_ok_def)

lemma str_fields_word [simp]: "word_ok w \<Longrightarrow> str_fields w = [w]"
  using str_fields_aux_word [of w "[]" "[]"] by (simp add: str_fields_def word_ok_def)

lemma str_fields_Nil [simp]: "str_fields [] = []"
  by (simp add: str_fields_def)

lemma str_fields_space: "is_space c \<Longrightarrow> str_fields (c # s) = str_fields s"
  by (simp add: str_fields_def)

lemma join_Cons: "join sep (x # xs) = x @ (if xs = [] then [] else sep @ join sep xs)"
  by (cases xs) auto

lemma str_fields_join [simp]: "\<forall>w \<in> set ws. word_ok w \<Longrightarrow> str_fields (join '' '' ws) = ws"
proof (induction ws)
  case Nil
  then show ?case by simp
next
  case (Cons w ws)
  then show ?case by (simp add: join_Cons str_fields_word_space)
qed

lemma str_fields_dropWhile [simp]: "str_fields (dropWhile is_space s) = str_fields s"
  by (induction s) (auto simp: str_fields_space)

lemma str_fields_aux_trailing: "\<forall>c \<in> set t. is_space c \<Longrightarrow> str_fields_aux cur (s @ t) = str_fields_aux cur s"
proof (induction cur s rule: str_fields_aux.induct)
  case (1 cur)
  have blank: "str_fields_aux [] t = []" using 1
    by (induction t) simp_all
  show ?case using 1 blank by (cases t) simp_all
next
  case (2 cur c cs)
  then show ?case by (cases "is_space c"; cases "cur = []") simp_all
qed

lemma trim_right_split:
  obtains t where "s = trim_right p s @ t" and "\<forall>c \<in> set t. p c"
proof
  show "s = trim_right p s @ rev (takeWhile p (rev s))"
    unfolding trim_right_def by (metis rev_append rev_rev_ident takeWhile_dropWhile_id)
  show "\<forall>c \<in> set (rev (takeWhile p (rev s))). p c"
    by (metis set_rev set_takeWhileD)
qed

lemma trim_space_split:
  obtains t where "dropWhile is_space s = trim_space s @ t" and "\<forall>c \<in> set t. is_space c"
  unfolding trim_space_def trim_func_def by (rule trim_right_split)

lemma str_fields_trim_space [simp]: "str_fields (trim_space s) = str_fields s"
proof -
  obtain t where t: "dropWhile is_space s = trim_space s @ t" "\<forall>c \<in> set t. is_space c"
    by (rule trim_space_split)
  have "str_fields s = str_fields (trim_space s @ t)"
    using str_fields_dropWhile [of s] arg_cong [OF t(1), of str_fields] by (rule trans [OF sym])
  also have "\<dots> = str_fields (trim_space s)"
    unfolding str_fields_def by (rule str_fields_aux_trailing [OF t(2)])
  finally show ?thesis by (rule sym)
qed

text \<open>A string is trimmed when white space stands at neither end.\<close>

definition trimmed :: "string \<Rightarrow> bool" where
  "trimmed s \<longleftrightarrow> s = [] \<or> (\<not> is_space (hd s) \<and> \<not> is_space (last s))"

lemma dropWhile_hd: "s = [] \<or> \<not> p (hd s) \<Longrightarrow> dropWhile p s = s"
  by (cases s) auto

lemma trim_space_id: "trimmed s \<Longrightarrow> trim_space s = s"
  by (auto simp: trimmed_def trim_space_def trim_func_def trim_right_def dropWhile_hd hd_rev)

lemma last_join: "ws \<noteq> [] \<Longrightarrow> last ws \<noteq> [] \<Longrightarrow> last (join sep ws) = last (last ws)"
proof (induction ws)
  case (Cons w ws)
  show ?case
  proof (cases "ws = []")
    case False
    moreover have "join sep ws \<noteq> []"
      using False Cons.prems by (induction ws) (auto simp: join_Cons split: if_splits)
    ultimately show ?thesis using Cons by (simp add: join_Cons)
  qed simp
qed simp

lemma join_words_Nil: "\<forall>w \<in> set ws. word_ok w \<Longrightarrow> join sep ws = [] \<longleftrightarrow> ws = []"
  by (cases ws) (auto simp: join_Cons word_ok_def)

lemma trimmed_join: "\<forall>w \<in> set ws. word_ok w \<Longrightarrow> trimmed (join '' '' ws)"
proof (cases "ws = []")
  case False
  assume ok: "\<forall>w \<in> set ws. word_ok w"
  then have "word_ok (last ws)" using False by simp
  then have "\<not> is_space (last (join '' '' ws))"
    using False by (auto simp: last_join word_ok_def)
  moreover have "\<not> is_space (hd (join '' '' ws))"
    using ok False by (cases ws) (auto simp: join_Cons word_ok_def)
  ultimately show ?thesis by (simp add: trimmed_def)
qed (simp add: trimmed_def)

lemma trim_space_trimmed [simp]: "trimmed (trim_space s)"
proof (cases "dropWhile is_space s")
  case Nil
  then have "trim_space s = []" by (simp only: trim_space_def trim_func_def trim_right_def) simp
  then show ?thesis by (simp add: trimmed_def)
next
  case (Cons c cs)
  then have c: "\<not> is_space c" by (metis hd_dropWhile list.sel(1) list.simps(3))
  obtain t where t: "c # cs = trim_space s @ t" "\<forall>x \<in> set t. is_space x"
    using trim_space_split [of s] unfolding Cons by blast
  have "trim_space s \<noteq> []" using t c by auto
  moreover from this t(1) have "hd (trim_space s) = c" by (cases "trim_space s") auto
  moreover have "\<not> is_space (last (trim_space s))"
  proof -
    let ?r = "dropWhile is_space (rev (c # cs))"
    have r: "trim_space s = rev ?r"
      by (simp only: trim_space_def trim_func_def trim_right_def Cons)
    then have "?r \<noteq> []" using \<open>trim_space s \<noteq> []\<close> by (metis rev.simps(1))
    then have "\<not> is_space (hd ?r)" by (rule hd_dropWhile)
    then show ?thesis using r \<open>?r \<noteq> []\<close> by (metis last_rev)
  qed
  ultimately show ?thesis using c by (simp add: trimmed_def)
qed

lemma str_fields_eq_Nil: "str_fields s = [] \<longleftrightarrow> (\<forall>c \<in> set s. is_space c)"
proof -
  have "str_fields_aux cur s = [] \<longleftrightarrow> cur = [] \<and> (\<forall>c \<in> set s. is_space c)" for cur
    by (induction cur s rule: str_fields_aux.induct) auto
  then show ?thesis by (simp add: str_fields_def)
qed

lemma length_remove_all: "length (remove_all old s) \<le> length s"
  by (induction old s rule: remove_all.induct) auto

lemma remove_all_id: "\<not> contains s old \<Longrightarrow> remove_all old s = s"
proof (induction old s rule: remove_all.induct)
  case (2 old c cs)
  then have "\<not> has_prefix old (c # cs)" by (auto simp: contains_def)
  moreover have "\<not> contains cs old" using "2.prems" calculation by (auto simp: contains_def)
  ultimately show ?case using "2.IH" by simp
qed simp

lemma length_truncate_string: "length (truncate_string s n) \<le> n"
  by (simp add: truncate_string_def)

lemma split_on_ne [simp]: "split_on sep s \<noteq> []"
proof -
  have "split_aux sep cur s \<noteq> []" for cur
    by (induction s arbitrary: cur) auto
  then show ?thesis by (simp add: split_on_def)
qed

lemma split_on_append_sep: "split_on sep (a @ sep # b) = split_on sep a @ split_on sep b"
proof -
  have "split_aux sep cur (a @ sep # b) = split_aux sep cur a @ split_on sep b" for cur
    by (induction a arbitrary: cur) (auto simp: split_on_def)
  then show ?thesis by (simp add: split_on_def)
qed

lemma split_on_no_sep [simp]: "sep \<notin> set s \<Longrightarrow> split_on sep s = [s]"
proof -
  have "sep \<notin> set s \<Longrightarrow> split_aux sep cur s = [cur @ s]" for cur
    by (induction s arbitrary: cur) auto
  then show "sep \<notin> set s \<Longrightarrow> split_on sep s = [s]" by (simp add: split_on_def)
qed

lemma split_on_lines:
  "\<forall>l \<in> set ls. sep \<notin> set l \<Longrightarrow> split_on sep (concat (map (\<lambda>l. l @ [sep]) ls)) = ls @ [[]]"
  by (induction ls) (simp_all add: split_on_append_sep)

lemma has_prefix_word: "c \<notin> set p \<Longrightarrow> has_prefix p (t @ c # rest) \<longleftrightarrow> has_prefix p t"
  by (induction p t rule: has_prefix.induct) auto

lemma index_of_char: "c \<notin> set a \<Longrightarrow> index_of [c] (a @ c # b) = Some (length a)"
  by (induction a) auto

lemma trim_space_blank: "is_space c \<Longrightarrow> trim_space (c # s) = trim_space s"
  by (simp add: trim_space_def trim_func_def)

lemma word_ok_blank: "word_ok w \<Longrightarrow> CHR '' '' \<notin> set w" "word_ok w \<Longrightarrow> CHR 0x0A \<notin> set w"
  by (auto simp: word_ok_def is_space_def)

section \<open>Lemmas on decimal numbers\<close>

lemma of_char_digit: "n < 10 \<Longrightarrow> (of_char (digit n) :: nat) = 48 + n"
  by (simp add: digit_def)

lemma is_digit_digit [simp]: "n < 10 \<Longrightarrow> is_digit (digit n)"
  by (simp add: is_digit_def of_char_digit)

lemma show_nat_digits: "list_all is_digit (show_nat n)"
  by (induction n rule: show_nat.induct) (subst show_nat.simps, simp)

lemma show_nat_not_Nil [simp]: "show_nat n \<noteq> []"
  by (subst show_nat.simps) simp

lemma digits_value_snoc: "digits_value (s @ [c]) = 10 * digits_value s + (of_char c - 48)"
  by (simp add: digits_value_def)

lemma digits_value_show [simp]: "digits_value (show_nat n) = n"
proof (induction n rule: show_nat.induct)
  case (1 n)
  then show ?case
    by (subst show_nat.simps) (auto simp: digits_value_snoc of_char_digit, simp add: digits_value_def of_char_digit)
qed

lemma not_digit: "\<not> is_digit (CHR ''-'')" "\<not> is_digit (CHR ''+'')" "\<not> is_digit (CHR ''_'')"
  by (simp_all add: is_digit_def)

lemma is_digit_not_space: "is_digit c \<Longrightarrow> \<not> is_space c"
  by (auto simp: is_digit_def is_space_def)

lemma parse_int_digits:
  assumes "list_all is_digit ds" and "ds \<noteq> []"
  shows "int (digits_value ds) < 2 ^ 63 \<Longrightarrow> parse_int ds = Some (int (digits_value ds))"
    and "int (digits_value ds) \<le> 2 ^ 63 \<Longrightarrow> parse_int (CHR ''-'' # ds) = Some (- int (digits_value ds))"
  using assms not_digit by (auto simp: parse_int_def Let_def split: list.splits)

text \<open>Round trip: what \<open>%d\<close> prints of a 64-bit integer, \<open>ParseInt\<close> and \<open>Sscanf\<close> read back.\<close>

lemma parse_show_int: "- (2 ^ 63) \<le> i \<Longrightarrow> i < 2 ^ 63 \<Longrightarrow> parse_int (show_int i) = Some i"
  using parse_int_digits [OF show_nat_digits show_nat_not_Nil]
  by (cases "i < 0") (simp_all add: show_int_def)

lemma scan_show_int:
  assumes "- (2 ^ 63) \<le> i" and "i < 2 ^ 63"
  shows "scan_int (show_int i) = Some i"
proof -
  let ?num = "\<lambda>c. is_digit c \<or> c = CHR ''_''"
  have all: "takeWhile ?num (show_nat n) = show_nat n" for n
    using show_nat_digits [of n] by (auto simp: list_all_iff)
  have hd: "is_digit (hd (show_nat n))" for n
    using show_nat_digits [of n] by (simp add: list_all_iff)
  show ?thesis
  proof (cases "i < 0")
    case True
    then show ?thesis using parse_show_int [OF assms]
      by (simp add: scan_int_def show_int_def is_space_def all)
  next
    case False
    obtain c cs where c: "show_nat (nat i) = c # cs" by (cases "show_nat (nat i)") auto
    then have "is_digit c" using hd [of "nat i"] by simp
    then show ?thesis using parse_show_int [OF assms] all [of "nat i"] not_digit False unfolding c
      by (auto simp: scan_int_def show_int_def is_digit_not_space Let_def c simp del: takeWhile_eq_all_conv)
  qed
qed

section \<open>Loops over independent items\<close>

text \<open>A loop whose steps each touch their own key: the value at a key is what its own step made of it.\<close>

lemma fold_independent:
  assumes "\<And>i s c. i \<in> set is \<Longrightarrow> c \<noteq> k i \<Longrightarrow> f c (step i s) = f c s" and "\<And>i s. i \<in> set is \<Longrightarrow> P s \<Longrightarrow> P (step i s)"
    and "distinct (map k is)" and "i \<in> set is" and "P s"
  shows "\<exists>s'. P s' \<and> f (k i) (fold step is s) = f (k i) (step i s')"
  using assms
proof (induction "is" arbitrary: s)
  case (Cons j js)
  have other: "set xs \<subseteq> set js \<Longrightarrow> c \<notin> k ` set xs \<Longrightarrow> f c (fold step xs t) = f c t" for c t xs
    using Cons.prems(1) by (induction xs arbitrary: t) auto
  show ?case
  proof (cases "i = j")
    case True
    then have "f (k i) (fold step (j # js) s) = f (k i) (step j s)" using Cons.prems(3) by (simp add: other)
    then show ?thesis using True Cons.prems(5) by blast
  next
    case False
    then have "i \<in> set js" "P (step j s)" using Cons.prems by auto
    then show ?thesis using Cons.IH [of "step j s"] Cons.prems(1-3) by simp
  qed
qed simp

lemma fold_inv: "(\<And>i s. i \<in> set is \<Longrightarrow> P s \<Longrightarrow> P (step i s)) \<Longrightarrow> P s \<Longrightarrow> P (fold step is s)"
  by (induction "is" arbitrary: s) auto

end
