(* ===== verification/Discovery.thy ===== *)
theory Discovery
  imports Prelude
begin

text \<open>
  Cron discovery of the agent (\<open>apps/agent/internal/discovery/cron.go\<close>): the line scanner
  over a crontab file, time-zone lines, the regular expression of a cron line, command
  normalisation and hashing, and the scan of the well-known locations. The file system is the
  parameter \<open>os_files\<close> (what a path reads as, what a glob matches, what a directory lists)
  and the SHA-256 digest the parameter \<open>sha\<close>.
\<close>

section \<open>Definitions\<close>

record discovered_job =
  dj_source_type :: string
  dj_schedule :: string
  dj_timezone :: string
  dj_user :: string
  dj_raw_command :: string
  dj_normalized_command :: string
  dj_command_hash :: string
  dj_enabled :: bool
  dj_source_file :: string

record cron_scanner =
  extra_cron_dirs :: "string list"
  skip_system_crons :: bool

text \<open>What the operating system answers; \<open>None\<close> when a file or directory cannot be read.\<close>

record os_files =
  os_read :: "string \<Rightarrow> string option"
  os_glob :: "string \<Rightarrow> string list"
  os_read_dir :: "string \<Rightarrow> (string \<times> bool) list option"
  os_join :: "string \<Rightarrow> string \<Rightarrow> string"

subsection \<open>Command normalisation\<close>

text \<open>One match of \<open>\s*>\s*/\S+\<close> at the head of the string: what is left after it.\<close>

definition match_redirect :: "string \<Rightarrow> string option" where
  "match_redirect s =
     (case dropWhile re_space s of
        [] \<Rightarrow> None
      | c # s2 \<Rightarrow>
          if c \<noteq> CHR ''>'' then None
          else (case dropWhile re_space s2 of
                  [] \<Rightarrow> None
                | d # s4 \<Rightarrow>
                    if d \<noteq> CHR ''/'' \<or> s4 = [] \<or> re_space (hd s4) then None
                    else Some (dropWhile (\<lambda>x. \<not> re_space x) s4)))"

lemma match_redirect_shorter: "match_redirect s = Some r \<Longrightarrow> length r < length s"
  using length_dropWhile_le [of re_space s]
  by (auto simp: match_redirect_def split: list.splits if_splits)
    (metis (no_types, lifting) length_dropWhile_le le_imp_less_Suc length_Cons less_SucI
      not_less_eq order_le_less_trans order_less_le_trans)

function strip_redirects :: "string \<Rightarrow> string" where
  "strip_redirects s =
     (case match_redirect s of
        Some r \<Rightarrow> strip_redirects r
      | None \<Rightarrow> (case s of [] \<Rightarrow> [] | c # cs \<Rightarrow> c # strip_redirects cs))"
  by pat_completeness auto
termination
  by (relation "measure length") (auto dest: match_redirect_shorter)

declare strip_redirects.simps [simp del]

definition normalize_command :: "string \<Rightarrow> string" where
  "normalize_command cmd =
     (let c1 = strip_redirects cmd;
          c2 = remove_all ''> /dev/null 2>&1'' c1;
          c3 = remove_all ''2>&1'' c2;
          c4 = remove_all ''>/dev/null'' c3;
          c5 = join '' '' (str_fields c4)
      in trim_space c5)"

definition hex_digit :: "nat \<Rightarrow> char" where
  "hex_digit n = ''0123456789abcdef'' ! n"

definition hex_of :: "string \<Rightarrow> string" where
  "hex_of bs = concat (map (\<lambda>b. [hex_digit (of_char b div 16), hex_digit (of_char b mod 16)]) bs)"

definition command_hash :: "(string \<Rightarrow> string) \<Rightarrow> string \<Rightarrow> string" where
  "command_hash sha cmd = hex_of (take 8 (sha cmd))"

subsection \<open>Lines of a crontab\<close>

definition tz_cut :: "char \<Rightarrow> bool" where
  "tz_cut c \<longleftrightarrow> c = CHR 0x22 \<or> c = CHR 0x27 \<or> c = CHR '' ''"

fun parse_tz_from :: "string list \<Rightarrow> string \<Rightarrow> string option" where
  "parse_tz_from [] line = None"
| "parse_tz_from (p # ps) line =
     (if has_prefix p line then Some (trim_func tz_cut (trim_prefix p line))
      else parse_tz_from ps line)"

definition parse_tz_line :: "string \<Rightarrow> string option" where
  "parse_tz_line line = parse_tz_from [''CRON_TZ='', ''TZ=''] line"

text \<open>
  \<open>re_tokens n s\<close> matches \<open>(\S+)\s+\<close> \<open>n\<close> times and gives the rest of the text.
  After the last group the rest must not be empty for \<open>(.+)$\<close>: where only white space is
  left, the matcher gives one byte of it back.
\<close>

primrec re_tokens :: "nat \<Rightarrow> string \<Rightarrow> (string list \<times> string) option" where
  "re_tokens 0 s = Some ([], s)"
| "re_tokens (Suc n) s =
     (let t = takeWhile (\<lambda>x. \<not> re_space x) s;
          r = dropWhile (\<lambda>x. \<not> re_space x) s
      in if t = [] \<or> r = [] then None
         else let w = takeWhile re_space r;
                  u = dropWhile re_space r;
                  u' = (if n = 0 \<and> u = [] \<and> 2 \<le> length w then [last w] else u)
              in map_option (\<lambda>(ts, rest). (t # ts, rest)) (re_tokens n u'))"

definition match_cron_line :: "string \<Rightarrow> (string list \<times> string) option" where
  "match_cron_line line =
     (case re_tokens 5 line of
        None \<Rightarrow> None
      | Some (ts, rest) \<Rightarrow> if rest = [] \<or> CHR 0x0A \<in> set rest then None else Some (ts, rest))"

definition parse_cron_line ::
  "(string \<Rightarrow> string) \<Rightarrow> string \<Rightarrow> string \<Rightarrow> bool \<Rightarrow> string \<Rightarrow> discovered_job option" where
  "parse_cron_line sha line path has_user tz =
     (case match_cron_line line of
        None \<Rightarrow> None
      | Some (ts, m6) \<Rightarrow>
          let schedule = join '' '' ts;
              rest = trim_space m6;
              parts = (if has_user
                       then map_option (\<lambda>(u, c). (u, trim_space c)) (split2 (CHR '' '') rest)
                       else Some ([], rest))
          in case parts of
               None \<Rightarrow> None
             | Some (user, raw) \<Rightarrow>
                 let normalized = normalize_command raw;
                     h = command_hash sha normalized
                 in Some \<lparr>dj_source_type = ''cron'', dj_schedule = schedule, dj_timezone = tz,
                          dj_user = user, dj_raw_command = raw,
                          dj_normalized_command = normalized, dj_command_hash = h,
                          dj_enabled = True, dj_source_file = path\<rparr>)"

fun parse_lines ::
  "(string \<Rightarrow> string) \<Rightarrow> string \<Rightarrow> bool \<Rightarrow> string \<Rightarrow> string list \<Rightarrow> discovered_job list" where
  "parse_lines sha path has_user tz [] = []"
| "parse_lines sha path has_user tz (raw # rest) =
     (let line = trim_space raw in
      if line = [] \<or> has_prefix ''#'' line then parse_lines sha path has_user tz rest
      else (case parse_tz_line line of
              Some tz' \<Rightarrow> parse_lines sha path has_user tz' rest
            | None \<Rightarrow>
                if has_prefix ''@'' line then parse_lines sha path has_user tz rest
                else (case parse_cron_line sha line path has_user tz of
                        None \<Rightarrow> parse_lines sha path has_user tz rest
                      | Some j \<Rightarrow> j # parse_lines sha path has_user tz rest)))"

subsection \<open>Files\<close>

text \<open>
  \<open>bufio.Scanner\<close> over lines: a line of 65536 bytes or more stops the scan with an error, a
  carriage return at the end of a line is dropped, and nothing follows a final newline.
\<close>

definition max_token :: nat where
  "max_token = 65536"

definition drop_cr :: "string \<Rightarrow> string" where
  "drop_cr l = (if l \<noteq> [] \<and> last l = CHR 0x0D then butlast l else l)"

definition raw_lines :: "string \<Rightarrow> string list" where
  "raw_lines content =
     (let ps = split_on (CHR 0x0A) content in if last ps = [] then butlast ps else ps)"

definition scan_lines :: "string \<Rightarrow> string list \<times> bool" where
  "scan_lines content =
     (let ls = raw_lines content
      in (map drop_cr (takeWhile (\<lambda>l. length l < max_token) ls), \<exists>l \<in> set ls. max_token \<le> length l))"

datatype scan_error = Open_Error | Token_Too_Long

definition parse_crontab ::
  "(string \<Rightarrow> string) \<Rightarrow> os_files \<Rightarrow> string \<Rightarrow> bool \<Rightarrow> discovered_job list \<times> scan_error option" where
  "parse_crontab sha os path has_user =
     (case os_read os path of
        None \<Rightarrow> ([], Some Open_Error)
      | Some content \<Rightarrow>
          let (ls, too_long) = scan_lines content
          in (parse_lines sha path has_user ''UTC'' ls,
              if too_long then Some Token_Too_Long else None))"

text \<open>The callers append the jobs of a file only when it parsed without an error.\<close>

definition file_jobs ::
  "(string \<Rightarrow> string) \<Rightarrow> os_files \<Rightarrow> bool \<Rightarrow> string \<Rightarrow> discovered_job list" where
  "file_jobs sha os has_user path =
     (case parse_crontab sha os path has_user of (js, None) \<Rightarrow> js | (_, Some _) \<Rightarrow> [])"

definition scan_user_dir :: "(string \<Rightarrow> string) \<Rightarrow> os_files \<Rightarrow> string \<Rightarrow> discovered_job list" where
  "scan_user_dir sha os dir =
     (case os_read_dir os dir of
        None \<Rightarrow> []
      | Some entries \<Rightarrow>
          concat (map (\<lambda>(name, is_dir).
             if is_dir then []
             else map (\<lambda>j. j\<lparr>dj_user := name\<rparr>) (file_jobs sha os False (os_join os dir name))) entries))"

definition scan_user_crontabs :: "(string \<Rightarrow> string) \<Rightarrow> os_files \<Rightarrow> discovered_job list" where
  "scan_user_crontabs sha os =
     concat (map (scan_user_dir sha os) [''/var/spool/cron/crontabs'', ''/var/spool/cron''])"

definition scan :: "(string \<Rightarrow> string) \<Rightarrow> os_files \<Rightarrow> cron_scanner \<Rightarrow> discovered_job list" where
  "scan sha os s =
     (if skip_system_crons s then []
      else file_jobs sha os True ''/etc/crontab''
           @ concat (map (file_jobs sha os True) (os_glob os ''/etc/cron.d/*'')))
     @ concat (map (\<lambda>dir. concat (map (file_jobs sha os True) (os_glob os (os_join os dir ''*''))))
         (extra_cron_dirs s))
     @ (if skip_system_crons s then [] else scan_user_crontabs sha os)"

section \<open>Normalisation and hashing\<close>

lemma normalize_command_join:
  "\<exists>ws. normalize_command c = join '' '' ws \<and> (\<forall>w \<in> set ws. word_ok w)"
proof -
  define ws where
    "ws = str_fields (remove_all ''>/dev/null'' (remove_all ''2>&1''
       (remove_all ''> /dev/null 2>&1'' (strip_redirects c))))"
  have ok: "\<forall>w \<in> set ws. word_ok w" by (auto simp: ws_def intro: str_fields_words)
  then have "normalize_command c = join '' '' ws"
    by (simp add: normalize_command_def ws_def [symmetric] trim_space_id trimmed_join)
  with ok show ?thesis by blast
qed

lemma normalize_command_words: "normalize_command c \<noteq> [] \<Longrightarrow> str_fields (normalize_command c) \<noteq> []"
  using normalize_command_join [of c] by auto

lemma match_redirect_None: "CHR ''>'' \<notin> set s \<Longrightarrow> match_redirect s = None"
  by (auto simp: match_redirect_def split: list.split) (metis list.set_intros(1) set_dropWhileD)

lemma strip_redirects_id: "CHR ''>'' \<notin> set s \<Longrightarrow> strip_redirects s = s"
proof (induction s)
  case Nil
  show ?case by (subst strip_redirects.simps) (simp add: match_redirect_None)
next
  case (Cons c cs)
  have "match_redirect (c # cs) = None" using Cons.prems by (rule match_redirect_None)
  with Cons show ?case by (subst strip_redirects.simps) simp
qed

lemma not_contains_gt: "CHR ''>'' \<notin> set s \<Longrightarrow> CHR ''>'' \<in> set old \<Longrightarrow> \<not> contains s old"
  by (auto simp: contains_iff)

lemma normalize_command_plain:
  assumes "CHR ''>'' \<notin> set c"
  shows "normalize_command c = join '' '' (str_fields c)"
proof -
  have "trimmed (join '' '' (str_fields c))" by (intro trimmed_join ballI str_fields_words)
  then show ?thesis using assms
    by (simp add: normalize_command_def strip_redirects_id remove_all_id not_contains_gt trim_space_id)
qed

text \<open>A command followed by the usual redirection to a file under \<open>/\<close>.\<close>

lemma match_redirect_gt:
  assumes "CHR ''>'' \<notin> set a"
  shows "match_redirect (a @ CHR ''>'' # s) =
     (if \<forall>c \<in> set a. re_space c then match_redirect (CHR ''>'' # s) else None)"
proof (cases "\<forall>c \<in> set a. re_space c")
  case True
  have "dropWhile re_space (a @ CHR ''>'' # s) = CHR ''>'' # s"
    using True by (simp add: re_space_def)
  then show ?thesis using True by (simp add: match_redirect_def re_space_def)
next
  case False
  then obtain x xs where d: "dropWhile re_space a = x # xs"
    by (metis dropWhile_eq_Nil_conv neq_Nil_conv)
  then have "x \<noteq> CHR ''>''" using assms by (metis list.set_intros(1) set_dropWhileD)
  moreover have "dropWhile re_space (a @ CHR ''>'' # s) = x # xs @ CHR ''>'' # s"
    using d False by (subst dropWhile_append) auto
  ultimately have "match_redirect (a @ CHR ''>'' # s) = None" by (simp add: match_redirect_def)
  then show ?thesis using False by (simp only: if_False)
qed

lemma strip_redirects_gt:
  assumes "CHR ''>'' \<notin> set a" and "match_redirect (CHR ''>'' # s) = Some r"
  shows "strip_redirects (a @ CHR ''>'' # s) = trim_right re_space a @ strip_redirects r"
  using assms(1)
proof (induction a)
  case Nil
  then show ?case using assms(2) by (subst strip_redirects.simps) (simp add: trim_right_def)
next
  case (Cons c cs)
  show ?case
  proof (cases "\<forall>x \<in> set (c # cs). re_space x")
    case True
    then have "match_redirect ((c # cs) @ CHR ''>'' # s) = Some r"
      using match_redirect_gt [OF Cons.prems, of s] assms(2) by simp
    moreover have "trim_right re_space (c # cs) = []" using True by (simp add: trim_right_def)
    ultimately show ?thesis by (subst strip_redirects.simps) simp
  next
    case False
    then have "match_redirect ((c # cs) @ CHR ''>'' # s) = None"
      using match_redirect_gt [OF Cons.prems, of s] by auto
    moreover have "trim_right re_space (c # cs) = c # trim_right re_space cs"
      using False by (auto simp: trim_right_def dropWhile_append)
    ultimately show ?thesis using Cons by (subst strip_redirects.simps) simp
  qed
qed

lemma remove_all_2gt1:
  "CHR ''>'' \<notin> set a \<Longrightarrow> remove_all ''2>&1'' (a @ ''2>&1'' @ b) = a @ remove_all ''2>&1'' b"
proof (induction a)
  case (Cons x xs)
  then have "\<not> has_prefix ''2>&1'' ((x # xs) @ ''2>&1'' @ b)" by (cases xs) auto
  then have "remove_all ''2>&1'' ((x # xs) @ ''2>&1'' @ b) = x # remove_all ''2>&1'' (xs @ ''2>&1'' @ b)"
    by (simp del: has_prefix.simps)
  then show ?case using Cons by simp
qed simp

lemma match_redirect_path:
  assumes "p \<noteq> []" and "\<forall>c \<in> set p. \<not> re_space c" and "s = [] \<or> re_space (hd s)"
  shows "match_redirect (''> /'' @ p @ s) = Some s"
proof -
  have "dropWhile (\<lambda>x. \<not> re_space x) (p @ s) = s"
    using assms(2,3) by (cases s) auto
  then show ?thesis using assms(1,2)
    by (cases p) (simp_all add: match_redirect_def re_space_def)
qed

lemma str_fields_trim_right_blank:
  assumes "\<forall>c \<in> set b. is_space c"
  shows "str_fields (trim_right re_space a @ b) = str_fields a"
proof -
  obtain t where t: "a = trim_right re_space a @ t" "\<forall>c \<in> set t. re_space c"
    by (rule trim_right_split)
  then have blank: "\<forall>c \<in> set t. is_space c" by (auto intro: re_space_is_space)
  have "str_fields a = str_fields (trim_right re_space a @ t)"
    by (rule arg_cong [OF t(1)])
  also have "\<dots> = str_fields (trim_right re_space a)"
    unfolding str_fields_def by (rule str_fields_aux_trailing [OF blank])
  also have "\<dots> = str_fields (trim_right re_space a @ b)"
    unfolding str_fields_def by (rule str_fields_aux_trailing [OF assms, symmetric])
  finally show ?thesis by (rule sym)
qed

text \<open>A command and the same command with its output redirected to an absolute path (and
  its error output with it) have the same normal form, so discovery gives them one identity.\<close>

theorem redirect_identity:
  assumes "CHR ''>'' \<notin> set cmd" and "p \<noteq> []" and "\<forall>c \<in> set p. \<not> re_space c"
  shows "normalize_command (cmd @ ''> /'' @ p @ '' 2>&1'') = normalize_command cmd"
proof -
  let ?a = "trim_right re_space cmd"
  have gt: "CHR ''>'' \<notin> set ?a"
    using assms(1) trim_right_split [of cmd re_space] by (metis UnCI set_append)
  have "strip_redirects (cmd @ ''> /'' @ p @ '' 2>&1'') = ?a @ strip_redirects '' 2>&1''"
    using strip_redirects_gt [OF assms(1), of "'' /'' @ p @ '' 2>&1''" "'' 2>&1''"]
      match_redirect_path [OF assms(2,3), of "'' 2>&1''"] by simp
  moreover have "strip_redirects '' 2>&1'' = '' 2>&1''" by code_simp
  moreover have "remove_all ''> /dev/null 2>&1'' (?a @ '' 2>&1'') = ?a @ '' 2>&1''"
  proof (rule remove_all_id)
    have "\<not> contains (s @ '' 2>&1'') ''> /dev/null 2>&1''" if "CHR ''>'' \<notin> set s" for s
      using that by (induction s) (auto simp: contains_def)
    then show "\<not> contains (?a @ '' 2>&1'') ''> /dev/null 2>&1''" using gt .
  qed
  moreover have "remove_all ''2>&1'' (?a @ '' 2>&1'') = ?a @ '' ''"
    using remove_all_2gt1 [of "?a @ '' ''" "[]"] gt by simp
  moreover have "remove_all ''>/dev/null'' (?a @ '' '') = ?a @ '' ''"
    using gt by (intro remove_all_id not_contains_gt) auto
  moreover have "str_fields (?a @ '' '') = str_fields cmd"
    by (rule str_fields_trim_right_blank) simp
  ultimately have "normalize_command (cmd @ ''> /'' @ p @ '' 2>&1'')
      = trim_space (join '' '' (str_fields cmd))"
    by (simp add: normalize_command_def)
  then show ?thesis using normalize_command_plain [OF assms(1)]
    by (simp add: trim_space_id trimmed_join str_fields_words)
qed

theorem redirect_identity_witness:
  "normalize_command (''/opt/run.sh --all '' @ ''> /'' @ ''dev/null'' @ '' 2>&1'')
     = normalize_command ''/opt/run.sh --all ''"
  by (rule redirect_identity) (simp_all add: re_space_def)

lemma set_str_fields_aux:
  "(\<Union>w \<in> set (str_fields_aux cur s). set w) = set cur \<union> {c \<in> set s. \<not> is_space c}"
proof (induction cur s rule: str_fields_aux.induct)
  case (2 cur c cs)
  then show ?case by (cases "is_space c"; cases "cur = []") auto
qed auto

lemma set_str_fields: "(\<Union>w \<in> set (str_fields s). set w) = {c \<in> set s. \<not> is_space c}"
  by (simp add: str_fields_def set_str_fields_aux)

text \<open>Commands that differ only in their white space get the same hash: the identity of a
  job does not depend on the spacing in the crontab.\<close>

theorem command_hash_spacing:
  assumes "CHR ''>'' \<notin> set a" and "str_fields a = str_fields b"
  shows "command_hash sha (normalize_command a) = command_hash sha (normalize_command b)"
proof -
  have "{c \<in> set a. \<not> is_space c} = {c \<in> set b. \<not> is_space c}"
    using assms(2) by (simp only: set_str_fields [symmetric])
  moreover have "\<not> is_space (CHR ''>'')" by (simp add: is_space_def)
  ultimately have "CHR ''>'' \<notin> set b" using assms(1) by blast
  then show ?thesis using assms by (simp add: normalize_command_plain)
qed

theorem command_hash_spacing_witness:
  "command_hash (\<lambda>s. s @ replicate 32 (CHR ''x'')) (normalize_command ''run  a b '')
     = command_hash (\<lambda>s. s @ replicate 32 (CHR ''x'')) (normalize_command ''run a  b'')"
  by (rule command_hash_spacing) (simp, code_simp)

section \<open>Cron lines\<close>

lemma word_ok_re: "word_ok w \<Longrightarrow> \<forall>c \<in> set w. \<not> re_space c"
  by (auto simp: word_ok_def dest: re_space_is_space)

lemma re_tokens_word:
  assumes "word_ok w" and "s \<noteq> []" and "\<not> re_space (hd s)"
  shows "re_tokens (Suc n) (w @ CHR '' '' # s) = map_option (\<lambda>(ts, rest). (w # ts, rest)) (re_tokens n s)"
proof -
  have "takeWhile (\<lambda>x. \<not> re_space x) (w @ CHR '' '' # s) = w"
    and "dropWhile (\<lambda>x. \<not> re_space x) (w @ CHR '' '' # s) = CHR '' '' # s"
    using word_ok_re [OF assms(1)] by simp_all
  moreover have "dropWhile re_space s = s" "takeWhile re_space s = []"
    using assms(2,3) by (cases s; simp)+
  ultimately show ?thesis using assms(1,2) by (simp add: word_ok_def)
qed

lemma re_tokens_words:
  assumes "\<forall>w \<in> set ws. word_ok w" and "s \<noteq> []" and "\<not> re_space (hd s)"
  shows "re_tokens (length ws) (concat (map (\<lambda>w. w @ '' '') ws) @ s) = Some (ws, s)"
  using assms(1)
proof (induction ws)
  case (Cons w ws)
  let ?s = "concat (map (\<lambda>w. w @ '' '') ws) @ s"
  have "?s \<noteq> []" using assms(2) by simp
  moreover have "\<not> re_space (hd ?s)"
  proof (cases ws)
    case (Cons v vs)
    then have "word_ok v" using Cons.prems by simp
    then show ?thesis using Cons by (cases v) (auto simp: word_ok_def dest: re_space_is_space)
  qed (use assms(3) in simp)
  ultimately show ?case using Cons re_tokens_word [of w ?s "length ws"] by simp
qed simp

text \<open>A cron entry as it is written into a system crontab.\<close>

definition render_entry :: "string list \<Rightarrow> string \<Rightarrow> string \<Rightarrow> string" where
  "render_entry ts user cmd = concat (map (\<lambda>t. t @ '' '') ts) @ user @ '' '' @ cmd"

definition entry_ok :: "string list \<times> string \<times> string \<Rightarrow> bool" where
  "entry_ok e \<longleftrightarrow> (case e of (ts, user, cmd) \<Rightarrow>
     length ts = 5 \<and> (\<forall>t \<in> set ts. word_ok t) \<and> word_ok user \<and>
     cmd \<noteq> [] \<and> trimmed cmd \<and> CHR 0x0A \<notin> set cmd \<and>
     \<not> has_prefix ''#'' (hd ts) \<and> \<not> has_prefix ''@'' (hd ts) \<and>
     \<not> has_prefix ''TZ='' (hd ts) \<and> \<not> has_prefix ''CRON_TZ='' (hd ts) \<and>
     length (render_entry ts user cmd) < max_token)"

definition entry_job ::
  "(string \<Rightarrow> string) \<Rightarrow> string \<Rightarrow> string \<Rightarrow> string list \<times> string \<times> string \<Rightarrow> discovered_job" where
  "entry_job sha path tz e = (case e of (ts, user, cmd) \<Rightarrow>
     \<lparr>dj_source_type = ''cron'', dj_schedule = join '' '' ts, dj_timezone = tz, dj_user = user,
      dj_raw_command = cmd, dj_normalized_command = normalize_command cmd,
      dj_command_hash = command_hash sha (normalize_command cmd), dj_enabled = True,
      dj_source_file = path\<rparr>)"

lemma split2_word: "sep \<notin> set w \<Longrightarrow> split2 sep (w @ sep # s) = Some (w, s)"
  by (auto simp: split2_def takeWhile_tail dropWhile_append)

lemma trimmed_user_cmd:
  "word_ok user \<Longrightarrow> cmd \<noteq> [] \<Longrightarrow> trimmed cmd \<Longrightarrow> trimmed (user @ '' '' @ cmd)"
  by (cases user) (auto simp: trimmed_def word_ok_def)

lemma parse_cron_line_render:
  assumes "entry_ok (ts, user, cmd)"
  shows "parse_cron_line sha (render_entry ts user cmd) path True tz
     = Some (entry_job sha path tz (ts, user, cmd))"
proof -
  note ok = assms [unfolded entry_ok_def, simplified]
  let ?s = "user @ '' '' @ cmd"
  have "\<not> re_space (hd ?s)"
    using ok by (cases user) (auto simp: word_ok_def dest: re_space_is_space)
  then have "re_tokens 5 (render_entry ts user cmd) = Some (ts, ?s)"
    using ok re_tokens_words [of ts ?s] by (simp add: render_entry_def)
  moreover have "CHR 0x0A \<notin> set ?s" using ok word_ok_blank [of user] by simp
  ultimately have m: "match_cron_line (render_entry ts user cmd) = Some (ts, ?s)"
    by (simp add: match_cron_line_def)
  have "trim_space ?s = ?s" using ok by (intro trim_space_id trimmed_user_cmd) auto
  moreover have "split2 (CHR '' '') ?s = Some (user, cmd)"
    using ok word_ok_blank [of user] split2_word [of "CHR '' ''" user cmd] by simp
  moreover have "trim_space cmd = cmd" using ok by (intro trim_space_id) auto
  ultimately show ?thesis using m by (simp add: parse_cron_line_def entry_job_def Let_def)
qed

lemma raw_lines_concat:
  assumes "\<forall>l \<in> set ls. CHR 0x0A \<notin> set l"
  shows "raw_lines (concat (map (\<lambda>l. l @ [CHR 0x0A]) ls)) = ls"
  using split_on_lines [OF assms] by (simp add: raw_lines_def)

lemma parse_lines_entries:
  assumes "\<forall>e \<in> set es. entry_ok e"
  shows "parse_lines sha path True tz (map (\<lambda>(ts, user, cmd). render_entry ts user cmd) es)
     = map (entry_job sha path tz) es"
  using assms
proof (induction es)
  case (Cons e es)
  obtain ts user cmd where e: "e = (ts, user, cmd)" by (cases e)
  then have ok: "entry_ok (ts, user, cmd)" using Cons.prems by simp
  obtain t ts' where ts: "ts = t # ts'" "word_ok t"
    using ok by (cases ts) (auto simp: entry_ok_def)
  obtain rest where l: "render_entry ts user cmd = t @ '' '' @ rest"
    by (simp add: render_entry_def ts)
  let ?l = "render_entry ts user cmd"
  have hd_ts: "hd ts = t" by (simp add: ts(1))
  have pre: "has_prefix p ?l \<longleftrightarrow> has_prefix p t" if "CHR '' '' \<notin> set p" for p
    using that by (simp add: l has_prefix_word)
  have "trim_space ?l = ?l"
  proof (rule trim_space_id)
    have "last ?l = last cmd" using ok by (simp add: render_entry_def entry_ok_def)
    then show "trimmed ?l" using ok ts(2)
      by (cases t) (auto simp: trimmed_def entry_ok_def word_ok_def l)
  qed
  moreover have "?l \<noteq> []" using l by simp
  moreover have "\<not> has_prefix ''#'' ?l" "\<not> has_prefix ''@'' ?l"
    and "parse_tz_line ?l = None"
    using ok hd_ts by (simp_all add: pre entry_ok_def parse_tz_line_def)
  ultimately show ?case
    using Cons parse_cron_line_render [OF ok, of sha path tz] by (simp add: e Let_def)
qed simp

lemma crontab_parses:
  assumes "\<forall>e \<in> set es. entry_ok e"
    and "os_read os path = Some (concat (map (\<lambda>(ts, user, cmd). render_entry ts user cmd @ [CHR 0x0A]) es))"
  shows "parse_crontab sha os path True = (map (entry_job sha path ''UTC'') es, None)"
proof -
  let ?ls = "map (\<lambda>(ts, user, cmd). render_entry ts user cmd) es"
  have content: "concat (map (\<lambda>(ts, user, cmd). render_entry ts user cmd @ [CHR 0x0A]) es)
      = concat (map (\<lambda>l. l @ [CHR 0x0A]) ?ls)"
    by (simp add: comp_def case_prod_unfold)
  have line: "CHR 0x0A \<notin> set l \<and> length l < max_token \<and> drop_cr l = l" if l: "l \<in> set ?ls" for l
  proof -
    obtain ts user cmd where e: "(ts, user, cmd) \<in> set es" "l = render_entry ts user cmd"
      using l by auto
    then have ok: "entry_ok (ts, user, cmd)" using assms(1) by blast
    then have "last l = last cmd" by (simp add: e render_entry_def entry_ok_def)
    moreover have "last cmd \<noteq> CHR 0x0D"
      using ok by (auto simp: entry_ok_def trimmed_def is_space_def)
    ultimately show ?thesis using ok word_ok_blank
      by (auto simp: e render_entry_def entry_ok_def drop_cr_def)
  qed
  then have "raw_lines (concat (map (\<lambda>l. l @ [CHR 0x0A]) ?ls)) = ?ls"
    by (intro raw_lines_concat) blast
  moreover have "takeWhile (\<lambda>l. length l < max_token) ?ls = ?ls"
    using line by (subst takeWhile_eq_all_conv) blast
  moreover have "map drop_cr ?ls = ?ls"
    using line by (intro map_idI) blast
  moreover have "\<not> (\<exists>l \<in> set ?ls. max_token \<le> length l)"
    using line by (meson not_le)
  ultimately have "scan_lines (concat (map (\<lambda>l. l @ [CHR 0x0A]) ?ls)) = (?ls, False)"
    unfolding scan_lines_def Let_def by (simp only:)
  then show ?thesis using assms(2) content parse_lines_entries [OF assms(1)]
    by (simp add: parse_crontab_def)
qed

lemma max_token_le: "n \<le> 65535 \<Longrightarrow> n < max_token"
  by (simp add: max_token_def)

text \<open>C26. Round trip: a system crontab written from schedule, user and command entries parses back
  to exactly those entries, in order, in time zone UTC, each with the hash of its normal form.\<close>

theorem crontab_roundtrip:
  assumes "\<forall>e \<in> set es. entry_ok e"
    and "os_read os path = Some (concat (map (\<lambda>(ts, user, cmd). render_entry ts user cmd @ [CHR 0x0A]) es))"
  shows "parse_crontab sha os path True = (map (entry_job sha path ''UTC'') es, None)"
  using assms by (rule crontab_parses)

theorem crontab_roundtrip_witness:
  "parse_crontab (\<lambda>s. s)
     \<lparr>os_read = (\<lambda>p. Some (''0 2 * * * root /opt/b.sh --full'' @ [CHR 0x0A])), os_glob = (\<lambda>p. []),
      os_read_dir = (\<lambda>d. None), os_join = (\<lambda>d n. d @ n)\<rparr> ''/etc/crontab'' True
   = ([entry_job (\<lambda>s. s) ''/etc/crontab'' ''UTC''
        ([''0'', ''2'', ''*'', ''*'', ''*''], ''root'', ''/opt/b.sh --full'')], None)"
proof -
  let ?e = "([''0'', ''2'', ''*'', ''*'', ''*''], ''root'', ''/opt/b.sh --full'')"
  have "\<forall>e \<in> set [?e]. entry_ok e"
    by (simp add: entry_ok_def word_ok_def is_space_def trimmed_def render_entry_def max_token_def)
  then show ?thesis
    using crontab_roundtrip [of "[?e]" "\<lparr>os_read = (\<lambda>p. Some (''0 2 * * * root /opt/b.sh --full'' @ [CHR 0x0A])),
      os_glob = (\<lambda>p. []), os_read_dir = (\<lambda>d. None), os_join = (\<lambda>d n. d @ n)\<rparr>" "''/etc/crontab''" "\<lambda>s. s"]
    by (simp add: render_entry_def)
qed

text \<open>The time zone in effect at a line and the job a single line declares.\<close>

definition line_tz :: "string \<Rightarrow> string option" where
  "line_tz raw =
     (let line = trim_space raw
      in if line = [] \<or> has_prefix ''#'' line then None else parse_tz_line line)"

definition tz_before :: "string \<Rightarrow> string list \<Rightarrow> string" where
  "tz_before tz ls = (case rev (List.map_filter line_tz ls) of [] \<Rightarrow> tz | t # _ \<Rightarrow> t)"

definition line_entry ::
  "(string \<Rightarrow> string) \<Rightarrow> string \<Rightarrow> bool \<Rightarrow> string \<Rightarrow> string \<Rightarrow> discovered_job option" where
  "line_entry sha path u tz raw =
     (let line = trim_space raw
      in if line = [] \<or> has_prefix ''#'' line \<or> parse_tz_line line \<noteq> None \<or> has_prefix ''@'' line
         then None else parse_cron_line sha line path u tz)"

lemma map_filter_simps [simp]:
  "List.map_filter f [] = []"
  "List.map_filter f (x # xs) = (case f x of None \<Rightarrow> List.map_filter f xs | Some y \<Rightarrow> y # List.map_filter f xs)"
  by (simp_all add: List.map_filter_def split: option.split)

lemma map_filter_map: "List.map_filter f (map g xs) = List.map_filter (\<lambda>x. f (g x)) xs"
  by (induction xs) (auto split: option.split)

lemma map_filter_cong: "(\<And>x. x \<in> set xs \<Longrightarrow> f x = g x) \<Longrightarrow> List.map_filter f xs = List.map_filter g xs"
  by (induction xs) (auto split: option.split)

lemma tz_before_Nil [simp]: "tz_before tz [] = tz"
  by (simp add: tz_before_def)

lemma tz_before_Cons:
  "tz_before tz (l # ls) = tz_before (case line_tz l of None \<Rightarrow> tz | Some t \<Rightarrow> t) ls"
  by (auto simp: tz_before_def split: option.split list.split)

lemma parse_lines_Cons:
  "parse_lines sha path u tz (raw # rest) =
     (let js = parse_lines sha path u (case line_tz raw of None \<Rightarrow> tz | Some t \<Rightarrow> t) rest
      in case line_entry sha path u tz raw of None \<Rightarrow> js | Some j \<Rightarrow> j # js)"
  by (auto simp: line_tz_def line_entry_def Let_def split: option.split)

text \<open>C28. Parsing a crontab is one independent reading per line: line \<open>i\<close> yields the job of its text
  in the time zone of the last CRON_TZ or TZ line above it (UTC when there is none), and
  comments, blank lines, time-zone lines, @-entries and malformed lines yield nothing.\<close>

theorem parse_lines_by_line:
  "parse_lines sha path u tz ls =
     List.map_filter (\<lambda>i. line_entry sha path u (tz_before tz (take i ls)) (ls ! i)) [0..<length ls]"
proof (induction ls arbitrary: tz)
  case (Cons l ls)
  have upt: "[0..<length (l # ls)] = 0 # map Suc [0..<length ls]"
    by (simp add: upt_conv_Cons map_Suc_upt del: upt_Suc)
  show ?case
    unfolding upt
    by (simp add: parse_lines_Cons Cons map_filter_map tz_before_Cons Let_def del: parse_lines.simps
        split: option.split)
qed simp

text \<open>The user field of a system crontab ends at the first blank only: where a tab separates the
  user from the command, the user swallows the executable and the command keeps only what
  follows the next blank.\<close>

theorem tab_after_user:
  assumes "length ts = 5" and "\<forall>t \<in> set ts. word_ok t" and "word_ok user" and "word_ok exe"
    and "args \<noteq> []" and "trimmed args" and "CHR 0x0A \<notin> set args"
  shows "\<exists>j. parse_cron_line sha
      (concat (map (\<lambda>t. t @ '' '') ts) @ user @ CHR 0x09 # exe @ '' '' @ args) path True tz = Some j
    \<and> dj_user j = user @ CHR 0x09 # exe \<and> dj_raw_command j = args"
proof -
  let ?u = "user @ CHR 0x09 # exe"
  let ?s = "?u @ '' '' @ args"
  have "\<not> re_space (hd ?s)"
    using assms(3) by (cases user) (auto simp: word_ok_def dest: re_space_is_space)
  then have "re_tokens 5 (concat (map (\<lambda>t. t @ '' '') ts) @ ?s) = Some (ts, ?s)"
    using re_tokens_words [of ts ?s] assms(1,2) by simp
  moreover have "CHR 0x0A \<notin> set ?s" using assms word_ok_blank by auto
  ultimately have m: "match_cron_line (concat (map (\<lambda>t. t @ '' '') ts) @ ?s) = Some (ts, ?s)"
    by (simp add: match_cron_line_def)
  have "trimmed ?s" using assms(3,5,6) by (cases user) (auto simp: trimmed_def word_ok_def)
  then have "trim_space ?s = ?s" by (rule trim_space_id)
  moreover have "CHR '' '' \<notin> set ?u" using assms word_ok_blank by auto
  then have "split2 (CHR '' '') ?s = Some (?u, args)"
    using split2_word [of "CHR '' ''" ?u args] by simp
  moreover have "trim_space args = args" using assms(6) by (rule trim_space_id)
  ultimately show ?thesis using m by (simp add: parse_cron_line_def Let_def)
qed

theorem tab_after_user_witness:
  "\<exists>j. parse_cron_line (\<lambda>s. s) (''0 2 * * * root'' @ CHR 0x09 # ''/opt/b.sh --full'') ''/etc/crontab'' True ''UTC'' = Some j
    \<and> dj_user j = ''root'' @ CHR 0x09 # ''/opt/b.sh'' \<and> dj_raw_command j = ''--full''"
  using tab_after_user [of "[''0'', ''2'', ''*'', ''*'', ''*'']" "''root''" "''/opt/b.sh''" "''--full''" "\<lambda>s. s"
      "''/etc/crontab''" "''UTC''"]
  by (simp add: word_ok_def is_space_def trimmed_def)

text \<open>A file is read all or nothing: one line of 65536 bytes or more makes the scanner fail, and
  then none of the jobs of that file are reported.\<close>

theorem long_line_drops_file:
  assumes "os_read os path = Some content" and "l \<in> set (raw_lines content)" and "max_token \<le> length l"
  shows "file_jobs sha os u path = []"
  using assms by (auto simp: file_jobs_def parse_crontab_def scan_lines_def Let_def)

theorem long_line_drops_file_witness:
  "file_jobs (\<lambda>s. s)
     \<lparr>os_read = (\<lambda>p. Some (replicate 65536 (CHR ''x''))), os_glob = (\<lambda>p. []),
      os_read_dir = (\<lambda>d. None), os_join = (\<lambda>d n. d @ n)\<rparr> True ''/etc/crontab'' = []"
proof (rule long_line_drops_file)
  have s: "c \<noteq> sep \<Longrightarrow> split_aux sep cur (replicate n c) = [cur @ replicate n c]" for c sep cur n
    by (induction n arbitrary: cur) (simp_all add: replicate_app_Cons_same)
  have "raw_lines (replicate 65536 (CHR ''x'')) = [replicate 65536 (CHR ''x'')]"
    by (simp add: raw_lines_def split_on_def s)
  then show "replicate 65536 (CHR ''x'') \<in> set (raw_lines (replicate 65536 (CHR ''x'')))" by simp
qed (simp_all add: max_token_def)

section \<open>What discovery guarantees of a job\<close>

definition job_ok :: "(string \<Rightarrow> string) \<Rightarrow> discovered_job \<Rightarrow> bool" where
  "job_ok sha j \<longleftrightarrow> dj_normalized_command j = normalize_command (dj_raw_command j)
     \<and> dj_command_hash j = command_hash sha (dj_normalized_command j) \<and> dj_source_type j = ''cron''"

lemma parse_cron_line_ok: "parse_cron_line sha line path u tz = Some j \<Longrightarrow> job_ok sha j"
  by (auto simp: parse_cron_line_def job_ok_def Let_def split: option.splits prod.splits)

lemma parse_lines_ok: "j \<in> set (parse_lines sha path u tz ls) \<Longrightarrow> job_ok sha j"
  by (induction sha path u tz ls rule: parse_lines.induct)
    (auto simp: Let_def parse_cron_line_ok split: if_splits option.splits)

lemma file_jobs_ok: "j \<in> set (file_jobs sha os u path) \<Longrightarrow> job_ok sha j"
  by (auto simp: file_jobs_def parse_crontab_def parse_lines_ok Let_def split: option.splits prod.splits)

lemma scan_jobs_ok: "j \<in> set (scan sha os s) \<Longrightarrow> job_ok sha j"
proof -
  have user: "job_ok sha (j\<lparr>dj_user := u\<rparr>) = job_ok sha j" for j u by (simp add: job_ok_def)
  have "j \<in> set (scan_user_dir sha os d) \<Longrightarrow> job_ok sha j" for d
    by (auto simp: scan_user_dir_def user file_jobs_ok split: option.splits if_splits)
  then show "j \<in> set (scan sha os s) \<Longrightarrow> job_ok sha j"
    by (auto simp: scan_def scan_user_crontabs_def file_jobs_ok split: if_splits)
qed

end
