(* ===== verification/Process.thy ===== *)
theory Process
  imports Discovery
begin

text \<open>
  Process matching of the agent (\<open>apps/agent/internal/observer/process.go\<close>): process
  snapshots are matched against the normalised commands of known jobs. Go iterates a map in an
  order it does not specify: the job commands are a list of hash/command pairs, and the
  properties hold for every order of it. The process table is the parameter \<open>proc_table\<close>.
\<close>

section \<open>Definitions\<close>

record process_snapshot =
  ps_pid :: int
  ps_ppid :: int
  ps_cmdline :: string
  ps_create_time :: time

record matched_process =
  mp_process :: process_snapshot
  mp_job_hash :: string
  mp_confidence :: real
  mp_evidence :: string

text \<open>
  What gopsutil answers about a pid: \<open>None\<close> when the process is gone; the command line can
  fail on its own; a parent or creation time that cannot be read is 0.
\<close>

record proc_info =
  pi_cmdline :: "string option"
  pi_ppid :: int
  pi_create_ms :: int

record proc_table =
  pt_pids :: "int list option"
  pt_info :: "int \<Rightarrow> proc_info option"

text \<open>\<open>time.Unix(ms/1000, (ms mod 1000) * 1e6)\<close>, with Go's division that truncates to zero.\<close>

definition go_quot :: "int \<Rightarrow> int \<Rightarrow> int" where
  "go_quot a b = sgn a * sgn b * (\<bar>a\<bar> div \<bar>b\<bar>)"

definition go_rem :: "int \<Rightarrow> int \<Rightarrow> int" where
  "go_rem a b = a - go_quot a b * b"

definition create_time_of :: "int \<Rightarrow> time" where
  "create_time_of ms = seconds (go_quot ms 1000) + go_rem ms 1000 * 1000000"

definition snapshot_of :: "proc_table \<Rightarrow> int \<Rightarrow> process_snapshot option" where
  "snapshot_of t pid =
     (case pt_info t pid of
        None \<Rightarrow> None
      | Some i \<Rightarrow>
          (case pi_cmdline i of
             None \<Rightarrow> None
           | Some cl \<Rightarrow>
               if cl = [] then None
               else Some \<lparr>ps_pid = pid, ps_ppid = pi_ppid i, ps_cmdline = cl,
                          ps_create_time = create_time_of (pi_create_ms i)\<rparr>))"

definition scan_processes :: "proc_table \<Rightarrow> process_snapshot list option" where
  "scan_processes t =
     (case pt_pids t of None \<Rightarrow> None | Some pids \<Rightarrow> Some (List.map_filter (snapshot_of t) pids))"

text \<open>
  \<open>None\<close> stands for the panic of indexing \<open>strings.Fields(normCmd)[0]\<close> when the command
  has no field.
\<close>

definition matches_command :: "string \<Rightarrow> string \<Rightarrow> bool option" where
  "matches_command cmdline ncmd =
     (if ncmd = [] then Some False
      else (case str_fields ncmd of [] \<Rightarrow> None | exe # _ \<Rightarrow> Some (contains cmdline exe)))"

definition truncate_dots :: "string \<Rightarrow> nat \<Rightarrow> string" where
  "truncate_dots s n = (if length s \<le> n then s else take n s @ ''...'')"

text \<open>The text of the evidence uses \<open>%q\<close>, Go's quoting, which is the parameter \<open>quote\<close>.\<close>

definition match_evidence :: "(string \<Rightarrow> string) \<Rightarrow> string \<Rightarrow> string \<Rightarrow> string" where
  "match_evidence quote cmdline ncmd =
     ''process cmdline '' @ quote (truncate_dots cmdline 80) @ '' matches job command '' @ quote ncmd"

fun match_snapshot ::
  "(string \<Rightarrow> string) \<Rightarrow> process_snapshot \<Rightarrow> (string \<times> string) list \<Rightarrow> matched_process option option" where
  "match_snapshot quote snap [] = Some None"
| "match_snapshot quote snap ((h, ncmd) # jobs) =
     (case matches_command (ps_cmdline snap) ncmd of
        None \<Rightarrow> None
      | Some True \<Rightarrow>
          Some (Some \<lparr>mp_process = snap, mp_job_hash = h,
                      mp_confidence = (if ps_cmdline snap = ncmd then 0.95 else 0.75),
                      mp_evidence = match_evidence quote (ps_cmdline snap) ncmd\<rparr>)
      | Some False \<Rightarrow> match_snapshot quote snap jobs)"

text \<open>
  The order of the map is drawn anew for every snapshot: \<open>order i\<close> is the order in which the
  jobs are visited for snapshot number \<open>i\<close>.
\<close>

fun match_jobs_from ::
  "(string \<Rightarrow> string) \<Rightarrow> nat \<Rightarrow> process_snapshot list \<Rightarrow> (nat \<Rightarrow> (string \<times> string) list)
   \<Rightarrow> matched_process list option" where
  "match_jobs_from quote i [] order = Some []"
| "match_jobs_from quote i (snap # snaps) order =
     (case match_snapshot quote snap (order i) of
        None \<Rightarrow> None
      | Some m \<Rightarrow>
          (case match_jobs_from quote (Suc i) snaps order of
             None \<Rightarrow> None
           | Some ms \<Rightarrow> Some (case m of None \<Rightarrow> ms | Some x \<Rightarrow> x # ms)))"

definition match_jobs ::
  "(string \<Rightarrow> string) \<Rightarrow> process_snapshot list \<Rightarrow> (nat \<Rightarrow> (string \<times> string) list)
   \<Rightarrow> matched_process list option" where
  "match_jobs quote snaps order = match_jobs_from quote 0 snaps order"

section \<open>Lemmas\<close>

text \<open>Commands that are not blank, and the test whether some job matches a command line.\<close>

definition commands_ok :: "(string \<times> string) list \<Rightarrow> bool" where
  "commands_ok jobs \<longleftrightarrow> (\<forall>(h, ncmd) \<in> set jobs. ncmd \<noteq> [] \<longrightarrow> str_fields ncmd \<noteq> [])"

definition exe_matches :: "string \<Rightarrow> string \<times> string \<Rightarrow> bool" where
  "exe_matches cmdline job \<longleftrightarrow>
     snd job \<noteq> [] \<and> (\<exists>exe rest. str_fields (snd job) = exe # rest \<and> contains cmdline exe)"

lemma matches_command_exe:
  "ncmd = [] \<or> str_fields ncmd \<noteq> [] \<Longrightarrow> matches_command cmdline ncmd = Some (exe_matches cmdline (h, ncmd))"
  by (auto simp: matches_command_def exe_matches_def split: list.split)

text \<open>What a match says: the job it names has its executable in the command line, and the
  confidence is 0.95 for an exact command and 0.75 otherwise.\<close>

definition match_ok :: "(string \<times> string) set \<Rightarrow> matched_process \<Rightarrow> bool" where
  "match_ok J m \<longleftrightarrow> (\<exists>ncmd. (mp_job_hash m, ncmd) \<in> J
     \<and> exe_matches (ps_cmdline (mp_process m)) (mp_job_hash m, ncmd)
     \<and> mp_confidence m = (if ps_cmdline (mp_process m) = ncmd then 0.95 else 0.75))"

lemma match_ok_mono: "match_ok J m \<Longrightarrow> J \<subseteq> J' \<Longrightarrow> match_ok J' m"
  unfolding match_ok_def by blast

lemma match_snapshot_total:
  assumes "commands_ok jobs"
  shows "\<exists>r. match_snapshot quote snap jobs = Some r
    \<and> (r = None \<longrightarrow> (\<forall>j \<in> set jobs. \<not> exe_matches (ps_cmdline snap) j))
    \<and> (\<forall>m. r = Some m \<longrightarrow> mp_process m = snap \<and> match_ok (set jobs) m)"
  using assms
proof (induction jobs)
  case (Cons j jobs)
  obtain h ncmd where j: "j = (h, ncmd)" by (cases j)
  have c: "matches_command (ps_cmdline snap) ncmd = Some (exe_matches (ps_cmdline snap) (h, ncmd))"
    using Cons.prems by (intro matches_command_exe) (auto simp: commands_ok_def j)
  have "commands_ok jobs" using Cons.prems by (simp add: commands_ok_def)
  then obtain r where r: "match_snapshot quote snap jobs = Some r"
    "r = None \<longrightarrow> (\<forall>j \<in> set jobs. \<not> exe_matches (ps_cmdline snap) j)"
    "\<forall>m. r = Some m \<longrightarrow> mp_process m = snap \<and> match_ok (set jobs) m"
    using Cons.IH by blast
  show ?case
  proof (cases "exe_matches (ps_cmdline snap) (h, ncmd)")
    case True
    then have "match_ok (set (j # jobs))
        \<lparr>mp_process = snap, mp_job_hash = h, mp_confidence = (if ps_cmdline snap = ncmd then 0.95 else 0.75),
         mp_evidence = match_evidence quote (ps_cmdline snap) ncmd\<rparr>"
      unfolding match_ok_def j by (intro exI [of _ ncmd]) simp
    then show ?thesis using c True by (simp add: j)
  next
    case False
    then show ?thesis using c r
      by (auto simp: j intro: match_ok_mono)
  qed
qed simp

lemma match_jobs_from_total:
  assumes "\<forall>k. commands_ok (order k) \<and> set (order k) = J"
  shows "\<exists>ms. match_jobs_from quote i snaps order = Some ms
    \<and> map mp_process ms = filter (\<lambda>s. \<exists>j \<in> J. exe_matches (ps_cmdline s) j) snaps
    \<and> (\<forall>m \<in> set ms. match_ok J m)"
proof (induction snaps arbitrary: i)
  case (Cons s snaps)
  have "commands_ok (order i)" "set (order i) = J" using assms by simp_all
  then obtain r where r: "match_snapshot quote s (order i) = Some r"
    "r = None \<longrightarrow> (\<forall>j \<in> J. \<not> exe_matches (ps_cmdline s) j)"
    "\<forall>m. r = Some m \<longrightarrow> mp_process m = s \<and> match_ok J m"
    using match_snapshot_total [of "order i" quote s] by blast
  obtain ms where ms: "match_jobs_from quote (Suc i) snaps order = Some ms"
    "map mp_process ms = filter (\<lambda>s. \<exists>j \<in> J. exe_matches (ps_cmdline s) j) snaps"
    "\<forall>m \<in> set ms. match_ok J m"
    using Cons [of "Suc i"] by blast
  show ?case
  proof (cases r)
    case None
    then show ?thesis using r ms by simp
  next
    case (Some m)
    then have "mp_process m = s" "match_ok J m" using r(3) by simp_all
    then have "\<exists>j \<in> J. exe_matches (ps_cmdline s) j" by (auto simp: match_ok_def)
    then show ?thesis using Some r(1) ms \<open>mp_process m = s\<close> \<open>match_ok J m\<close> by simp
  qed
qed simp

text \<open>Matching never panics on the commands discovery produces, whatever order the map of jobs
  is visited in: the processes it reports are exactly those whose command line contains the
  executable of some job, each once and in snapshot order.\<close>

theorem match_jobs_processes:
  assumes "\<forall>k. set (order k) = J" and "\<forall>(h, ncmd) \<in> J. \<exists>c. ncmd = normalize_command c"
  shows "\<exists>ms. match_jobs quote snaps order = Some ms
    \<and> map mp_process ms = filter (\<lambda>s. \<exists>j \<in> J. exe_matches (ps_cmdline s) j) snaps"
proof -
  have "\<forall>k. commands_ok (order k) \<and> set (order k) = J"
    using assms normalize_command_words by (fastforce simp: commands_ok_def)
  from match_jobs_from_total [OF this] show ?thesis unfolding match_jobs_def by blast
qed

theorem match_jobs_processes_witness:
  "\<exists>ms. match_jobs (\<lambda>s. s) [\<lparr>ps_pid = 7, ps_ppid = 1, ps_cmdline = ''/opt/b.sh --full'', ps_create_time = 0\<rparr>]
      (\<lambda>k. [(''h'', normalize_command ''/opt/b.sh  --full'')]) = Some ms
    \<and> map mp_process ms = filter (\<lambda>s. \<exists>j \<in> {(''h'', normalize_command ''/opt/b.sh  --full'')}.
        exe_matches (ps_cmdline s) j)
        [\<lparr>ps_pid = 7, ps_ppid = 1, ps_cmdline = ''/opt/b.sh --full'', ps_create_time = 0\<rparr>]"
  by (rule match_jobs_processes) auto

text \<open>The confidence of a match is 0.95 when the command line is the whole normalised command of
  the job named in the match and 0.75 otherwise; the job named has its executable in the line.\<close>

theorem match_jobs_confidence:
  assumes "match_jobs quote snaps order = Some ms" and "m \<in> set ms"
    and "\<forall>k. commands_ok (order k) \<and> set (order k) = J"
  shows "mp_process m \<in> set snaps \<and> (\<exists>ncmd. (mp_job_hash m, ncmd) \<in> J
      \<and> exe_matches (ps_cmdline (mp_process m)) (mp_job_hash m, ncmd)
      \<and> mp_confidence m = (if ps_cmdline (mp_process m) = ncmd then 0.95 else 0.75))"
proof -
  obtain ms' where ms': "match_jobs quote snaps order = Some ms'"
    "map mp_process ms' = filter (\<lambda>s. \<exists>j \<in> J. exe_matches (ps_cmdline s) j) snaps"
    "\<forall>m \<in> set ms'. match_ok J m"
    using match_jobs_from_total [OF assms(3)] unfolding match_jobs_def by blast
  then have "m \<in> set ms'" using assms(1,2) by simp
  then have "mp_process m \<in> set (map mp_process ms')" by simp
  then have "mp_process m \<in> set snaps" unfolding ms'(2) by simp
  moreover have "match_ok J m" using ms'(3) \<open>m \<in> set ms'\<close> by blast
  ultimately show ?thesis by (simp add: match_ok_def)
qed

theorem match_jobs_confidence_witness:
  "mp_process \<lparr>mp_process = \<lparr>ps_pid = 7, ps_ppid = 1, ps_cmdline = ''/opt/b.sh --full'', ps_create_time = 0\<rparr>,
      mp_job_hash = ''h'', mp_confidence = 0.75,
      mp_evidence = ''process cmdline /opt/b.sh --full matches job command /opt/b.sh''\<rparr>
     \<in> set [\<lparr>ps_pid = 7, ps_ppid = 1, ps_cmdline = ''/opt/b.sh --full'', ps_create_time = 0\<rparr>]"
proof -
  let ?s = "\<lparr>ps_pid = 7, ps_ppid = 1, ps_cmdline = ''/opt/b.sh --full'', ps_create_time = 0\<rparr>"
  let ?m = "\<lparr>mp_process = ?s, mp_job_hash = ''h'', mp_confidence = 0.75,
      mp_evidence = ''process cmdline /opt/b.sh --full matches job command /opt/b.sh''\<rparr>"
  have "match_jobs (\<lambda>s. s) [?s] (\<lambda>k. [(''h'', ''/opt/b.sh'')]) = Some [?m]" by code_simp
  moreover have "commands_ok [(''h'', ''/opt/b.sh'')]"
    by (simp add: commands_ok_def str_fields_def is_space_def)
  ultimately show ?thesis
    using match_jobs_confidence [of "\<lambda>s. s" "[?s]" "\<lambda>k. [(''h'', ''/opt/b.sh'')]" "[?m]" ?m
        "{(''h'', ''/opt/b.sh'')}"] by simp
qed

text \<open>Matching looks at the executable alone: a process that runs the same interpreter on any other
  script matches the job, whatever the arguments of either are.\<close>

theorem same_interpreter_matches:
  assumes "word_ok exe"
  shows "matches_command (exe @ '' '' @ other) (exe @ '' '' @ script) = Some True"
proof -
  have "str_fields (exe @ '' '' @ script) = exe # str_fields script"
    using str_fields_word_space [OF assms, of "CHR '' ''" script] by simp
  moreover have "contains (exe @ '' '' @ other) exe"
    unfolding contains_iff by (metis append_Nil)
  ultimately show ?thesis by (simp add: matches_command_def)
qed

theorem same_interpreter_matches_witness:
  "matches_command (''/usr/bin/python3'' @ '' '' @ ''/home/u/game.py'')
     (''/usr/bin/python3'' @ '' '' @ ''/opt/app/collect.py'') = Some True"
  by (rule same_interpreter_matches) (simp add: word_ok_def is_space_def)

end
