(* ===== verification/MailSpool.thy ===== *)
theory MailSpool
  imports Prelude
begin

text \<open>
  The mail-spool reader of the agent (\<open>apps/agent/internal/observer/mailspool.go\<close>): reading
  a mailbox from a stored offset, cutting it into messages at the \<open>From \<close> lines and reading
  the cron subject and body of each. The MD5 digest, \<open>time.Parse\<close> and the clock are the
  parameters of \<open>mail_env\<close>; a mailbox file is what its status and its bytes say.
\<close>

section \<open>Definitions\<close>

record cron_mail =
  cm_envelope_date :: time
  cm_subject :: string
  cm_command :: string
  cm_mail_user :: string
  cm_body :: string
  cm_message_hash :: string

record mail_env =
  me_md5_hex :: "string \<Rightarrow> string"
  me_parse_time :: "string \<Rightarrow> string \<Rightarrow> time option"
  me_now :: time

definition newline :: char where
  "newline = CHR 0x0A"

definition is_mbox_from_line :: "string \<Rightarrow> bool" where
  "is_mbox_from_line line \<longleftrightarrow> has_prefix ''From '' line \<and> 3 \<le> length (str_fields line)"

definition parse_cron_subject :: "string \<Rightarrow> (string \<times> string) option" where
  "parse_cron_subject subject =
     (if \<not> has_prefix ''CRON '' (to_upper subject) then None
      else let rest = trim_space (drop 5 subject)
           in if \<not> has_prefix ''<'' rest then None
              else (case index_of ''>'' rest of
                      None \<Rightarrow> None
                    | Some e \<Rightarrow>
                        let mail_user = take (e - 1) (drop 1 rest);
                            command = trim_space (drop (e + 1) rest)
                        in if command = [] then None else Some (command, mail_user)))"

definition envelope_date_formats :: "string list" where
  "envelope_date_formats =
     [''Mon Jan _2 15:04:05 2006'', ''Mon Jan  2 15:04:05 2006'', ''Mon Jan 02 15:04:05 2006'',
      ''Mon Jan _2 15:04:05 MST 2006'', ''Mon Jan  2 15:04:05 MST 2006'', ''Mon Jan 02 15:04:05 MST 2006'']"

fun first_parse :: "mail_env \<Rightarrow> string list \<Rightarrow> string \<Rightarrow> time" where
  "first_parse E [] s = me_now E"
| "first_parse E (f # fs) s = (case me_parse_time E f s of Some t \<Rightarrow> t | None \<Rightarrow> first_parse E fs s)"

definition parse_envelope_date :: "mail_env \<Rightarrow> string \<Rightarrow> time" where
  "parse_envelope_date E from_line =
     (let fs = str_fields from_line
      in if length fs < 6 then me_now E
         else first_parse E envelope_date_formats (join '' '' (drop 2 fs)))"

text \<open>The header lines up to the first empty line, and the lines after it.\<close>

fun header_loop :: "string list \<Rightarrow> (string \<rightharpoonup> string) \<Rightarrow> (string \<rightharpoonup> string) \<times> string list" where
  "header_loop [] h = (h, [])"
| "header_loop ([] # ls) h = (h, ls)"
| "header_loop ((c # cs) # ls) h =
     (if c = CHR '' '' \<or> c = CHR 0x09 then header_loop ls h
      else (case index_of '':'' (c # cs) of
              Some (Suc i) \<Rightarrow>
                header_loop ls
                  (h(to_lower (trim_space (take (Suc i) (c # cs))) \<mapsto> trim_space (drop (Suc i + 1) (c # cs))))
            | _ \<Rightarrow> header_loop ls h))"

definition drop_trailing_blank :: "string list \<Rightarrow> string list" where
  "drop_trailing_blank ls = rev (dropWhile (\<lambda>l. trim_space l = []) (rev ls))"

definition unescape_from :: "string \<Rightarrow> string" where
  "unescape_from bl = (if has_prefix ''>From '' bl then drop 1 bl else bl)"

definition build_message :: "mail_env \<Rightarrow> string list \<Rightarrow> cron_mail option" where
  "build_message E lines =
     (case lines of
        [] \<Rightarrow> None
      | l0 # rest \<Rightarrow>
          let envelope_date = parse_envelope_date E l0;
              (headers, body_lines) = header_loop rest Map.empty;
              subject = (case headers ''subject'' of None \<Rightarrow> [] | Some s \<Rightarrow> s)
          in if subject = [] then None
             else (case parse_cron_subject subject of
                     None \<Rightarrow> None
                   | Some (command, mail_user) \<Rightarrow>
                       Some \<lparr>cm_envelope_date = envelope_date, cm_subject = subject,
                             cm_command = command, cm_mail_user = mail_user,
                             cm_body = join [newline] (map unescape_from (drop_trailing_blank body_lines)),
                             cm_message_hash = me_md5_hex E (l0 @ subject)\<rparr>))"

definition emit_message :: "mail_env \<Rightarrow> bool \<Rightarrow> string list \<Rightarrow> cron_mail list" where
  "emit_message E in_message current =
     (if in_message \<and> current \<noteq> []
      then (case build_message E current of None \<Rightarrow> [] | Some m \<Rightarrow> [m]) else [])"

fun mbox_loop :: "mail_env \<Rightarrow> bool \<Rightarrow> string list \<Rightarrow> string list \<Rightarrow> cron_mail list" where
  "mbox_loop E in_message current [] = emit_message E in_message current"
| "mbox_loop E in_message current (line # lines) =
     (if is_mbox_from_line line then emit_message E in_message current @ mbox_loop E True [line] lines
      else if in_message then mbox_loop E True (current @ [line]) lines
      else mbox_loop E False current lines)"

definition parse_mbox :: "mail_env \<Rightarrow> string \<Rightarrow> cron_mail list" where
  "parse_mbox E data = mbox_loop E False [] (split_on newline data)"

text \<open>
  A spool is its size at \<open>Stat\<close> and its bytes when they are read. The result is the
  messages, the offset to store and whether the call failed.
\<close>

datatype mail_file = Missing | Unreadable | Spool nat string

definition read_new :: "mail_env \<Rightarrow> mail_file \<Rightarrow> int \<Rightarrow> cron_mail list \<times> int \<times> bool" where
  "read_new E f from_offset =
     (case f of
        Missing \<Rightarrow> ([], 0, False)
      | Unreadable \<Rightarrow> ([], from_offset, True)
      | Spool sz content \<Rightarrow>
          if sz = 0 then ([], 0, False)
          else let off = (if int sz < from_offset then 0 else from_offset)
               in if off = int sz then ([], off, False)
                  else if off < 0 then ([], off, True)
                  else let data = take (sz - nat off) (drop (nat off) content)
                       in if data = [] then ([], off, True)
                          else (parse_mbox E data, off + int (length data), False))"

section \<open>Lemmas\<close>

lemma not_from_line_Nil [simp]: "\<not> is_mbox_from_line []"
  by (simp add: is_mbox_from_line_def)

lemma mbox_loop_no_from:
  "\<forall>l \<in> set ls. \<not> is_mbox_from_line l \<Longrightarrow> mbox_loop E b cur (ls @ rest)
     = mbox_loop E b (if b then cur @ ls else cur) rest"
  by (induction ls arbitrary: cur) auto

text \<open>An empty line after the lines of a message changes nothing: it is the end of the headers
  of a message without a body, or a trailing blank line of the body.\<close>

lemma header_loop_blank: "fst (header_loop (ls @ [[]]) h) = fst (header_loop ls h)"
  "drop_trailing_blank (snd (header_loop (ls @ [[]]) h)) = drop_trailing_blank (snd (header_loop ls h))"
  by (induction ls h rule: header_loop.induct)
    (auto simp: drop_trailing_blank_def trim_space_def trim_func_def trim_right_def split: option.splits nat.splits)

lemma build_message_blank: "ls \<noteq> [] \<Longrightarrow> build_message E (ls @ [[]]) = build_message E ls"
proof (cases ls)
  case (Cons a list)
  show ?thesis
    unfolding Cons append_Cons build_message_def list.case case_prod_unfold Let_def header_loop_blank
    by (rule refl)
qed simp

lemma emit_message_blank: "cur \<noteq> [] \<Longrightarrow> emit_message E b (cur @ [[]]) = emit_message E b cur"
  by (simp add: emit_message_def build_message_blank)

lemma emit_message_False [simp]: "emit_message E False cur = []"
  by (simp add: emit_message_def)

lemma mbox_loop_append_from:
  assumes "is_mbox_from_line l" and "b \<longrightarrow> cur \<noteq> []"
  shows "mbox_loop E b cur (ls @ l # rest) = mbox_loop E b cur (ls @ [[]]) @ mbox_loop E False [] (l # rest)"
  using assms(2)
proof (induction ls arbitrary: b cur)
  case Nil
  then show ?case using assms(1)
    by (cases b) (simp_all add: emit_message_blank)
next
  case (Cons x xs)
  then show ?case by simp
qed

text \<open>Reading a spool in pieces loses nothing when the cut is between messages: parsing what was
  there and then what was appended gives the messages of the whole mailbox.\<close>

theorem parse_mbox_incremental:
  assumes "is_mbox_from_line (hd (split_on newline b))"
  shows "parse_mbox E (a @ newline # b) = parse_mbox E (a @ [newline]) @ parse_mbox E b"
proof -
  obtain l rest where b: "split_on newline b = l # rest" by (cases "split_on newline b") auto
  then show ?thesis using assms mbox_loop_append_from [of l False "[]" E "split_on newline a" rest]
    using split_on_append_sep [of newline a "[]"]
    by (simp add: parse_mbox_def split_on_append_sep)
qed

theorem parse_mbox_incremental_witness:
  "parse_mbox \<lparr>me_md5_hex = (\<lambda>s. s), me_parse_time = (\<lambda>f s. None), me_now = 0\<rparr>
      (''From a b'' @ newline # ''From c d e'')
    = parse_mbox \<lparr>me_md5_hex = (\<lambda>s. s), me_parse_time = (\<lambda>f s. None), me_now = 0\<rparr> (''From a b'' @ [newline])
      @ parse_mbox \<lparr>me_md5_hex = (\<lambda>s. s), me_parse_time = (\<lambda>f s. None), me_now = 0\<rparr> ''From c d e''"
  by (rule parse_mbox_incremental) code_simp



text \<open>A message that is still being written when the spool is read is cut for good: the bytes
  appended to it later contain no \<open>From \<close> line, so the next read returns no message and moves
  the offset past them.\<close>

theorem split_message_lost:
  assumes "b \<noteq> []" and "\<forall>l \<in> set (split_on newline b). \<not> is_mbox_from_line l"
  shows "read_new E (Spool (length (a @ b)) (a @ b)) (int (length a)) = ([], int (length (a @ b)), False)"
proof -
  have "parse_mbox E b = []"
    using mbox_loop_no_from [OF assms(2), of E False "[]" "[]"]
    by (simp add: parse_mbox_def emit_message_def)
  then show ?thesis using assms(1) by (simp add: read_new_def Let_def)
qed

theorem split_message_lost_witness:
  "read_new \<lparr>me_md5_hex = (\<lambda>s. s), me_parse_time = (\<lambda>f s. None), me_now = 0\<rparr>
     (Spool (length (''From a b'' @ ''second half'')) (''From a b'' @ ''second half'')) (int (length ''From a b''))
   = ([], int (length (''From a b'' @ ''second half'')), False)"
  by (rule split_message_lost) (simp, code_simp)

section \<open>Round trip\<close>

text \<open>
  A cron mail as a mailbox holds it: the \<open>From \<close> line, the subject, the body with its
  \<open>From \<close> lines quoted, and an empty line.
\<close>

type_synonym mail_text = "string \<times> string \<times> string \<times> string list"

definition escape_from :: "string \<Rightarrow> string" where
  "escape_from l = (if has_prefix ''From '' l then CHR ''>'' # l else l)"

definition mail_subject :: "string \<Rightarrow> string \<Rightarrow> string" where
  "mail_subject user cmd = ''Cron <'' @ user @ ''> '' @ cmd"

definition mail_lines :: "mail_text \<Rightarrow> string list" where
  "mail_lines m = (case m of (f, user, cmd, body) \<Rightarrow>
     [f, ''Subject: '' @ mail_subject user cmd, []] @ map escape_from body @ [[]])"

definition render_mbox :: "mail_text list \<Rightarrow> string" where
  "render_mbox ms = concat (map (\<lambda>l. l @ [newline]) (concat (map mail_lines ms)))"

definition mail_ok :: "mail_text \<Rightarrow> bool" where
  "mail_ok m \<longleftrightarrow> (case m of (f, user, cmd, body) \<Rightarrow>
     is_mbox_from_line f \<and> newline \<notin> set f \<and>
     CHR ''>'' \<notin> set user \<and> newline \<notin> set user \<and>
     cmd \<noteq> [] \<and> trimmed cmd \<and> newline \<notin> set cmd \<and>
     (\<forall>l \<in> set body. newline \<notin> set l \<and> \<not> has_prefix ''>From '' l) \<and>
     (body \<noteq> [] \<longrightarrow> trim_space (last body) \<noteq> []))"

definition mail_message :: "mail_env \<Rightarrow> mail_text \<Rightarrow> cron_mail" where
  "mail_message E m = (case m of (f, user, cmd, body) \<Rightarrow>
     \<lparr>cm_envelope_date = parse_envelope_date E f, cm_subject = mail_subject user cmd,
      cm_command = cmd, cm_mail_user = user, cm_body = join [newline] body,
      cm_message_hash = me_md5_hex E (f @ mail_subject user cmd)\<rparr>)"

lemma unescape_escape: "\<not> has_prefix ''>From '' l \<Longrightarrow> unescape_from (escape_from l) = l"
  by (auto simp: unescape_from_def escape_from_def)

lemma escape_not_from: "\<not> is_mbox_from_line (escape_from l)"
  by (auto simp: is_mbox_from_line_def escape_from_def)

lemma trimmed_mail_subject: "cmd \<noteq> [] \<Longrightarrow> trimmed cmd \<Longrightarrow> trimmed (mail_subject user cmd)"
  by (simp add: trimmed_def mail_subject_def is_space_def)

lemma parse_cron_subject_mail:
  assumes "CHR ''>'' \<notin> set user" and "cmd \<noteq> []" and "trimmed cmd"
  shows "parse_cron_subject (mail_subject user cmd) = Some (cmd, user)"
proof -
  let ?r = "(CHR ''<'' # user) @ CHR ''>'' # CHR '' '' # cmd"
  have "to_upper ''Cron '' = ''CRON ''" by code_simp
  then have up: "has_prefix ''CRON '' (to_upper (''Cron '' @ s))" for s
    using has_prefix_append [of "''CRON ''"] unfolding to_upper_def map_append by simp
  have "trim_space ?r = ?r"
    using assms by (intro trim_space_id) (simp add: trimmed_def is_space_def)
  moreover have "index_of ''>'' ?r = Some (Suc (length user))"
    using index_of_char [of "CHR ''>''" "CHR ''<'' # user"] assms(1) by simp
  moreover have "trim_space (CHR '' '' # cmd) = cmd"
    using assms(3) by (simp add: trim_space_blank trim_space_id)
  ultimately show ?thesis
    using up [of "?r"] assms(2) by (simp add: parse_cron_subject_def mail_subject_def Let_def)
qed

lemma header_loop_mail:
  assumes "cmd \<noteq> []" and "trimmed cmd"
  shows "header_loop ((''Subject: '' @ mail_subject user cmd) # [] # ls) Map.empty
     = ([''subject'' \<mapsto> mail_subject user cmd], ls)"
proof -
  have "to_lower (trim_space ''Subject'') = ''subject''" by code_simp
  moreover have "trim_space (CHR '' '' # mail_subject user cmd) = mail_subject user cmd"
    using trimmed_mail_subject [OF assms] by (simp add: trim_space_blank trim_space_id)
  ultimately show ?thesis by simp
qed

lemma drop_trailing_blank_last:
  "ls = [] \<or> trim_space (last ls) \<noteq> [] \<Longrightarrow> drop_trailing_blank (ls @ [[]]) = ls"
  by (cases ls rule: rev_cases) (auto simp: drop_trailing_blank_def trim_space_def trim_func_def trim_right_def)

lemma trim_space_eq_Nil: "trim_space s = [] \<longleftrightarrow> (\<forall>c \<in> set s. is_space c)"
proof
  assume "trim_space s = []"
  then have "str_fields s = []" by (metis str_fields_trim_space str_fields_Nil)
  then show "\<forall>c \<in> set s. is_space c" by (simp add: str_fields_eq_Nil)
next
  assume "\<forall>c \<in> set s. is_space c"
  then have "dropWhile is_space s = []" by simp
  then show "trim_space s = []" by (simp only: trim_space_def trim_func_def trim_right_def) simp
qed

lemma escape_from_blank: "trim_space (escape_from l) = [] \<longleftrightarrow> trim_space l = []"
proof (cases "has_prefix ''From '' l")
  case True
  then have "CHR ''F'' \<in> set l" unfolding has_prefix_iff by (elim exE) simp
  moreover have "\<not> is_space (CHR ''F'')" by (simp add: is_space_def)
  ultimately show ?thesis using True by (auto simp: escape_from_def trim_space_eq_Nil)
qed (simp add: escape_from_def)

lemma drop_trailing_blank_escaped:
  assumes "body \<noteq> [] \<longrightarrow> trim_space (last body) \<noteq> []"
  shows "drop_trailing_blank (map escape_from body @ [[]]) = map escape_from body"
proof (rule drop_trailing_blank_last, cases "body = []")
  case False
  then have "trim_space (last (map escape_from body)) \<noteq> []"
    using assms by (simp add: last_map escape_from_blank)
  then show "map escape_from body = [] \<or> trim_space (last (map escape_from body)) \<noteq> []" by blast
qed simp

lemma build_message_mail:
  assumes "mail_ok m"
  shows "build_message E (mail_lines m) = Some (mail_message E m)"
proof -
  obtain f user cmd body where m: "m = (f, user, cmd, body)" by (cases m)
  have ok: "CHR ''>'' \<notin> set user" "cmd \<noteq> []" "trimmed cmd" "\<forall>l \<in> set body. \<not> has_prefix ''>From '' l"
    "body \<noteq> [] \<longrightarrow> trim_space (last body) \<noteq> []"
    using assms unfolding m mail_ok_def prod.case by blast+
  have body: "map unescape_from (drop_trailing_blank (map escape_from body @ [[]])) = body"
    unfolding drop_trailing_blank_escaped [OF ok(5)] map_map
    using ok(4) by (intro map_idI) (metis o_apply unescape_escape)
  have lines: "mail_lines m = f # (''Subject: '' @ mail_subject user cmd) # [] # (map escape_from body @ [[]])"
    by (simp add: m mail_lines_def)
  have "mail_subject user cmd \<noteq> []" by (simp add: mail_subject_def)
  then show ?thesis
    unfolding lines build_message_def list.case header_loop_mail [OF ok(2,3)] Let_def prod.case
      fun_upd_same option.case parse_cron_subject_mail [OF ok(1-3)] body
    by (simp only: if_False mail_message_def m prod.case)
qed

lemma mbox_loop_mails:
  assumes "\<forall>m \<in> set ms. mail_ok m" and "b \<longrightarrow> cur \<noteq> []"
  shows "mbox_loop E b cur (concat (map mail_lines ms) @ [[]])
     = emit_message E b cur @ map (mail_message E) ms"
  using assms
proof (induction ms arbitrary: b cur)
  case Nil
  then show ?case by (cases b) (simp_all add: emit_message_blank)
next
  case (Cons m ms)
  obtain f user cmd body where m: "m = (f, user, cmd, body)" by (cases m)
  define ls where "ls = tl (mail_lines m)"
  have f: "mail_lines m = f # ls" "is_mbox_from_line f"
    using Cons.prems by (simp_all add: ls_def m mail_lines_def mail_ok_def)
  have "\<not> is_mbox_from_line (''Subject: '' @ s)" for s by (simp add: is_mbox_from_line_def)
  then have nf: "\<forall>l \<in> set ls. \<not> is_mbox_from_line l"
    using escape_not_from by (auto simp: ls_def m mail_lines_def)
  have "mbox_loop E b cur (concat (map mail_lines (m # ms)) @ [[]])
      = emit_message E b cur @ mbox_loop E True (mail_lines m) (concat (map mail_lines ms) @ [[]])"
    using f mbox_loop_no_from [OF nf, of E True "[f]"] by simp
  also have "mbox_loop E True (mail_lines m) (concat (map mail_lines ms) @ [[]])
      = emit_message E True (mail_lines m) @ map (mail_message E) ms"
    using Cons by (intro Cons.IH) (simp_all add: f)
  also have "emit_message E True (mail_lines m) = [mail_message E m]"
    using Cons.prems by (simp add: emit_message_def f(1)) (simp add: f(1) [symmetric] build_message_mail)
  finally show ?case by simp
qed

text \<open>C27. Round trip: a mailbox written from cron mails, with the \<open>From \<close> lines of their bodies
  quoted, parses back to exactly those mails in order: command, user, body and envelope date.\<close>

theorem mbox_roundtrip:
  assumes "\<forall>m \<in> set ms. mail_ok m"
  shows "parse_mbox E (render_mbox ms) = map (mail_message E) ms"
proof -
  have "\<forall>l \<in> set (concat (map mail_lines ms)). newline \<notin> set l"
    using assms by (fastforce simp: mail_lines_def mail_ok_def mail_subject_def escape_from_def newline_def)
  then have "split_on newline (render_mbox ms) = concat (map mail_lines ms) @ [[]]"
    unfolding render_mbox_def by (rule split_on_lines)
  then show ?thesis using mbox_loop_mails [OF assms, of False "[]" E] by (simp add: parse_mbox_def)
qed

theorem mbox_roundtrip_witness:
  "parse_mbox \<lparr>me_md5_hex = (\<lambda>s. s), me_parse_time = (\<lambda>f s. None), me_now = 0\<rparr>
     (render_mbox [(''From root Mon'', ''root@h'', ''/opt/b.sh'', [''done'', ''From here on''])])
   = [mail_message \<lparr>me_md5_hex = (\<lambda>s. s), me_parse_time = (\<lambda>f s. None), me_now = 0\<rparr>
       (''From root Mon'', ''root@h'', ''/opt/b.sh'', [''done'', ''From here on''])]"
proof -
  have "mail_ok (''From root Mon'', ''root@h'', ''/opt/b.sh'', [''done'', ''From here on''])"
    by code_simp
  then show ?thesis
    using mbox_roundtrip [of "[(''From root Mon'', ''root@h'', ''/opt/b.sh'', [''done'', ''From here on''])]"
      "\<lparr>me_md5_hex = (\<lambda>s. s), me_parse_time = (\<lambda>f s. None), me_now = 0\<rparr>"] by simp
qed

end
