(* ===== verification/Journal.thy ===== *)
theory Journal
  imports Discovery
begin

text \<open>
  The journal observer of the agent (\<open>apps/agent/internal/observer/journal.go\<close>). The output of
  \<open>journalctl\<close> (\<open>None\<close> when it fails) and \<open>time.Parse\<close> are parameters.
\<close>

section \<open>Definitions\<close>

record journal_event =
  je_timestamp :: time
  je_unit :: string
  je_message :: string
  je_raw_line :: string

definition parse_journal_line :: "(string \<Rightarrow> time option) \<Rightarrow> string \<Rightarrow> journal_event option" where
  "parse_journal_line parse_time line =
     (let parts = splitn 4 (CHR '' '') line
      in if length parts < 4 then None
         else if \<not> contains (parts ! 3) ''CMD'' \<and> \<not> contains (parts ! 3) ''CRON'' then None
         else (case parse_time (parts ! 0) of
                 None \<Rightarrow> None
               | Some ts \<Rightarrow> Some \<lparr>je_timestamp = ts, je_unit = ''cron'', je_message = parts ! 3, je_raw_line = line\<rparr>))"

text \<open>The events and whether the scanner failed.\<close>

definition read_from_journalctl ::
  "(string \<Rightarrow> time option) \<Rightarrow> string option \<Rightarrow> (journal_event list \<times> bool) option" where
  "read_from_journalctl parse_time out =
     (case out of
        None \<Rightarrow> None
      | Some text \<Rightarrow>
          (case scan_lines text of (lines, too_long) \<Rightarrow>
             Some (List.map_filter (parse_journal_line parse_time) lines, too_long)))"

definition read_cron_events :: "(string \<Rightarrow> time option) \<Rightarrow> string option \<Rightarrow> journal_event list" where
  "read_cron_events parse_time out =
     (case read_from_journalctl parse_time out of
        Some (events, False) \<Rightarrow> events
      | _ \<Rightarrow> [])"

section \<open>Lemmas\<close>

lemma split2_SomeD: "split2 sep s = Some (a, b) \<Longrightarrow> s = a @ sep # b"
proof (induction s arbitrary: a)
  case (Cons c s)
  then show ?case by (cases "c = sep") (auto simp: split2_def split: if_splits)
qed (simp add: split2_def)

lemma splitn_not_Nil: "splitn (Suc n) sep s \<noteq> []"
  by (cases n) (simp_all split: option.splits prod.splits)

lemma splitn_join: "join [sep] (splitn (Suc n) sep s) = s"
proof (induction n arbitrary: s)
  case (Suc n)
  show ?case
  proof (cases "split2 sep s")
    case (Some ab)
    obtain a b where ab: "ab = (a, b)" by (cases ab)
    have "join [sep] (splitn (Suc (Suc n)) sep s) = a @ [sep] @ join [sep] (splitn (Suc n) sep b)"
      using splitn_not_Nil [of n sep b] by (simp add: Some ab join_Cons)
    then show ?thesis using split2_SomeD [of sep s a b] Some ab Suc.IH [of b] by simp
  qed simp
qed simp

lemma length_splitn: "length (splitn n sep s) \<le> n"
  by (induction n sep s rule: splitn.induct) (auto split: option.splits)

text \<open>An event carries its line, cut at the first three blanks.\<close>

lemma parse_journal_line_SomeD:
  assumes "parse_journal_line pt line = Some ev"
  obtains a b c where "line = a @ '' '' @ b @ '' '' @ c @ '' '' @ je_message ev"
    and "pt a = Some (je_timestamp ev)" and "je_raw_line ev = line"
proof -
  let ?parts = "splitn 4 (CHR '' '') line"
  have len: "\<not> length ?parts < 4" and ev: "pt (?parts ! 0) = Some (je_timestamp ev)"
    "je_message ev = ?parts ! 3" "je_raw_line ev = line"
    using assms by (auto simp: parse_journal_line_def Let_def split: if_splits option.splits)
  moreover have "length ?parts = 4" using len length_splitn [of 4 "CHR '' ''" line] by simp
  then obtain a b c d where parts: "?parts = [a, b, c, d]"
    by (auto simp: length_Suc_conv eval_nat_numeral)
  moreover have "join '' '' ?parts = line"
    using splitn_join [of "CHR '' ''" 3 line] by (simp add: eval_nat_numeral)
  ultimately show thesis using that [of a b c] by simp
qed

end
