(* ===== verification/AgentConfig.thy ===== *)
theory AgentConfig
  imports Prelude
begin

text \<open>
  The agent configuration (\<open>apps/agent/internal/config/config.go\<close>): its types, loading and
  validation. YAML decoding and what a path opens as are parameters.
\<close>

section \<open>Definitions\<close>

record sql_probe =
  sq_dsn :: string
  sq_query :: string

record file_probe =
  fp_path :: string
  fp_max_age_seconds :: int

record command_probe =
  cp_command :: string
  cp_args :: "string list"

record probe_config =
  pc_name :: string
  pc_type :: string
  pc_schedule :: string
  pc_sql :: "sql_probe option"
  pc_file :: "file_probe option"
  pc_command :: "command_probe option"

record server_config =
  sc_url :: string
  sc_token :: string
  sc_token_file :: string

record agent_config =
  ac_machine_id :: string
  ac_hostname :: string
  ac_environment :: string
  ac_tags :: "string list"
  ac_version :: string
  ac_state_file :: string
  ac_heartbeat_interval :: string
  ac_discovery_interval :: string
  ac_process_scan_interval :: string
  ac_report_interval :: string
  ac_command_poll_interval :: string
  ac_mail_scan_interval :: string
  ac_mail_spool_paths :: "string list"

record config =
  cfg_server :: server_config
  cfg_agent :: agent_config
  cfg_probes :: "probe_config list"

datatype open_result = No_Such_File | Open_Failed | Opened string

datatype config_error =
    Open_Config open_result | Parse_Config
  | Open_Credential open_result | Parse_Credential | Missing_Token
  | No_Url | No_Token | No_Machine_Id

record yaml_env =
  ye_open :: "string \<Rightarrow> open_result"
  ye_config :: "string \<Rightarrow> config option"
  ye_token :: "string \<Rightarrow> string option"
  ye_error_text :: "config_error \<Rightarrow> string"

definition validate :: "config \<Rightarrow> config_error option" where
  "validate cfg =
     (if sc_url (cfg_server cfg) = [] then Some No_Url
      else if sc_token (cfg_server cfg) = [] then Some No_Token
      else if ac_machine_id (cfg_agent cfg) = [] then Some No_Machine_Id
      else None)"

definition load_token_file :: "yaml_env \<Rightarrow> string \<Rightarrow> config_error + string" where
  "load_token_file Y path =
     (case ye_open Y path of
        Opened text \<Rightarrow>
          (case ye_token Y text of
             None \<Rightarrow> Inl Parse_Credential
           | Some token \<Rightarrow> if token = [] then Inl Missing_Token else Inr token)
      | r \<Rightarrow> Inl (Open_Credential r))"

text \<open>The configuration can be returned together with a validation error; the callers look at the
  error first, so only the error is kept.\<close>

definition load_config :: "yaml_env \<Rightarrow> string \<Rightarrow> config_error + config" where
  "load_config Y path =
     (case ye_open Y path of
        Opened text \<Rightarrow>
          (case ye_config Y text of
             None \<Rightarrow> Inl Parse_Config
           | Some cfg \<Rightarrow>
               (case (if sc_token (cfg_server cfg) = [] \<and> sc_token_file (cfg_server cfg) \<noteq> []
                      then (case load_token_file Y (sc_token_file (cfg_server cfg)) of
                              Inl e \<Rightarrow> Inl e
                            | Inr token \<Rightarrow> Inr (cfg\<lparr>cfg_server := (cfg_server cfg)\<lparr>sc_token := token\<rparr>\<rparr>))
                      else Inr cfg) of
                  Inl e \<Rightarrow> Inl e
                | Inr cfg \<Rightarrow> (case validate cfg of Some e \<Rightarrow> Inl e | None \<Rightarrow> Inr cfg)))
      | r \<Rightarrow> Inl (Open_Config r))"

section \<open>Lemmas\<close>

text \<open>A configuration that loads names a server, a machine and a token.\<close>

lemma load_config_complete:
  assumes "load_config Y path = Inr cfg"
  shows "sc_url (cfg_server cfg) \<noteq> []" "sc_token (cfg_server cfg) \<noteq> []" "ac_machine_id (cfg_agent cfg) \<noteq> []"
  using assms by (auto simp: load_config_def validate_def split: open_result.splits option.splits sum.splits if_splits)

end
