(* ===== verification/Kv.thy ===== *)
theory Kv
  imports Prelude "HOL-Library.List_Lexorder" "HOL-Library.Char_ord" "HOL-Library.Multiset"
begin

text \<open>
  Key-value maps as the program uses them, and JSON values. A bucket of the agent's bbolt file is
  an association list in byte order of its keys, the order in which \<open>ForEach\<close> visits it; the
  object that \<open>json.Marshal\<close> makes of a Go map lists its keys in the same order. The locale
  \<open>kv_map\<close> is the contract its clients use: reads after writes, deletes and the entries.
\<close>

section \<open>Sorted association lists\<close>

fun kv_put :: "'k::linorder \<Rightarrow> 'v \<Rightarrow> ('k \<times> 'v) list \<Rightarrow> ('k \<times> 'v) list" where
  "kv_put k v [] = [(k, v)]"
| "kv_put k v ((k', v') # kvs) =
     (if k < k' then (k, v) # (k', v') # kvs
      else if k = k' then (k, v) # kvs
      else (k', v') # kv_put k v kvs)"

definition kv_get :: "('k \<times> 'v) list \<Rightarrow> 'k \<Rightarrow> 'v option" where
  "kv_get kvs k = map_of kvs k"

definition kv_del :: "'k \<Rightarrow> ('k \<times> 'v) list \<Rightarrow> ('k \<times> 'v) list" where
  "kv_del k kvs = filter (\<lambda>p. fst p \<noteq> k) kvs"

definition kv_inv :: "('k::linorder \<times> 'v) list \<Rightarrow> bool" where
  "kv_inv kvs \<longleftrightarrow> sorted_wrt (<) (map fst kvs)"

lemma keys_kv_put [simp]: "set (map fst (kv_put k v kvs)) = insert k (set (map fst kvs))"
  by (induction k v kvs rule: kv_put.induct) auto

lemma kv_inv_Nil [simp]: "kv_inv []"
  by (simp add: kv_inv_def)

lemma kv_inv_put [intro, simp]: "kv_inv kvs \<Longrightarrow> kv_inv (kv_put k v kvs)"
proof (induction k v kvs rule: kv_put.induct)
  case (2 k v k' v' kvs)
  then have "k \<noteq> k' \<Longrightarrow> \<not> k < k' \<Longrightarrow> \<forall>x \<in> set (map fst (kv_put k v kvs)). k' < x"
    by (auto simp only: keys_kv_put kv_inv_def) (auto simp: kv_inv_def)
  with 2 show ?case by (auto simp: kv_inv_def simp del: keys_kv_put)
qed (simp add: kv_inv_def)

lemma kv_inv_del [intro, simp]: "kv_inv kvs \<Longrightarrow> kv_inv (kv_del k kvs)"
  by (induction kvs) (auto simp: kv_inv_def kv_del_def)

lemma kv_get_put [simp]: "kv_get (kv_put k v kvs) k' = (if k' = k then Some v else kv_get kvs k')"
  by (induction k v kvs rule: kv_put.induct) (auto simp: kv_get_def)

lemma kv_get_del [simp]: "kv_get (kv_del k kvs) k' = (if k' = k then None else kv_get kvs k')"
  by (induction kvs) (auto simp: kv_get_def kv_del_def)

lemma kv_inv_distinct: "kv_inv kvs \<Longrightarrow> distinct (map fst kvs)"
  by (induction kvs) (auto simp: kv_inv_def)

lemma kv_get_entries: "kv_inv kvs \<Longrightarrow> (k, v) \<in> set kvs \<longleftrightarrow> kv_get kvs k = Some v"
  by (simp add: kv_get_def kv_inv_distinct)

text \<open>The list of entries is a function of the map: two buckets with the same reads are equal.\<close>

lemma kv_inv_map: "kv_inv kvs \<Longrightarrow> kvs = map (\<lambda>k. (k, the (kv_get kvs k))) (map fst kvs)"
  unfolding map_map by (intro map_idI [symmetric]) (auto simp: kv_get_entries)

lemma kv_inv_keys: "kv_inv xs \<Longrightarrow> kv_inv ys \<Longrightarrow> fst ` set xs = fst ` set ys \<Longrightarrow> map fst xs = map fst ys"
  by (simp add: kv_inv_def strict_sorted_equal)

lemma kv_ext:
  assumes "kv_inv xs" and "kv_inv ys" and eq: "kv_get xs = kv_get ys"
  shows "xs = ys"
proof -
  have "set xs = set ys" using assms by (auto simp: kv_get_entries)
  then have "map fst xs = map fst ys" using assms(1,2) by (intro kv_inv_keys) simp_all
  then show ?thesis using kv_inv_map [OF assms(1)] kv_inv_map [OF assms(2)] eq by simp
qed

lemma kv_get_filter: "kv_get (filter (\<lambda>p. Q (fst p)) kvs) k = (if Q k then kv_get kvs k else None)"
  by (induction kvs) (auto simp: kv_get_def)

lemma kv_inv_filter: "kv_inv kvs \<Longrightarrow> kv_inv (filter Q kvs)"
  by (induction kvs) (auto simp: kv_inv_def)

text \<open>A map all of whose entries satisfy a predicate.\<close>

definition kv_all :: "('k::linorder \<Rightarrow> 'v \<Rightarrow> bool) \<Rightarrow> ('k \<times> 'v) list \<Rightarrow> bool" where
  "kv_all P kvs \<longleftrightarrow> kv_inv kvs \<and> (\<forall>(k, v) \<in> set kvs. P k v)"

lemma kv_all_Nil [simp]: "kv_all P []"
  by (simp add: kv_all_def)

lemma kv_all_iff: "kv_all P kvs \<longleftrightarrow> kv_inv kvs \<and> (\<forall>k v. kv_get kvs k = Some v \<longrightarrow> P k v)"
  by (auto simp: kv_all_def simp flip: kv_get_entries)

lemma kv_all_get: "kv_all P kvs \<Longrightarrow> kv_get kvs k = Some v \<Longrightarrow> P k v"
  by (simp add: kv_all_iff)

lemma kv_all_put [simp]: "kv_all P kvs \<Longrightarrow> P k v \<Longrightarrow> kv_all P (kv_put k v kvs)"
  by (auto simp: kv_all_iff split: if_splits)

lemma kv_all_del [simp]: "kv_all P kvs \<Longrightarrow> kv_all P (kv_del k kvs)"
  by (auto simp: kv_all_iff split: if_splits)

lemma kv_put_mset: "kv_get kvs k = None \<Longrightarrow> mset (kv_put k v kvs) = add_mset (k, v) (mset kvs)"
  by (induction k v kvs rule: kv_put.induct) (auto simp: kv_get_def split: if_splits)

section \<open>The interface\<close>

locale kv_map =
  fixes get :: "'s \<Rightarrow> 'k \<Rightarrow> 'v option"
    and put :: "'k \<Rightarrow> 'v \<Rightarrow> 's \<Rightarrow> 's"
    and del :: "'k \<Rightarrow> 's \<Rightarrow> 's"
    and entries :: "'s \<Rightarrow> ('k \<times> 'v) list"
    and inv :: "'s \<Rightarrow> bool"
  assumes get_put: "inv s \<Longrightarrow> get (put k v s) k' = (if k' = k then Some v else get s k')"
    and get_del: "inv s \<Longrightarrow> get (del k s) k' = (if k' = k then None else get s k')"
    and inv_put: "inv s \<Longrightarrow> inv (put k v s)"
    and inv_del: "inv s \<Longrightarrow> inv (del k s)"
    and entries_get: "inv s \<Longrightarrow> (k, v) \<in> set (entries s) \<longleftrightarrow> get s k = Some v"
    and entries_distinct: "inv s \<Longrightarrow> distinct (map fst (entries s))"
begin

lemma inv_fold_del: "inv s \<Longrightarrow> inv (fold del ks s)"
  by (induction ks arbitrary: s) (simp_all add: inv_del)

lemma get_fold_del: "inv s \<Longrightarrow> get (fold del ks s) k = (if k \<in> set ks then None else get s k)"
  by (induction ks arbitrary: s) (auto simp: inv_del get_del)

lemma fold_del_all: "inv s \<Longrightarrow> get (fold del (map fst (entries s)) s) k = None"
proof -
  assume inv: "inv s"
  show ?thesis
  proof (cases "get s k")
    case (Some v)
    then have "(k, v) \<in> set (entries s)" using inv by (simp add: entries_get)
    then have "k \<in> set (map fst (entries s))" by force
    then show ?thesis using inv by (simp add: get_fold_del)
  qed (use inv in \<open>simp add: get_fold_del\<close>)
qed

lemma inv_fold_put: "inv s \<Longrightarrow> inv (fold (\<lambda>(k, v). put k v) kvs s)"
  by (induction kvs arbitrary: s) (auto simp: inv_put)

lemma get_fold_put:
  "inv s \<Longrightarrow> get (fold (\<lambda>(k, v). put k v) kvs s) k =
     (case map_of (rev kvs) k of None \<Rightarrow> get s k | Some v \<Rightarrow> Some v)"
  by (induction kvs arbitrary: s)
    (auto simp: inv_put get_put map_add_def split: option.splits)

lemma entries_eq_Nil: "inv s \<Longrightarrow> entries s = [] \<longleftrightarrow> (\<forall>k. get s k = None)"
proof
  assume inv: "inv s" and none: "\<forall>k. get s k = None"
  have "(k, v) \<notin> set (entries s)" for k v using inv none by (simp add: entries_get)
  then show "entries s = []" by (cases "entries s") force+
next
  assume inv: "inv s" and nil: "entries s = []"
  have "get s k \<noteq> Some v" for k v using entries_get [OF inv, of k v] nil by simp
  then show "\<forall>k. get s k = None" by (meson not_None_eq)
qed

end

interpretation kv: kv_map kv_get kv_put kv_del "\<lambda>kvs. kvs" kv_inv
  by unfold_locales (auto simp: kv_get_entries kv_inv_distinct)

section \<open>JSON values\<close>

text \<open>
  A decoded JSON value. Numbers are the finite floats, here reals; \<open>JTime\<close> is a string that
  holds an RFC 3339 time, so that writing and reading times needs no calendar.
\<close>

datatype json =
    JNull
  | JBool bool
  | JNum real
  | JStr string
  | JTime time
  | JArr "json list"
  | JObj "(string \<times> json) list"

text \<open>Marshalling a Go map: the keys in byte order.\<close>

definition json_map :: "(string \<times> json) list \<Rightarrow> json" where
  "json_map kvs = JObj (fold (\<lambda>(k, v). kv_put k v) kvs [])"

lemma map_of_rev_distinct: "distinct (map fst kvs) \<Longrightarrow> map_of (rev kvs) = map_of kvs"
  by (simp add: map_of_inject_set rev_map [symmetric])

definition json_field :: "json \<Rightarrow> string \<Rightarrow> json option" where
  "json_field j k = (case j of JObj kvs \<Rightarrow> kv_get kvs k | _ \<Rightarrow> None)"

lemma json_field_map [simp]:
  "distinct (map fst kvs) \<Longrightarrow> json_field (json_map kvs) k = map_of kvs k"
  using kv.get_fold_put [of "[]" kvs k] map_of_rev_distinct [of kvs]
  by (auto simp: json_field_def json_map_def kv_get_def split: option.splits)

text \<open>\<open>t.UTC().Format(time.RFC3339)\<close> keeps whole seconds.\<close>

definition rfc3339 :: "time \<Rightarrow> json" where
  "rfc3339 t = JTime (t - t mod 1000000000)"

lemma rfc3339_exact: "t mod 1000000000 = 0 \<Longrightarrow> rfc3339 t = JTime t"
  by (simp add: rfc3339_def)

text \<open>
  Decoding into the fields of a Go struct: an absent field and \<open>null\<close> leave the zero value, a
  value of another JSON type is an error (\<open>None\<close>). Field names are compared exactly.
\<close>

definition dec_field :: "'a \<Rightarrow> (json \<Rightarrow> 'a option) \<Rightarrow> json \<Rightarrow> string \<Rightarrow> 'a option" where
  "dec_field zero dec j k =
     (case json_field j k of None \<Rightarrow> Some zero | Some JNull \<Rightarrow> Some zero | Some v \<Rightarrow> dec v)"

fun as_str :: "json \<Rightarrow> string option" where
  "as_str (JStr s) = Some s"
| "as_str _ = None"

fun as_num :: "json \<Rightarrow> real option" where
  "as_num (JNum x) = Some x"
| "as_num _ = None"

fun as_int :: "json \<Rightarrow> int option" where
  "as_int (JNum x) = (if of_int \<lfloor>x\<rfloor> = x then Some \<lfloor>x\<rfloor> else None)"
| "as_int _ = None"

fun as_bool :: "json \<Rightarrow> bool option" where
  "as_bool (JBool b) = Some b"
| "as_bool _ = None"

fun as_time :: "json \<Rightarrow> time option" where
  "as_time (JTime t) = Some t"
| "as_time _ = None"

text \<open>Decoding the elements of an array: \<open>None\<close> as soon as one of them fails.\<close>

primrec traverse :: "('a \<Rightarrow> 'b option) \<Rightarrow> 'a list \<Rightarrow> 'b list option" where
  "traverse f [] = Some []"
| "traverse f (x # xs) =
     (case f x of None \<Rightarrow> None
      | Some y \<Rightarrow> (case traverse f xs of None \<Rightarrow> None | Some ys \<Rightarrow> Some (y # ys)))"

fun as_list :: "(json \<Rightarrow> 'a option) \<Rightarrow> json \<Rightarrow> 'a list option" where
  "as_list dec (JArr xs) = traverse dec xs"
| "as_list dec _ = None"

text \<open>A string element of a list decodes \<open>null\<close> to the empty string.\<close>

fun as_str_elem :: "json \<Rightarrow> string option" where
  "as_str_elem JNull = Some []"
| "as_str_elem j = as_str j"

lemma traverse_Some_iff: "traverse f xs = Some ys \<longleftrightarrow> list_all2 (\<lambda>x y. f x = Some y) xs ys"
proof (induction xs arbitrary: ys)
  case (Cons x xs)
  show ?case by (cases ys) (auto simp flip: Cons.IH split: option.splits)
qed auto

lemma traverse_all: "(\<And>x. x \<in> set xs \<Longrightarrow> f x = Some (g x)) \<Longrightarrow> traverse f xs = Some (map g xs)"
  by (induction xs) auto

definition is_object :: "json \<Rightarrow> bool" where
  "is_object j \<longleftrightarrow> (case j of JObj _ \<Rightarrow> True | _ \<Rightarrow> False)"

lemma is_object_json_map [simp]: "is_object (json_map kvs)"
  by (simp add: is_object_def json_map_def)

end
