(* ===== verification/Probes.thy ===== *)
theory Probes
  imports AgentConfig Kv
begin

text \<open>
  The probe runner of the agent (\<open>apps/agent/internal/probes/runner.go\<close>). What the database, the
  file system and a command answer is the parameter \<open>probe_env\<close>. A measured value is a float;
  \<open>fmt.Sscanf\<close> also reads \<open>nan\<close> and \<open>inf\<close>, which JSON cannot hold.
\<close>

section \<open>Definitions\<close>

datatype gofloat = Finite real | Not_Finite

record probe_result =
  pr_name :: string
  pr_type :: string
  pr_value :: gofloat
  pr_status :: string
  pr_measured_at :: time
  pr_evidence :: json
  pr_error :: bool

datatype stat_result = Not_Exist | Stat_Error | Mod_Time time
datatype query_result = Open_Failed_Db | Query_Failed | Count gofloat

record probe_env =
  pv_now :: time
  pv_query :: "sql_probe \<Rightarrow> query_result"
  pv_stat :: "string \<Rightarrow> stat_result"
  pv_command :: "command_probe \<Rightarrow> string option"
  pv_scan_float :: "string \<Rightarrow> gofloat + string"

text \<open>\<open>json.Marshal\<close> of a map that holds a float fails when the float is not finite.\<close>

definition float_json :: "gofloat \<Rightarrow> json option" where
  "float_json v = (case v of Finite x \<Rightarrow> Some (JNum x) | Not_Finite \<Rightarrow> None)"

text \<open>The fields set before the type-specific part runs.\<close>

definition blank_result :: "probe_env \<Rightarrow> probe_config \<Rightarrow> string \<Rightarrow> probe_result" where
  "blank_result V p typ =
     \<lparr>pr_name = pc_name p, pr_type = typ, pr_value = Finite 0, pr_status = [],
      pr_measured_at = pv_now V, pr_evidence = JNull, pr_error = False\<rparr>"

definition run_sql_count_probe :: "probe_env \<Rightarrow> probe_config \<Rightarrow> probe_result" where
  "run_sql_count_probe V p =
     (let res = blank_result V p ''count''
      in case pc_sql p of
           None \<Rightarrow> res\<lparr>pr_status := ''unknown'', pr_error := True\<rparr>
         | Some q \<Rightarrow>
             (case pv_query V q of
                Open_Failed_Db \<Rightarrow> res\<lparr>pr_status := ''critical'', pr_error := True\<rparr>
              | Query_Failed \<Rightarrow> res\<lparr>pr_status := ''critical'', pr_error := True\<rparr>
              | Count n \<Rightarrow>
                  res\<lparr>pr_value := n, pr_status := (if n = Finite 0 then ''warning'' else ''ok''),
                      pr_evidence := json_map [(''query'', JStr (sq_query q))]\<rparr>))"

definition age_seconds :: "probe_env \<Rightarrow> time \<Rightarrow> real" where
  "age_seconds V t = of_int (time_sub (pv_now V) t) / 1000000000"

definition run_file_freshness_probe :: "probe_env \<Rightarrow> probe_config \<Rightarrow> probe_result" where
  "run_file_freshness_probe V p =
     (let res = blank_result V p ''gauge''
      in case pc_file p of
           None \<Rightarrow> res\<lparr>pr_status := ''unknown'', pr_error := True\<rparr>
         | Some f \<Rightarrow>
             (case pv_stat V (fp_path f) of
                Not_Exist \<Rightarrow>
                  res\<lparr>pr_status := ''critical'', pr_value := Finite (- 1),
                      pr_evidence := json_map [(''path'', JStr (fp_path f)), (''error'', JStr ''file not found'')]\<rparr>
              | Stat_Error \<Rightarrow> res\<lparr>pr_status := ''unknown'', pr_error := True\<rparr>
              | Mod_Time t \<Rightarrow>
                  (let age = age_seconds V t
                   in res\<lparr>pr_value := Finite age,
                          pr_evidence := json_map [(''path'', JStr (fp_path f)), (''mod_time'', rfc3339 t),
                            (''age_seconds'', JNum age), (''max_age'', JNum (of_int (fp_max_age_seconds f)))],
                          pr_status := (if 0 < fp_max_age_seconds f \<and> of_int (fp_max_age_seconds f) < age
                                        then ''warning'' else ''ok'')\<rparr>)))"

definition run_command_probe :: "probe_env \<Rightarrow> probe_config \<Rightarrow> probe_result" where
  "run_command_probe V p =
     (let res = blank_result V p ''gauge''
      in case pc_command p of
           None \<Rightarrow> res\<lparr>pr_status := ''unknown'', pr_error := True\<rparr>
         | Some c \<Rightarrow>
             (case pv_command V c of
                None \<Rightarrow> res\<lparr>pr_status := ''critical'', pr_error := True\<rparr>
              | Some out \<Rightarrow>
                  (let output = trim_space out
                   in case pv_scan_float V output of
                        Inr err \<Rightarrow>
                          res\<lparr>pr_status := ''unknown'',
                              pr_evidence := json_map [(''output'', JStr output), (''parse_error'', JStr err)]\<rparr>
                      | Inl v \<Rightarrow>
                          res\<lparr>pr_value := v, pr_status := ''ok'',
                              pr_evidence := json_map [(''command'', JStr (cp_command c)), (''output'', JStr output)]\<rparr>)))"

definition run_one :: "probe_env \<Rightarrow> probe_config \<Rightarrow> probe_result" where
  "run_one V p =
     (if pc_type p = ''sql_count'' then run_sql_count_probe V p
      else if pc_type p = ''file_freshness'' then run_file_freshness_probe V p
      else if pc_type p = ''command'' then run_command_probe V p
      else (blank_result V p ''gauge'')\<lparr>pr_status := ''unknown'', pr_error := True\<rparr>)"

definition run_all :: "(nat \<Rightarrow> probe_env) \<Rightarrow> probe_config list \<Rightarrow> probe_result list" where
  "run_all V probes = map (\<lambda>(n, p). run_one (V n) p) (enumerate 0 probes)"

section \<open>Lemmas\<close>

definition probe_statuses :: "string list" where
  "probe_statuses = [''ok'', ''warning'', ''critical'', ''unknown'']"

text \<open>What every runner guarantees of the result it fills in: the name of the probe, a known type and
  status, and no error behind an ok or a warning.\<close>

definition result_ok :: "probe_config \<Rightarrow> probe_result \<Rightarrow> bool" where
  "result_ok p r \<longleftrightarrow> pr_name r = pc_name p \<and> pr_type r \<in> {''count'', ''gauge''}
     \<and> pr_status r \<in> set probe_statuses \<and> (pr_error r \<longrightarrow> pr_status r \<in> {''critical'', ''unknown''})"

lemmas result_ok_simps = result_ok_def blank_result_def Let_def probe_statuses_def

lemma run_sql_ok: "result_ok p (run_sql_count_probe V p)"
  by (simp add: result_ok_simps run_sql_count_probe_def split: option.split query_result.split)

lemma run_file_ok: "result_ok p (run_file_freshness_probe V p)"
  by (simp add: result_ok_simps run_file_freshness_probe_def split: option.split stat_result.split)

lemma run_command_ok: "result_ok p (run_command_probe V p)"
  by (simp add: result_ok_simps run_command_probe_def split: option.split sum.split)

lemma run_one_ok: "result_ok p (run_one V p)"
  unfolding run_one_def using run_sql_ok run_file_ok run_command_ok
  by (simp add: result_ok_simps)

lemma run_all_ok: "list_all2 result_ok probes (run_all V probes)"
  by (auto simp: run_all_def list_all2_conv_all_nth nth_enumerate_eq run_one_ok)

end
