(* ===== verification/Store.thy ===== *)
theory Store
  imports Kv
begin

text \<open>
  The agent's local state file (\<open>apps/agent/internal/state/store.go\<close>). A bbolt bucket is a
  key-value map (theory Kv); what the outside answers is the parameter \<open>agent_env\<close>, indexed by
  the number of calls to the outside made so far: the clock, fresh UUIDs, whether a bbolt
  transaction goes through, and the answer to an HTTP request. The counter is \<open>st_tick\<close>. Records
  are marshalled and unmarshalled by the same program, so a bucket holds the records themselves.
\<close>

section \<open>The outside\<close>

record http_request =
  rq_method :: string
  rq_url :: string
  rq_headers :: "(string \<times> string) list"
  rq_body :: "json option"

text \<open>A response carries its status and its body, \<open>None\<close> when the body is not JSON.\<close>

datatype http_result = Transport_Error | Response nat "json option"

record agent_env =
  ev_now :: "nat \<Rightarrow> time"
  ev_uuid :: "nat \<Rightarrow> string"
  ev_tx :: "nat \<Rightarrow> bool"
  ev_http :: "nat \<Rightarrow> http_request \<Rightarrow> http_result"

section \<open>Definitions\<close>

record pending_event =
  pe_id :: string
  pe_created_at :: time
  pe_payload :: json

record stored_job =
  sj_command_hash :: string
  sj_schedule :: string
  sj_timezone :: string
  sj_user :: string
  sj_raw_command :: string
  sj_normalized_command :: string
  sj_source_file :: string
  sj_updated_at :: time

record local_execution =
  le_id :: string
  le_job_id :: string
  le_command_hash :: string
  le_command :: string
  le_schedule :: string
  le_status :: string
  le_trigger :: string
  le_confidence :: real
  le_started_at :: time
  le_finished_at :: "time option"
  le_duration_seconds :: "real option"
  le_pid :: "int option"
  le_exit_code :: "int option"
  le_evidence :: json
  le_last_updated_at :: time

record store =
  st_executions :: "(string \<times> pending_event) list"
  st_metrics :: "(string \<times> pending_event) list"
  st_meta :: "(string \<times> string) list"
  st_jobs :: "(string \<times> stored_job) list"
  st_runs :: "(string \<times> local_execution) list"
  st_tick :: nat

definition tick :: "store \<Rightarrow> store" where
  "tick s = s\<lparr>st_tick := Suc (st_tick s)\<rparr>"

definition clock :: "agent_env \<Rightarrow> store \<Rightarrow> time \<times> store" where
  "clock E s = (ev_now E (st_tick s), tick s)"

definition new_uuid :: "agent_env \<Rightarrow> store \<Rightarrow> string \<times> store" where
  "new_uuid E s = (ev_uuid E (st_tick s), tick s)"

text \<open>A read-write transaction is all or nothing; a read-only one returns what it saw.\<close>

definition tx_update :: "agent_env \<Rightarrow> (store \<Rightarrow> store) \<Rightarrow> store \<Rightarrow> bool \<times> store" where
  "tx_update E f s = (if ev_tx E (st_tick s) then (True, tick (f s)) else (False, tick s))"

definition tx_view :: "agent_env \<Rightarrow> (store \<Rightarrow> 'a) \<Rightarrow> store \<Rightarrow> 'a option \<times> store" where
  "tx_view E f s = (if ev_tx E (st_tick s) then Some (f s) else None, tick s)"

datatype open_error = Open_Db | Init_Buckets

definition open_store :: "agent_env \<Rightarrow> store \<Rightarrow> (open_error + store) \<times> nat" where
  "open_store E file =
     (if \<not> ev_tx E (st_tick file) then (Inl Open_Db, Suc (st_tick file))
      else (case tx_update E (\<lambda>s. s) (tick file) of
              (ok, s) \<Rightarrow> (if ok then Inr s else Inl Init_Buckets, st_tick s)))"

text \<open>\<open>mustMarshal\<close>: a value that \<open>json.Marshal\<close> rejects is \<open>None\<close> and is stored as \<open>null\<close>.\<close>

definition must_marshal :: "json option \<Rightarrow> json" where
  "must_marshal v = (case v of None \<Rightarrow> JNull | Some j \<Rightarrow> j)"

definition save_execution :: "agent_env \<Rightarrow> string \<Rightarrow> json option \<Rightarrow> store \<Rightarrow> bool \<times> store" where
  "save_execution E i payload s =
     (case clock E s of (now, s) \<Rightarrow>
        tx_update E (st_executions_update
          (kv_put i \<lparr>pe_id = i, pe_created_at = now, pe_payload = must_marshal payload\<rparr>)) s)"

definition save_metric :: "agent_env \<Rightarrow> string \<Rightarrow> json option \<Rightarrow> store \<Rightarrow> bool \<times> store" where
  "save_metric E i payload s =
     (case clock E s of (now, s) \<Rightarrow>
        tx_update E (st_metrics_update
          (kv_put i \<lparr>pe_id = i, pe_created_at = now, pe_payload = must_marshal payload\<rparr>)) s)"

definition pending_executions :: "agent_env \<Rightarrow> store \<Rightarrow> pending_event list option \<times> store" where
  "pending_executions E = tx_view E (\<lambda>s. map snd (st_executions s))"

definition pending_metrics :: "agent_env \<Rightarrow> store \<Rightarrow> pending_event list option \<times> store" where
  "pending_metrics E = tx_view E (\<lambda>s. map snd (st_metrics s))"

definition delete_execution :: "agent_env \<Rightarrow> string \<Rightarrow> store \<Rightarrow> bool \<times> store" where
  "delete_execution E i = tx_update E (st_executions_update (kv_del i))"

definition delete_metric :: "agent_env \<Rightarrow> string \<Rightarrow> store \<Rightarrow> bool \<times> store" where
  "delete_metric E i = tx_update E (st_metrics_update (kv_del i))"

definition set_meta :: "agent_env \<Rightarrow> string \<Rightarrow> string \<Rightarrow> store \<Rightarrow> bool \<times> store" where
  "set_meta E key val = tx_update E (st_meta_update (kv_put key val))"

text \<open>The value and whether there was an error; a missing key reads as the empty string.\<close>

definition get_meta :: "agent_env \<Rightarrow> string \<Rightarrow> store \<Rightarrow> (string \<times> bool) \<times> store" where
  "get_meta E key s =
     (case tx_view E (\<lambda>s. kv_get (st_meta s) key) s of
        (None, s) \<Rightarrow> (([], True), s)
      | (Some v, s) \<Rightarrow> ((case v of None \<Rightarrow> [] | Some x \<Rightarrow> x, False), s))"

definition save_job :: "agent_env \<Rightarrow> stored_job \<Rightarrow> store \<Rightarrow> bool \<times> store" where
  "save_job E job s =
     (case clock E s of (now, s) \<Rightarrow>
        tx_update E (st_jobs_update (kv_put (sj_command_hash job) (job\<lparr>sj_updated_at := now\<rparr>))) s)"

definition list_jobs :: "agent_env \<Rightarrow> store \<Rightarrow> stored_job list option \<times> store" where
  "list_jobs E = tx_view E (\<lambda>s. map snd (st_jobs s))"

definition save_local_execution :: "agent_env \<Rightarrow> local_execution \<Rightarrow> store \<Rightarrow> bool \<times> store" where
  "save_local_execution E r s =
     (case clock E s of (now, s) \<Rightarrow>
        tx_update E (st_runs_update (kv_put (le_id r) (r\<lparr>le_last_updated_at := now\<rparr>))) s)"

definition list_local_executions_since ::
  "agent_env \<Rightarrow> time \<Rightarrow> store \<Rightarrow> local_execution list option \<times> store" where
  "list_local_executions_since E since =
     tx_view E (\<lambda>s. filter (\<lambda>r. since < le_last_updated_at r \<or> since < le_started_at r) (map snd (st_runs s)))"

section \<open>Invariant\<close>

text \<open>Every bucket is a map, and a record stands under its own identifier.\<close>

definition bucket_ok :: "('v \<Rightarrow> string) \<Rightarrow> (string \<times> 'v) list \<Rightarrow> bool" where
  "bucket_ok key kvs \<longleftrightarrow> kv_all (\<lambda>k v. key v = k) kvs"

definition store_ok :: "store \<Rightarrow> bool" where
  "store_ok s \<longleftrightarrow> bucket_ok pe_id (st_executions s) \<and> bucket_ok pe_id (st_metrics s) \<and>
     kv_inv (st_meta s) \<and> bucket_ok sj_command_hash (st_jobs s) \<and> bucket_ok le_id (st_runs s)"

definition empty_store :: store where
  "empty_store = \<lparr>st_executions = [], st_metrics = [], st_meta = [], st_jobs = [], st_runs = [], st_tick = 0\<rparr>"

text \<open>An outside that never fails, stands still and answers every request in the same way.\<close>

definition steady_env :: "http_result \<Rightarrow> agent_env" where
  "steady_env r = \<lparr>ev_now = (\<lambda>n. 0), ev_uuid = (\<lambda>n. replicate n (CHR ''u'')), ev_tx = (\<lambda>n. True),
     ev_http = (\<lambda>n q. r)\<rparr>"

lemma steady_env_sel [simp]:
  "ev_now (steady_env r) n = 0" "ev_uuid (steady_env r) n = replicate n (CHR ''u'')"
  "ev_tx (steady_env r) n" "ev_http (steady_env r) n q = r"
  by (simp_all add: steady_env_def)

lemma bucket_ok_Nil [simp]: "bucket_ok key []"
  by (simp add: bucket_ok_def)

lemma empty_store_ok [simp]: "store_ok empty_store"
  by (simp add: store_ok_def empty_store_def)

lemma bucket_ok_inv: "bucket_ok key kvs \<Longrightarrow> kv_inv kvs"
  by (simp add: bucket_ok_def kv_all_def)

lemma bucket_ok_get: "bucket_ok key kvs \<Longrightarrow> kv_get kvs k = Some v \<Longrightarrow> key v = k"
  unfolding bucket_ok_def by (rule kv_all_get)

lemma bucket_ok_put [simp]: "bucket_ok key kvs \<Longrightarrow> key v = k \<Longrightarrow> bucket_ok key (kv_put k v kvs)"
  by (simp add: bucket_ok_def)

lemma bucket_ok_del [simp]: "bucket_ok key kvs \<Longrightarrow> bucket_ok key (kv_del k kvs)"
  by (simp add: bucket_ok_def)

lemma bucket_ok_keys: "bucket_ok key kvs \<Longrightarrow> map (key \<circ> snd) kvs = map fst kvs"
  by (auto simp: bucket_ok_def kv_all_def)

lemma store_ok_tick [simp]: "store_ok (tick s) = store_ok s"
  by (simp add: store_ok_def tick_def)

lemma tick_sel [simp]:
  "st_executions (tick s) = st_executions s" "st_metrics (tick s) = st_metrics s"
  "st_meta (tick s) = st_meta s" "st_jobs (tick s) = st_jobs s" "st_runs (tick s) = st_runs s"
  "st_tick (tick s) = Suc (st_tick s)"
  by (simp_all add: tick_def)

lemma tx_update_ok: "store_ok (f s) \<Longrightarrow> store_ok s \<Longrightarrow> store_ok (snd (tx_update E f s))"
  by (simp add: tx_update_def)

lemmas store_ops = save_execution_def save_metric_def pending_executions_def pending_metrics_def
  delete_execution_def delete_metric_def set_meta_def get_meta_def save_job_def list_jobs_def
  save_local_execution_def list_local_executions_since_def
lemmas tx_defs = tx_update_def tx_view_def clock_def new_uuid_def

text \<open>Every operation keeps the invariant, whether its transaction goes through or not.\<close>

lemma store_ok_ops:
  assumes "store_ok s"
  shows "store_ok (snd (save_execution E i p s))" "store_ok (snd (save_metric E i p s))"
    "store_ok (snd (pending_executions E s))" "store_ok (snd (pending_metrics E s))"
    "store_ok (snd (delete_execution E i s))" "store_ok (snd (delete_metric E i s))"
    "store_ok (snd (set_meta E k v s))" "store_ok (snd (get_meta E k s))"
    "store_ok (snd (save_job E j s))" "store_ok (snd (list_jobs E s))"
    "store_ok (snd (save_local_execution E r s))" "store_ok (snd (list_local_executions_since E t s))"
    "store_ok (snd (clock E s))" "store_ok (snd (new_uuid E s))"
  using assms by (simp_all add: store_ops tx_defs store_ok_def tick_def)

end
