(* ===== verification/Client.thy ===== *)
theory Client
  imports Store
begin

text \<open>
  The HTTP client of the agent (\<open>apps/agent/internal/client/client.go\<close>). A request is a record
  and the server's answer comes from \<open>ev_http\<close>; a request that cannot be built or sent is a
  \<open>Transport_Error\<close>.
\<close>

section \<open>Definitions\<close>

record client =
  cl_base_url :: string
  cl_token :: string
  cl_host_id :: string

record enroll_request =
  eq_enrollment_token :: string
  eq_machine_id :: string
  eq_hostname :: string
  eq_ip_address :: string
  eq_agent_version :: string

record bootstrap_config =
  bc_environment :: string
  bc_tags :: "string list"
  bc_heartbeat_interval :: string
  bc_discovery_interval :: string
  bc_process_scan_interval :: string
  bc_report_interval :: string
  bc_command_poll_interval :: string

record enroll_response =
  ep_host_id :: string
  ep_token :: string
  ep_config :: bootstrap_config

record run_command =
  rc_id :: string
  rc_host_id :: string
  rc_job_id :: string
  rc_command_hash :: string
  rc_raw_command :: string
  rc_schedule :: string
  rc_requested_at :: time

datatype client_error = Transport | Server_Error nat | Decode_Error

definition http :: "agent_env \<Rightarrow> http_request \<Rightarrow> store \<Rightarrow> http_result \<times> store" where
  "http E req s = (ev_http E (st_tick s) req, tick s)"

definition auth_headers :: "client \<Rightarrow> string \<Rightarrow> (string \<times> string) list" where
  "auth_headers c host_id =
     (if cl_token c \<noteq> [] then [(''Authorization'', ''Bearer '' @ cl_token c)] else []) @
     (if host_id \<noteq> [] then [(''X-Host-ID'', host_id)] else [])"

definition post_request :: "client \<Rightarrow> string \<Rightarrow> string \<Rightarrow> json \<Rightarrow> http_request" where
  "post_request c path host_id body =
     \<lparr>rq_method = ''POST'', rq_url = cl_base_url c @ path,
      rq_headers = (''Content-Type'', ''application/json'') # auth_headers c host_id,
      rq_body = Some body\<rparr>"

definition post_raw ::
  "agent_env \<Rightarrow> client \<Rightarrow> string \<Rightarrow> string \<Rightarrow> json \<Rightarrow> store \<Rightarrow> (client_error + json option) \<times> store" where
  "post_raw E c path host_id body s =
     (case http E (post_request c path host_id body) s of
        (Transport_Error, s) \<Rightarrow> (Inl Transport, s)
      | (Response status b, s) \<Rightarrow> (if 400 \<le> status then Inl (Server_Error status) else Inr b, s))"

text \<open>\<open>post\<close> ignores a body that does not decode; its callers look at the error only.\<close>

definition post ::
  "agent_env \<Rightarrow> client \<Rightarrow> string \<Rightarrow> string \<Rightarrow> json \<Rightarrow> store \<Rightarrow> client_error option \<times> store" where
  "post E c path host_id body s =
     (case post_raw E c path host_id body s of
        (Inl e, s) \<Rightarrow> (Some e, s)
      | (Inr _, s) \<Rightarrow> (None, s))"

definition http_get ::
  "agent_env \<Rightarrow> client \<Rightarrow> string \<Rightarrow> string \<Rightarrow> (json \<Rightarrow> 'a option) \<Rightarrow> store \<Rightarrow> (client_error + 'a) \<times> store" where
  "http_get E c path host_id dec s =
     (case http E \<lparr>rq_method = ''GET'', rq_url = cl_base_url c @ path,
                   rq_headers = auth_headers c host_id, rq_body = None\<rparr> s of
        (Transport_Error, s) \<Rightarrow> (Inl Transport, s)
      | (Response status b, s) \<Rightarrow>
          (if 400 \<le> status then Inl (Server_Error status)
           else (case b of None \<Rightarrow> Inl Decode_Error
                 | Some j \<Rightarrow> (case dec j of None \<Rightarrow> Inl Decode_Error | Some x \<Rightarrow> Inr x)), s))"

definition decode_bootstrap :: "json \<Rightarrow> bootstrap_config option" where
  "decode_bootstrap j =
     (case (dec_field [] as_str j ''environment'', dec_field [] (as_list as_str_elem) j ''tags'',
            dec_field [] as_str j ''heartbeat_interval'', dec_field [] as_str j ''discovery_interval'',
            dec_field [] as_str j ''process_scan_interval'', dec_field [] as_str j ''report_interval'',
            dec_field [] as_str j ''command_poll_interval'') of
        (Some env, Some tags, Some hb, Some di, Some ps, Some re, Some cp) \<Rightarrow>
          Some \<lparr>bc_environment = env, bc_tags = tags, bc_heartbeat_interval = hb,
                bc_discovery_interval = di, bc_process_scan_interval = ps,
                bc_report_interval = re, bc_command_poll_interval = cp\<rparr>
      | _ \<Rightarrow> None)"

definition empty_bootstrap :: bootstrap_config where
  "empty_bootstrap =
     \<lparr>bc_environment = [], bc_tags = [], bc_heartbeat_interval = [], bc_discovery_interval = [],
      bc_process_scan_interval = [], bc_report_interval = [], bc_command_poll_interval = []\<rparr>"

definition as_object :: "(json \<Rightarrow> 'a option) \<Rightarrow> json \<Rightarrow> 'a option" where
  "as_object dec j = (if is_object j then dec j else None)"

definition decode_enroll_response :: "json \<Rightarrow> enroll_response option" where
  "decode_enroll_response j =
     (case (dec_field [] as_str j ''host_id'',
            dec_field [] (as_object (\<lambda>c. dec_field [] as_str c ''token'')) j ''credential'',
            dec_field empty_bootstrap (as_object decode_bootstrap) j ''config'') of
        (Some h, Some t, Some c) \<Rightarrow> Some \<lparr>ep_host_id = h, ep_token = t, ep_config = c\<rparr>
      | _ \<Rightarrow> None)"

definition enroll ::
  "agent_env \<Rightarrow> client \<Rightarrow> enroll_request \<Rightarrow> store \<Rightarrow> (client_error + enroll_response) \<times> store" where
  "enroll E c r s =
     (case post_raw E c ''/api/v1/agents/enroll'' []
             (JObj [(''enrollment_token'', JStr (eq_enrollment_token r)),
                    (''machine_id'', JStr (eq_machine_id r)), (''hostname'', JStr (eq_hostname r)),
                    (''ip_address'', JStr (eq_ip_address r)),
                    (''agent_version'', JStr (eq_agent_version r))]) s of
        (Inl e, s) \<Rightarrow> (Inl e, s)
      | (Inr None, s) \<Rightarrow> (Inl Decode_Error, s)
      | (Inr (Some j), s) \<Rightarrow>
          (if j = JNull then Inr \<lparr>ep_host_id = [], ep_token = [], ep_config = empty_bootstrap\<rparr>
           else (case as_object decode_enroll_response j of
                   None \<Rightarrow> Inl Decode_Error | Some r \<Rightarrow> Inr r), s))"

definition heartbeat :: "agent_env \<Rightarrow> client \<Rightarrow> string \<Rightarrow> store \<Rightarrow> client_error option \<times> store" where
  "heartbeat E c ip = post E c ''/api/v1/agents/heartbeat'' (cl_host_id c) (json_map [(''ip_address'', JStr ip)])"

definition submit_discovery :: "agent_env \<Rightarrow> client \<Rightarrow> json \<Rightarrow> store \<Rightarrow> client_error option \<times> store" where
  "submit_discovery E c jobs = post E c ''/api/v1/jobs/discovery'' (cl_host_id c) jobs"

definition batch_executions :: "agent_env \<Rightarrow> client \<Rightarrow> json \<Rightarrow> store \<Rightarrow> client_error option \<times> store" where
  "batch_executions E c events = post E c ''/api/v1/executions/batch'' (cl_host_id c) events"

definition batch_metrics :: "agent_env \<Rightarrow> client \<Rightarrow> json \<Rightarrow> store \<Rightarrow> client_error option \<times> store" where
  "batch_metrics E c metrics = post E c ''/api/v1/metrics/batch'' (cl_host_id c) metrics"

definition decode_run_command :: "json \<Rightarrow> run_command option" where
  "decode_run_command j =
     (case (dec_field [] as_str j ''id'', dec_field [] as_str j ''host_id'', dec_field [] as_str j ''job_id'',
            dec_field [] as_str j ''command_hash'', dec_field [] as_str j ''raw_command'',
            dec_field [] as_str j ''schedule'', dec_field zero_time as_time j ''requested_at'') of
        (Some i, Some h, Some jb, Some ch, Some rw, Some sc, Some t) \<Rightarrow>
          Some \<lparr>rc_id = i, rc_host_id = h, rc_job_id = jb, rc_command_hash = ch,
                rc_raw_command = rw, rc_schedule = sc, rc_requested_at = t\<rparr>
      | _ \<Rightarrow> None)"

text \<open>A \<open>null\<close> element of the array decodes to a nil pointer, here \<open>None\<close>.\<close>

definition decode_run_command_ptr :: "json \<Rightarrow> run_command option option" where
  "decode_run_command_ptr j =
     (if j = JNull then Some None else map_option Some (as_object decode_run_command j))"

definition decode_commands :: "json \<Rightarrow> run_command option list option" where
  "decode_commands j =
     (if j = JNull then Some []
      else if is_object j then dec_field [] (as_list decode_run_command_ptr) j ''commands'' else None)"

text \<open>The limit is a literal of the only caller, given with its decimal text.\<close>

definition claim_run_commands ::
  "agent_env \<Rightarrow> client \<Rightarrow> string \<Rightarrow> store \<Rightarrow> (client_error + run_command option list) \<times> store" where
  "claim_run_commands E c limit =
     http_get E c (''/api/v1/agents/commands?limit='' @ limit) (cl_host_id c) decode_commands"

definition exit_code_value :: "int option \<Rightarrow> json" where
  "exit_code_value code = (case code of None \<Rightarrow> JNull | Some n \<Rightarrow> JNum (of_int n))"

definition complete_run_command ::
  "agent_env \<Rightarrow> client \<Rightarrow> string \<Rightarrow> string \<Rightarrow> string \<Rightarrow> time \<Rightarrow> time \<Rightarrow> int option \<Rightarrow> store
   \<Rightarrow> client_error option \<times> store" where
  "complete_run_command E c i status message started_at finished_at code =
     post E c (''/api/v1/agents/commands/'' @ i @ ''/complete'') (cl_host_id c)
       (json_map [(''status'', JStr status), (''message'', JStr message),
                  (''started_at'', rfc3339 started_at), (''finished_at'', rfc3339 finished_at),
                  (''exit_code'', exit_code_value code)])"

section \<open>Lemmas\<close>

lemma snd_http [simp]: "snd (http E r s) = tick s"
  by (simp add: http_def)

text \<open>A request changes nothing but the counter of calls.\<close>

lemma snd_post [simp]: "snd (post E c p h b s) = tick s"
  by (simp add: post_def post_raw_def http_def split: prod.splits sum.splits http_result.splits)

lemma snd_http_get [simp]: "snd (http_get E c p h d s) = tick s"
  by (simp add: http_get_def http_def split: http_result.splits)

lemma post_ok_iff:
  "fst (post E c p h b s) = None \<longleftrightarrow>
     (\<exists>status body. ev_http E (st_tick s) (post_request c p h b) = Response status body \<and> status < 400)"
  by (auto simp: post_def post_raw_def http_def split: http_result.splits)

lemmas client_calls = heartbeat_def submit_discovery_def batch_executions_def batch_metrics_def
  claim_run_commands_def complete_run_command_def

end
