(* ===== verification/Reporter.thy ===== *)
theory Reporter
  imports Client
begin

text \<open>
  Uploading buffered events (\<open>apps/agent/internal/reporter/reporter.go\<close>). The locale
  \<open>event_buffer\<close> is what a flush needs of a buffer of the state file, proved for the execution
  and the metric buckets. The agent also flushes from the goroutine of every remote command, so
  the second half is a step relation in which any number of flushes run at once.
\<close>

section \<open>Definitions\<close>

definition flush_with ::
  "(store \<Rightarrow> pending_event list option \<times> store) \<Rightarrow> (json \<Rightarrow> store \<Rightarrow> client_error option \<times> store)
   \<Rightarrow> (string \<Rightarrow> store \<Rightarrow> bool \<times> store) \<Rightarrow> string \<Rightarrow> store \<Rightarrow> store" where
  "flush_with pend upload del key s =
     (case pend s of
        (None, s) \<Rightarrow> s
      | (Some ps, s) \<Rightarrow>
          if ps = [] then s
          else (case upload (json_map [(key, JArr (map pe_payload ps))]) s of
                  (Some e, s) \<Rightarrow> s
                | (None, s) \<Rightarrow> fold (\<lambda>p s. snd (del (pe_id p) s)) ps s))"

definition flush_executions :: "agent_env \<Rightarrow> client \<Rightarrow> store \<Rightarrow> store" where
  "flush_executions E c =
     flush_with (pending_executions E) (batch_executions E c) (delete_execution E) ''executions''"

definition flush_metrics :: "agent_env \<Rightarrow> client \<Rightarrow> store \<Rightarrow> store" where
  "flush_metrics E c =
     flush_with (pending_metrics E) (batch_metrics E c) (delete_metric E) ''metrics''"

text \<open>A failed save is logged and the event is gone.\<close>

definition buffer_execution :: "agent_env \<Rightarrow> string \<Rightarrow> json option \<Rightarrow> store \<Rightarrow> store" where
  "buffer_execution E i event s = snd (save_execution E i event s)"

definition buffer_metric :: "agent_env \<Rightarrow> string \<Rightarrow> json option \<Rightarrow> store \<Rightarrow> store" where
  "buffer_metric E i metric s = snd (save_metric E i metric s)"

section \<open>The buffer interface\<close>

locale event_buffer =
  fixes entries :: "store \<Rightarrow> (string \<times> pending_event) list"
    and save :: "string \<Rightarrow> json option \<Rightarrow> store \<Rightarrow> bool \<times> store"
    and pend :: "store \<Rightarrow> pending_event list option \<times> store"
    and del :: "string \<Rightarrow> store \<Rightarrow> bool \<times> store"
  assumes entries_ok: "store_ok s \<Longrightarrow> bucket_ok pe_id (entries s)"
    and entries_tick: "entries (tick s) = entries s"
    and pend_spec: "pend s = (r, s') \<Longrightarrow> s' = tick s \<and> (r = None \<or> r = Some (map snd (entries s)))"
    and del_ok: "store_ok s \<Longrightarrow> store_ok (snd (del i s))"
    and del_spec: "entries (snd (del i s)) = (if fst (del i s) then kv_del i (entries s) else entries s)"
    and save_ok: "store_ok s \<Longrightarrow> store_ok (snd (save i p s))"
    and save_spec: "kv_get (entries (snd (save i p s))) k =
          (if fst (save i p s) \<and> k = i then kv_get (entries (snd (save i p s))) i else kv_get (entries s) k)"
begin

abbreviation drain :: "pending_event list \<Rightarrow> store \<Rightarrow> store" where
  "drain \<equiv> fold (\<lambda>p s. snd (del (pe_id p) s))"

lemma drain_ok: "store_ok s \<Longrightarrow> store_ok (drain ps s)"
  by (induction ps arbitrary: s) (simp_all add: del_ok)

lemma drain_get:
  "store_ok s \<Longrightarrow> kv_get (entries (drain ps s)) k = kv_get (entries s) k \<or>
     (kv_get (entries (drain ps s)) k = None \<and> k \<in> pe_id ` set ps)"
proof (induction ps arbitrary: s)
  case (Cons p ps)
  show ?case using Cons.IH [OF del_ok [OF Cons.prems], of "pe_id p"] by (auto simp: del_spec split: if_splits)
qed simp

lemma drain_all:
  assumes "\<And>i s. fst (del i s)"
  shows "kv_get (entries (drain ps s)) k = (if k \<in> pe_id ` set ps then None else kv_get (entries s) k)"
  by (induction ps arbitrary: s) (auto simp: del_spec assms)

text \<open>A flush removes an event only after the server has answered the upload that holds it.\<close>

lemma flush_keeps:
  assumes "store_ok s" and up: "\<And>j s. snd (upload j s) = tick s"
    and got: "kv_get (entries s) k = Some v"
    and lost: "kv_get (entries (flush_with pend upload del key s)) k \<noteq> Some v"
  shows "kv_get (entries (flush_with pend upload del key s)) k = None
     \<and> fst (upload (json_map [(key, JArr (map (pe_payload \<circ> snd) (entries s)))]) (tick s)) = None"
proof -
  obtain r s1 where p: "pend s = (r, s1)" by (cases "pend s")
  then have s1: "s1 = tick s" and r: "r = None \<or> r = Some (map snd (entries s))"
    using pend_spec by blast+
  let ?j = "json_map [(key, JArr (map (pe_payload \<circ> snd) (entries s)))]"
  obtain u s2 where u: "upload ?j (tick s) = (u, s2)" by (cases "upload ?j (tick s)")
  have s2: "s2 = tick (tick s)" using up [of ?j "tick s"] u by simp
  have "entries s \<noteq> []" using got by (auto simp: kv_get_def)
  moreover have ok2: "store_ok s2" using assms(1) s2 by simp
  ultimately show ?thesis
    using lost got r p u s1 s2 drain_get [OF ok2, of "map snd (entries s)" k]
    by (auto simp: flush_with_def entries_tick split: option.splits)
qed

lemma flush_store_ok:
  assumes "store_ok s" and up: "\<And>j s. snd (upload j s) = tick s"
  shows "store_ok (flush_with pend upload del key s)"
proof -
  obtain r s1 where p: "pend s = (r, s1)" by (cases "pend s")
  then have s1: "store_ok s1" using pend_spec assms(1) by fastforce
  have s2: "store_ok s2" if "upload j s1 = (u, s2)" for j u s2
    using up [of j s1] that s1 by simp
  show ?thesis
    using p s1 by (auto simp: flush_with_def dest: s2 intro: drain_ok split: prod.splits option.splits)
qed

lemma flush_all:
  assumes "store_ok s" and "pend s = (Some (map snd (entries s)), tick s)"
    and "\<And>j s. upload j s = (None, tick s)" and "\<And>i s. fst (del i s)"
  shows "entries (flush_with pend upload del key s) = []"
proof -
  let ?ps = "map snd (entries s)"
  have ok: "bucket_ok pe_id (entries s)" using assms(1) by (rule entries_ok)
  have ids: "pe_id ` set ?ps = fst ` set (entries s)"
    using bucket_ok_keys [OF ok] by (metis list.map_comp set_map)
  have "kv_get (entries (drain ?ps (tick (tick s)))) k = None" for k
    unfolding drain_all [of ?ps, OF assms(4)] ids
    by (auto simp: entries_tick kv_get_def map_of_eq_None_iff)
  then have "entries (drain ?ps (tick (tick s))) = []"
    using kv.entries_eq_Nil [of "entries (drain ?ps (tick (tick s)))"]
      entries_ok [OF drain_ok, of "tick (tick s)" ?ps] assms(1) by (simp add: bucket_ok_inv)
  then show ?thesis
    using assms(2,3) by (auto simp: flush_with_def entries_tick)
qed

end

interpretation ex: event_buffer st_executions "save_execution E" "pending_executions E" "delete_execution E"
  for E
  by unfold_locales (auto simp: store_ok_def store_ops tx_defs tick_def split: if_splits)

interpretation me: event_buffer st_metrics "save_metric E" "pending_metrics E" "delete_metric E"
  for E
  by unfold_locales (auto simp: store_ok_def store_ops tx_defs tick_def split: if_splits)

lemma snd_batch [simp]: "snd (batch_executions E c j s) = tick s" "snd (batch_metrics E c j s) = tick s"
  by (simp_all add: client_calls)

text \<open>C7. A flush never drops an event the server has not answered for: an execution or metric that
  leaves the buffer was part of an upload that the server answered with a status below 400, and
  a failed transaction or upload leaves the buffer as it was.\<close>

theorem flush_never_drops:
  assumes "store_ok s"
  shows "(\<forall>k v. kv_get (st_executions s) k = Some v \<and> kv_get (st_executions (flush_executions E c s)) k \<noteq> Some v
        \<longrightarrow> fst (batch_executions E c
              (json_map [(''executions'', JArr (map (pe_payload \<circ> snd) (st_executions s)))]) (tick s)) = None)
    \<and> (\<forall>k v. kv_get (st_metrics s) k = Some v \<and> kv_get (st_metrics (flush_metrics E c s)) k \<noteq> Some v
        \<longrightarrow> fst (batch_metrics E c
              (json_map [(''metrics'', JArr (map (pe_payload \<circ> snd) (st_metrics s)))]) (tick s)) = None)"
  unfolding flush_executions_def flush_metrics_def
  using ex.flush_keeps [where upload = "batch_executions E c", OF assms snd_batch(1)]
    me.flush_keeps [where upload = "batch_metrics E c", OF assms snd_batch(2)] by blast

theorem flush_never_drops_witness:
  "let E = steady_env (Response 503 None); c = \<lparr>cl_base_url = [], cl_token = [], cl_host_id = []\<rparr>;
       s = buffer_execution E ''e1'' (Some JNull) empty_store
   in kv_get (st_executions (flush_executions E c s)) ''e1'' = kv_get (st_executions s) ''e1''
      \<and> kv_get (st_executions s) ''e1'' \<noteq> None"
proof -
  let ?E = "steady_env (Response 503 None)" and ?c = "\<lparr>cl_base_url = [], cl_token = [], cl_host_id = []\<rparr>"
  let ?s = "buffer_execution ?E ''e1'' (Some JNull) empty_store"
  have ok: "store_ok ?s" by (simp add: buffer_execution_def store_ok_ops)
  have get: "kv_get (st_executions ?s) ''e1'' = Some \<lparr>pe_id = ''e1'', pe_created_at = 0, pe_payload = JNull\<rparr>"
    by (simp add: buffer_execution_def save_execution_def tx_defs must_marshal_def)
  have "fst (batch_executions ?E ?c j s) \<noteq> None" for j s
    by (simp add: client_calls post_ok_iff)
  then show ?thesis unfolding Let_def
    using flush_never_drops [OF ok, of ?E ?c] get by (metis option.distinct(1))
qed

text \<open>When the transactions go through and the server accepts the uploads, a flush leaves the buffer empty.\<close>

theorem flush_drains:
  assumes "store_ok s" and "\<And>n. ev_tx E n"
    and "\<And>n q. \<exists>status b. ev_http E n q = Response status b \<and> status < 400"
  shows "st_executions (flush_executions E c s) = [] \<and> st_metrics (flush_metrics E c s) = []"
proof -
  have "batch_executions E c j s = (None, tick s)" "batch_metrics E c j s = (None, tick s)" for j s
    using assms(3) by (simp_all add: client_calls prod_eq_iff post_ok_iff)
  then show ?thesis unfolding flush_executions_def flush_metrics_def
    using assms by (intro conjI ex.flush_all me.flush_all) (simp_all add: store_ops tx_defs)
qed

theorem flush_drains_witness:
  "st_executions (flush_executions (steady_env (Response 202 None)) \<lparr>cl_base_url = [], cl_token = [], cl_host_id = []\<rparr>
     (buffer_execution (steady_env (Response 202 None)) ''e1'' (Some JNull) empty_store)) = []"
  using flush_drains [of "buffer_execution (steady_env (Response 202 None)) ''e1'' (Some JNull) empty_store"
      "steady_env (Response 202 None)" "\<lparr>cl_base_url = [], cl_token = [], cl_host_id = []\<rparr>"]
  by (simp add: buffer_execution_def store_ok_ops)

section \<open>Concurrent flushes\<close>

text \<open>
  The main loop and the goroutine of each remote command buffer and flush executions on one
  state file. A flush in flight has read its events and waits for the answer, or deletes what
  it uploaded one transaction after the other. A request that fails may still have reached the
  server. \<open>fw_log\<close> records what was buffered and \<open>fw_server\<close> what the server received; identifiers
  are fresh UUIDs, so an identifier is buffered once.
\<close>

datatype flight = Uploading "pending_event list" | Deleting "pending_event list"

record flush_world =
  fw_store :: store
  fw_flights :: "flight list"
  fw_server :: "json list"
  fw_log :: "(string \<times> json) set"

inductive flush_step :: "client \<Rightarrow> flush_world \<Rightarrow> flush_world \<Rightarrow> bool" for c where
  step_buffer: "save_execution E i p (fw_store w) = (ok, s') \<Longrightarrow> i \<notin> fst ` fw_log w \<Longrightarrow>
     flush_step c w (w\<lparr>fw_store := s',
       fw_log := (if ok then insert (i, must_marshal p) (fw_log w) else fw_log w)\<rparr>)"
| step_start: "pending_executions E (fw_store w) = (Some ps, s') \<Longrightarrow> ps \<noteq> [] \<Longrightarrow>
     flush_step c w (w\<lparr>fw_store := s', fw_flights := fw_flights w @ [Uploading ps]\<rparr>)"
| step_answered: "fw_flights w = fs @ Uploading ps # gs \<Longrightarrow>
     batch_executions E c (json_map [(''executions'', JArr (map pe_payload ps))]) (fw_store w) = (None, s') \<Longrightarrow>
     flush_step c w (w\<lparr>fw_store := s', fw_flights := fs @ Deleting ps # gs,
       fw_server := fw_server w @ map pe_payload ps\<rparr>)"
| step_failed: "fw_flights w = fs @ Uploading ps # gs \<Longrightarrow>
     batch_executions E c (json_map [(''executions'', JArr (map pe_payload ps))]) (fw_store w) = (Some e, s') \<Longrightarrow>
     received = [] \<or> received = map pe_payload ps \<Longrightarrow>
     flush_step c w (w\<lparr>fw_store := s', fw_flights := fs @ gs, fw_server := fw_server w @ received\<rparr>)"
| step_delete: "fw_flights w = fs @ Deleting (p # ps) # gs \<Longrightarrow>
     delete_execution E (pe_id p) (fw_store w) = (ok, s') \<Longrightarrow>
     flush_step c w (w\<lparr>fw_store := s', fw_flights := fs @ Deleting ps # gs\<rparr>)"
| step_done: "fw_flights w = fs @ Deleting [] # gs \<Longrightarrow>
     flush_step c w (w\<lparr>fw_flights := fs @ gs\<rparr>)"

inductive flush_reachable :: "client \<Rightarrow> flush_world \<Rightarrow> flush_world \<Rightarrow> bool" for c w0 where
  reach_init: "flush_reachable c w0 w0"
| reach_step: "flush_reachable c w0 w \<Longrightarrow> flush_step c w w' \<Longrightarrow> flush_reachable c w0 w'"

inductive_cases flush_stepE: "flush_step c w w'"

definition start_world :: flush_world where
  "start_world = \<lparr>fw_store = empty_store, fw_flights = [], fw_server = [], fw_log = {}\<rparr>"

definition flight_events :: "flight \<Rightarrow> pending_event set" where
  "flight_events f = (case f of Uploading ps \<Rightarrow> set ps | Deleting ps \<Rightarrow> set ps)"

definition uploaded_events :: "flight \<Rightarrow> pending_event set" where
  "uploaded_events f = (case f of Uploading ps \<Rightarrow> {} | Deleting ps \<Rightarrow> set ps)"

lemma flight_events_simps [simp]:
  "flight_events (Uploading ps) = set ps" "flight_events (Deleting ps) = set ps"
  "uploaded_events (Uploading ps) = {}" "uploaded_events (Deleting ps) = set ps"
  by (simp_all add: flight_events_def uploaded_events_def)

text \<open>What is buffered was logged under its identifier, and what was logged is buffered or received;
  what is in flight was logged, and what is being deleted has been received.\<close>

definition events_ok :: "(string \<rightharpoonup> pending_event) \<Rightarrow> (string \<times> json) set \<Rightarrow> json list \<Rightarrow> bool" where
  "events_ok m L S \<longleftrightarrow> (\<forall>i j k. (i, j) \<in> L \<and> (i, k) \<in> L \<longrightarrow> j = k)
     \<and> (\<forall>i v. m i = Some v \<longrightarrow> (i, pe_payload v) \<in> L)
     \<and> (\<forall>i j. (i, j) \<in> L \<longrightarrow> m i \<noteq> None \<or> j \<in> set S)"

definition flight_ok :: "(string \<times> json) set \<Rightarrow> json list \<Rightarrow> flight \<Rightarrow> bool" where
  "flight_ok L S f \<longleftrightarrow> (\<forall>p \<in> flight_events f. (pe_id p, pe_payload p) \<in> L)
     \<and> (\<forall>p \<in> uploaded_events f. pe_payload p \<in> set S)"

definition flights_ok :: "flight list \<Rightarrow> (string \<times> json) set \<Rightarrow> json list \<Rightarrow> bool" where
  "flights_ok fs L S \<longleftrightarrow> list_all (flight_ok L S) fs"

definition flush_inv :: "flush_world \<Rightarrow> bool" where
  "flush_inv w \<longleftrightarrow> store_ok (fw_store w)
     \<and> events_ok (kv_get (st_executions (fw_store w))) (fw_log w) (fw_server w)
     \<and> flights_ok (fw_flights w) (fw_log w) (fw_server w)"

lemma events_ok_insert:
  assumes "events_ok m L S" and "i \<notin> fst ` L"
  shows "events_ok (m(i \<mapsto> v)) (insert (i, pe_payload v) L) S"
proof -
  have "(i, j) \<notin> L" for j using assms(2) by force
  then show ?thesis using assms(1) by (auto simp: events_ok_def)
qed

lemma events_ok_delete:
  assumes "events_ok m L S" and "(i, j) \<in> L" and "j \<in> set S"
  shows "events_ok (m(i := None)) L S"
  using assms unfolding events_ok_def by (metis fun_upd_apply option.distinct(1))

lemma events_ok_mono: "events_ok m L S \<Longrightarrow> events_ok m L (S @ T)"
  by (auto simp: events_ok_def)

lemma flights_ok_mono: "flights_ok fs L S \<Longrightarrow> L \<subseteq> M \<Longrightarrow> flights_ok fs M (S @ T)"
  unfolding flights_ok_def by (erule list.pred_mono_strong) (auto simp: flight_ok_def)

lemma flights_ok_parts [simp]:
  "flights_ok [] L S" "flights_ok (f # fs) L S \<longleftrightarrow> flight_ok L S f \<and> flights_ok fs L S"
  "flights_ok (fs @ gs) L S \<longleftrightarrow> flights_ok fs L S \<and> flights_ok gs L S"
  by (simp_all add: flights_ok_def)

lemma kv_get_put_fun: "kv_get (kv_put k v kvs) = (kv_get kvs)(k \<mapsto> v)"
  and kv_get_del_fun: "kv_get (kv_del k kvs) = (kv_get kvs)(k := None)"
  by (auto simp: fun_eq_iff)

lemma flush_inv_init: "flush_inv start_world"
  by (simp add: flush_inv_def events_ok_def flights_ok_def start_world_def empty_store_def store_ok_def kv_get_def)

lemma pending_events_logged:
  assumes "flush_inv w" and "pending_executions E (fw_store w) = (Some ps, s')" and "p \<in> set ps"
  shows "(pe_id p, pe_payload p) \<in> fw_log w"
proof -
  have ok: "bucket_ok pe_id (st_executions (fw_store w))"
    using assms(1) by (simp add: flush_inv_def store_ok_def)
  obtain k where k: "(k, p) \<in> set (st_executions (fw_store w))"
    using assms(2,3) by (auto simp: pending_executions_def tx_defs split: if_splits)
  then have get: "kv_get (st_executions (fw_store w)) k = Some p"
    using bucket_ok_inv [OF ok] by (simp add: kv_get_entries)
  then show ?thesis using assms(1) bucket_ok_get [OF ok get] by (simp add: flush_inv_def events_ok_def)
qed

lemma step_buffer_inv:
  assumes inv: "flush_inv w" and save: "save_execution E i p (fw_store w) = (ok, s')"
    and fresh: "i \<notin> fst ` fw_log w"
  shows "flush_inv (w\<lparr>fw_store := s',
       fw_log := (if ok then insert (i, must_marshal p) (fw_log w) else fw_log w)\<rparr>)"
proof -
  let ?v = "\<lparr>pe_id = i, pe_created_at = ev_now E (st_tick (fw_store w)), pe_payload = must_marshal p\<rparr>"
  have s': "st_executions s' = (if ok then kv_put i ?v (st_executions (fw_store w)) else st_executions (fw_store w))"
    using save by (auto simp: save_execution_def tx_defs split: if_splits)
  have "store_ok s'" using inv store_ok_ops(1) [of "fw_store w" E i p] save by (simp add: flush_inv_def)
  moreover have "flights_ok (fw_flights w) (insert x (fw_log w)) (fw_server w)" for x
    using inv flights_ok_mono [of _ _ _ _ "[]", simplified] by (blast dest: flush_inv_def [THEN iffD1])
  ultimately show ?thesis
    using inv events_ok_insert [OF _ fresh, of _ _ ?v] unfolding flush_inv_def
    by (cases ok) (simp_all add: s' kv_get_put_fun)
qed

lemma step_delete_inv:
  assumes inv: "flush_inv w" and fl: "fw_flights w = fs @ Deleting (p # ps) # gs"
    and del: "delete_execution E (pe_id p) (fw_store w) = (ok, s')"
  shows "flush_inv (w\<lparr>fw_store := s', fw_flights := fs @ Deleting ps # gs\<rparr>)"
proof -
  have s': "st_executions s' = (if ok then kv_del (pe_id p) (st_executions (fw_store w))
      else st_executions (fw_store w))"
    using del by (auto simp: delete_execution_def tx_defs split: if_splits)
  have ok: "store_ok s'" using inv store_ok_ops(5) [of "fw_store w" E "pe_id p"] del by (simp add: flush_inv_def)
  have "flights_ok (fs @ Deleting (p # ps) # gs) (fw_log w) (fw_server w)"
    using inv fl by (simp add: flush_inv_def)
  then have "(pe_id p, pe_payload p) \<in> fw_log w" "pe_payload p \<in> set (fw_server w)"
    and fl': "flights_ok (fs @ Deleting ps # gs) (fw_log w) (fw_server w)"
    by (auto simp: flight_ok_def)
  moreover have "events_ok (kv_get (st_executions (fw_store w))) (fw_log w) (fw_server w)"
    using inv by (simp add: flush_inv_def)
  ultimately have "events_ok (kv_get (st_executions s')) (fw_log w) (fw_server w)"
    using events_ok_delete by (simp add: s' kv_get_del_fun)
  then show ?thesis using ok fl' by (simp add: flush_inv_def)
qed

lemma step_upload_inv:
  assumes inv: "flush_inv w" and fl: "fw_flights w = fs @ Uploading ps # gs"
    and up: "batch_executions E c j (fw_store w) = (r, s')"
  shows "flush_inv (w\<lparr>fw_store := s', fw_flights := fs @ gs, fw_server := fw_server w @ received\<rparr>)"
    and "flush_inv (w\<lparr>fw_store := s', fw_flights := fs @ Deleting ps # gs,
           fw_server := fw_server w @ map pe_payload ps\<rparr>)"
proof -
  have s': "s' = tick (fw_store w)" using up snd_batch(1) by (metis snd_conv)
  have "flights_ok (fs @ Uploading ps # gs) (fw_log w) (fw_server w)" using inv fl by (simp add: flush_inv_def)
  then have fs: "flights_ok fs (fw_log w) (fw_server w @ T)" "flights_ok gs (fw_log w) (fw_server w @ T)"
    and ps: "\<forall>p \<in> set ps. (pe_id p, pe_payload p) \<in> fw_log w" for T
    by (auto intro: flights_ok_mono) (auto simp: flight_ok_def)
  have ev: "events_ok (kv_get (st_executions (fw_store w))) (fw_log w) (fw_server w @ T)" for T
    using inv by (simp add: flush_inv_def events_ok_mono)
  have ok: "store_ok (fw_store w)" using inv by (simp add: flush_inv_def)
  show "flush_inv (w\<lparr>fw_store := s', fw_flights := fs @ gs, fw_server := fw_server w @ received\<rparr>)"
    using fs ev ok by (simp add: flush_inv_def s')
  have "flight_ok (fw_log w) (fw_server w @ map pe_payload ps) (Deleting ps)"
    using ps by (simp add: flight_ok_def)
  then show "flush_inv (w\<lparr>fw_store := s', fw_flights := fs @ Deleting ps # gs,
           fw_server := fw_server w @ map pe_payload ps\<rparr>)"
    using fs ev ok by (simp add: flush_inv_def s')
qed

lemma step_start_inv:
  assumes inv: "flush_inv w" and pend: "pending_executions E (fw_store w) = (Some ps, s')"
  shows "flush_inv (w\<lparr>fw_store := s', fw_flights := fw_flights w @ [Uploading ps]\<rparr>)"
proof -
  have "s' = tick (fw_store w)" using pend by (simp add: pending_executions_def tx_defs)
  moreover have "flight_ok (fw_log w) (fw_server w) (Uploading ps)"
    using pending_events_logged [OF inv pend] by (simp add: flight_ok_def)
  ultimately show ?thesis using inv by (simp add: flush_inv_def)
qed

lemma flush_inv_step: "flush_step c w w' \<Longrightarrow> flush_inv w \<Longrightarrow> flush_inv w'"
proof (induction rule: flush_step.induct)
  case (step_done w fs gs)
  then show ?case by (simp add: flush_inv_def)
qed (blast intro: step_buffer_inv step_start_inv step_upload_inv step_delete_inv)+

lemma flush_inv_reachable: "flush_reachable c start_world w \<Longrightarrow> flush_inv w"
  by (induction rule: flush_reachable.induct) (auto intro: flush_inv_init flush_inv_step)

text \<open>C14. However flushes, saves and deletes interleave, and whatever transactions and requests fail, an
  execution that was saved is in the state file or was received by the server.\<close>

theorem no_event_lost:
  assumes "flush_reachable c start_world w" and "(i, j) \<in> fw_log w"
  shows "(\<exists>v. kv_get (st_executions (fw_store w)) i = Some v \<and> pe_payload v = j) \<or> j \<in> set (fw_server w)"
proof -
  have inv: "flush_inv w" using assms(1) by (rule flush_inv_reachable)
  then have "kv_get (st_executions (fw_store w)) i \<noteq> None \<or> j \<in> set (fw_server w)"
    using assms(2) by (simp add: flush_inv_def events_ok_def)
  moreover have "pe_payload v = j" if "kv_get (st_executions (fw_store w)) i = Some v" for v
    using inv assms(2) that unfolding flush_inv_def events_ok_def by blast
  ultimately show ?thesis by blast
qed

text \<open>A run of two overlapping flushes: both read the event before either deletes it.\<close>

lemma overlapping_flushes:
  fixes c :: client and j :: json
  defines "E \<equiv> steady_env (Response 202 None)"
  defines "w1 \<equiv> start_world\<lparr>fw_store := snd (save_execution E ''e1'' (Some j) empty_store), fw_log := {(''e1'', j)}\<rparr>"
  defines "ps \<equiv> [\<lparr>pe_id = ''e1'', pe_created_at = 0, pe_payload = j\<rparr>]"
  defines "w \<equiv> (\<lambda>n fl sv. \<lparr>fw_store = (tick ^^ n) (fw_store w1), fw_flights = fl,
     fw_server = sv, fw_log = {(''e1'', j)}\<rparr>)"
  shows "flush_reachable c start_world (w 4 [Deleting ps, Deleting ps] [j, j])"
proof -
  have ex: "st_executions ((tick ^^ n) (fw_store w1)) = [(''e1'', hd ps)]" for n
    by (induction n) (simp_all add: w1_def E_def ps_def save_execution_def tx_defs must_marshal_def empty_store_def)
  have start: "pending_executions E (fw_store (w n fl sv)) = (Some ps, (tick ^^ Suc n) (fw_store w1))" for n fl sv
    using ex [of n] by (simp add: w_def E_def pending_executions_def tx_defs) (simp add: ps_def)
  have up: "batch_executions E c b (fw_store (w n fl sv)) = (None, (tick ^^ Suc n) (fw_store w1))" for n fl sv b
    by (simp add: w_def E_def client_calls prod_eq_iff post_ok_iff)
  have "flush_step c start_world w1"
    using step_buffer [of E "''e1''" "Some j" start_world True "fw_store w1" c]
    by (simp add: w1_def E_def save_execution_def tx_defs start_world_def must_marshal_def)
  then have r0: "flush_reachable c start_world (w 0 [] [])"
    using reach_step [OF reach_init] by (simp add: w_def w1_def start_world_def)
  have s1: "flush_step c (w 0 [] []) (w 1 [Uploading ps] [])"
    using step_start [OF start, of c 0 "[]" "[]"] by (simp add: w_def ps_def)
  have s2: "flush_step c (w 1 [Uploading ps] []) (w 2 [Uploading ps, Uploading ps] [])"
    using step_start [OF start, of c 1 "[Uploading ps]" "[]"] by (simp add: w_def ps_def numeral_2_eq_2)
  have s3: "flush_step c (w 2 [Uploading ps, Uploading ps] []) (w 3 [Deleting ps, Uploading ps] [j])"
    using step_answered [of "w 2 [Uploading ps, Uploading ps] []" "[]" ps "[Uploading ps]" E c, OF _ up]
    by (simp add: w_def ps_def numeral_3_eq_3 numeral_2_eq_2)
  have s4: "flush_step c (w 3 [Deleting ps, Uploading ps] [j]) (w 4 [Deleting ps, Deleting ps] [j, j])"
    using step_answered [of "w 3 [Deleting ps, Uploading ps] [j]" "[Deleting ps]" ps "[]" E c, OF _ up]
    by (simp add: w_def ps_def eval_nat_numeral)
  show ?thesis using r0 s1 s2 s3 s4 by (blast intro: reach_step)
qed


theorem no_event_lost_witness:
  "\<exists>w. flush_reachable \<lparr>cl_base_url = [], cl_token = [], cl_host_id = []\<rparr> start_world w \<and> (''e1'', JNull) \<in> fw_log w
     \<and> ((\<exists>v. kv_get (st_executions (fw_store w)) ''e1'' = Some v \<and> pe_payload v = JNull) \<or> JNull \<in> set (fw_server w))"
  using no_event_lost [OF overlapping_flushes [of "\<lparr>cl_base_url = [], cl_token = [], cl_host_id = []\<rparr>" JNull], of "''e1''" JNull]
    overlapping_flushes [of "\<lparr>cl_base_url = [], cl_token = [], cl_host_id = []\<rparr>" JNull]
  by (intro exI conjI) auto

end
