(* ===== verification/AgentApp.thy ===== *)
theory AgentApp
  imports Reporter Process MailSpool Probes "HOL-Library.Multiset"
begin

text \<open>
  The agent's main object and its handlers (\<open>apps/agent/internal/app/app.go\<close>). The state is the
  record \<open>agent\<close>: the state file, the known jobs and the executions in progress. Go visits a map
  in an order of its own choosing; \<open>ap_jobs_order\<close> and \<open>ap_active_order\<close> choose it. A handler runs to
  its end before the next one; the goroutine of a remote command is one more handler, and the
  interleaving of its uploads with others is the step relation of theory Reporter.
\<close>

section \<open>State\<close>

record active_execution =
  ae_local_id :: string
  ae_job_hash :: string
  ae_command :: string
  ae_schedule :: string
  ae_started_at :: time
  ae_confidence :: real
  ae_pid :: int

datatype shell_result =
    Shell_Ok string
  | Shell_Exit int string string
  | Shell_Error string string

record app_env =
  ap_outside :: agent_env
  ap_sha :: "string \<Rightarrow> string"
  ap_quote :: "string \<Rightarrow> string"
  ap_files :: "nat \<Rightarrow> os_files"
  ap_procs :: "nat \<Rightarrow> proc_table"
  ap_mail :: "nat \<Rightarrow> mail_env"
  ap_spool :: "nat \<Rightarrow> string \<Rightarrow> mail_file"
  ap_probes :: "nat \<Rightarrow> nat \<Rightarrow> probe_env"
  ap_shell :: "nat \<Rightarrow> string \<Rightarrow> shell_result"
  ap_jobs_order :: "nat \<Rightarrow> (string \<times> discovered_job) list \<Rightarrow> (string \<times> discovered_job) list"
  ap_active_order :: "nat \<Rightarrow> (int \<times> active_execution) list \<Rightarrow> (int \<times> active_execution) list"
  ap_parse_duration :: "string \<Rightarrow> duration option"

record agent =
  ag_cfg :: config
  ag_client :: client
  ag_scanner :: cron_scanner
  ag_store :: store
  ag_known :: "(string \<times> discovered_job) list"
  ag_active :: "(int \<times> active_execution) list"

abbreviation ag_tick :: "agent \<Rightarrow> nat" where
  "ag_tick a \<equiv> st_tick (ag_store a)"

text \<open>Threading the state file through a sub-operation.\<close>

definition on_store :: "(store \<Rightarrow> 'a \<times> store) \<Rightarrow> agent \<Rightarrow> 'a \<times> agent" where
  "on_store f a = (case f (ag_store a) of (r, s) \<Rightarrow> (r, a\<lparr>ag_store := s\<rparr>))"

section \<open>Helpers\<close>

definition parse_duration :: "(string \<Rightarrow> duration option) \<Rightarrow> string \<Rightarrow> duration \<Rightarrow> duration" where
  "parse_duration parse s fallback =
     (if s = [] then fallback else (case parse s of None \<Rightarrow> fallback | Some d \<Rightarrow> d))"

definition seconds_of :: "duration \<Rightarrow> real" where
  "seconds_of d = of_int d / 1000000000"

fun state_dir_from :: "(char \<Rightarrow> bool) \<Rightarrow> string \<Rightarrow> string" where
  "state_dir_from sep [] = ''.''"
| "state_dir_from sep (c # rev_path) = (if sep c then rev rev_path else state_dir_from sep rev_path)"

definition state_fil_dir :: "string \<Rightarrow> string" where
  "state_fil_dir path = state_dir_from (\<lambda>c. c = CHR ''/'' \<or> c = CHR 0x5C) (rev path)"

definition discovery_item :: "discovered_job \<Rightarrow> json" where
  "discovery_item j = json_map
     [(''source_type'', JStr (dj_source_type j)), (''schedule'', JStr (dj_schedule j)),
      (''timezone'', JStr (dj_timezone j)), (''user'', JStr (dj_user j)),
      (''raw_command'', JStr (dj_raw_command j)), (''normalized_command'', JStr (dj_normalized_command j)),
      (''command_hash'', JStr (dj_command_hash j)), (''enabled'', JBool (dj_enabled j)),
      (''source_file'', JStr (dj_source_file j))]"

definition to_discovery_payload :: "discovered_job list \<Rightarrow> json" where
  "to_discovery_payload jobs = JArr (map discovery_item jobs)"

definition known_jobs_for_match :: "(string \<times> discovered_job) list \<Rightarrow> (string \<times> string) list" where
  "known_jobs_for_match known = map (\<lambda>(h, j). (h, dj_normalized_command j)) known"

section \<open>Handlers\<close>

definition send_heartbeat :: "app_env \<Rightarrow> agent \<Rightarrow> agent" where
  "send_heartbeat A a = snd (on_store (heartbeat (ap_outside A) (ag_client a) []) a)"

definition stored_job_of :: "discovered_job \<Rightarrow> stored_job" where
  "stored_job_of j =
     \<lparr>sj_command_hash = dj_command_hash j, sj_schedule = dj_schedule j, sj_timezone = dj_timezone j,
      sj_user = dj_user j, sj_raw_command = dj_raw_command j,
      sj_normalized_command = dj_normalized_command j, sj_source_file = dj_source_file j,
      sj_updated_at = zero_time\<rparr>"

definition record_job :: "app_env \<Rightarrow> discovered_job \<Rightarrow> agent \<Rightarrow> agent" where
  "record_job A j a =
     snd (on_store (save_job (ap_outside A) (stored_job_of j))
       (a\<lparr>ag_known := kv_put (dj_command_hash j) j (ag_known a)\<rparr>))"

definition run_discovery :: "app_env \<Rightarrow> agent \<Rightarrow> agent" where
  "run_discovery A a =
     (let jobs = scan (ap_sha A) (ap_files A (ag_tick a)) (ag_scanner a);
          a = fold (record_job A) jobs a
      in snd (on_store (submit_discovery (ap_outside A) (ag_client a)
                (json_map [(''jobs'', to_discovery_payload jobs)])) a))"

definition save_run :: "app_env \<Rightarrow> local_execution \<Rightarrow> agent \<Rightarrow> agent" where
  "save_run A r a = snd (on_store (save_local_execution (ap_outside A) r) a)"

definition buffer_event :: "app_env \<Rightarrow> string \<Rightarrow> json \<Rightarrow> agent \<Rightarrow> agent" where
  "buffer_event A i ev a = a\<lparr>ag_store := buffer_execution (ap_outside A) i (Some ev) (ag_store a)\<rparr>"

definition running_record :: "string \<Rightarrow> matched_process \<Rightarrow> discovered_job \<Rightarrow> local_execution" where
  "running_record i m job =
     \<lparr>le_id = i, le_job_id = [], le_command_hash = mp_job_hash m, le_command = dj_raw_command job,
      le_schedule = dj_schedule job, le_status = ''running'', le_trigger = ''detected-process'',
      le_confidence = mp_confidence m, le_started_at = ps_create_time (mp_process m),
      le_finished_at = None, le_duration_seconds = None, le_pid = Some (ps_pid (mp_process m)),
      le_exit_code = None,
      le_evidence = json_map [(''ppid'', JNum (of_int (ps_ppid (mp_process m)))), (''note'', JStr (mp_evidence m))],
      le_last_updated_at = zero_time\<rparr>"

definition running_event :: "matched_process \<Rightarrow> json" where
  "running_event m = json_map
     [(''command_hash'', JStr (mp_job_hash m)),
      (''detected_started_at'', rfc3339 (ps_create_time (mp_process m))),
      (''status'', JStr ''running''), (''confidence_score'', JNum (mp_confidence m)),
      (''detection_sources'', JArr [JStr ''process'']),
      (''evidence'', json_map [(''pid'', JNum (of_int (ps_pid (mp_process m)))),
         (''ppid'', JNum (of_int (ps_ppid (mp_process m)))), (''note'', JStr (mp_evidence m))])]"

definition start_active :: "app_env \<Rightarrow> matched_process \<Rightarrow> agent \<Rightarrow> agent" where
  "start_active A m a =
     (let pid = ps_pid (mp_process m) in
      if kv_get (ag_active a) pid \<noteq> None then a
      else (case kv_get (ag_known a) (mp_job_hash m) of
              None \<Rightarrow> a
            | Some job \<Rightarrow>
                (case on_store (new_uuid (ap_outside A)) a of
                   (i, a) \<Rightarrow>
                     (let a = a\<lparr>ag_active := kv_put pid
                            \<lparr>ae_local_id = i, ae_job_hash = mp_job_hash m, ae_command = dj_raw_command job,
                             ae_schedule = dj_schedule job, ae_started_at = ps_create_time (mp_process m),
                             ae_confidence = mp_confidence m, ae_pid = pid\<rparr> (ag_active a)\<rparr>
                      in buffer_event A i (running_event m) (save_run A (running_record i m job) a)))))"

definition finished_record :: "active_execution \<Rightarrow> time \<Rightarrow> local_execution" where
  "finished_record ac now =
     \<lparr>le_id = ae_local_id ac, le_job_id = [], le_command_hash = ae_job_hash ac, le_command = ae_command ac,
      le_schedule = ae_schedule ac, le_status = ''partial'', le_trigger = ''detected-process'',
      le_confidence = ae_confidence ac, le_started_at = ae_started_at ac, le_finished_at = Some now,
      le_duration_seconds = Some (seconds_of (time_sub now (ae_started_at ac))), le_pid = None,
      le_exit_code = None,
      le_evidence = json_map [(''note'', JStr ''process disappeared; completion inferred'')],
      le_last_updated_at = zero_time\<rparr>"

definition completion_event :: "active_execution \<Rightarrow> time \<Rightarrow> json" where
  "completion_event ac now = json_map
     [(''command_hash'', JStr (ae_job_hash ac)), (''detected_started_at'', rfc3339 (ae_started_at ac)),
      (''detected_finished_at'', rfc3339 now),
      (''duration_seconds'', JNum (seconds_of (time_sub now (ae_started_at ac)))),
      (''status'', JStr ''partial''), (''confidence_score'', JNum (ae_confidence ac)),
      (''detection_sources'', JArr [JStr ''process'']),
      (''evidence'', json_map [(''note'', JStr ''process disappeared; completion inferred'')])]"

definition finish_active :: "app_env \<Rightarrow> time \<Rightarrow> int list \<Rightarrow> int \<times> active_execution \<Rightarrow> agent \<Rightarrow> agent" where
  "finish_active A now current pa a =
     (case pa of (pid, ac) \<Rightarrow>
        if pid \<in> set current then a
        else (let a = save_run A (finished_record ac now) a in
              case on_store (new_uuid (ap_outside A)) a of
                (i, a) \<Rightarrow>
                  (let a = buffer_event A i (completion_event ac now) a
                   in a\<lparr>ag_active := kv_del pid (ag_active a)\<rparr>)))"

text \<open>\<open>None\<close> is the panic of the matcher on a blank job command.\<close>

definition run_process_scan :: "app_env \<Rightarrow> agent \<Rightarrow> agent option" where
  "run_process_scan A a =
     (case scan_processes (ap_procs A (ag_tick a)) of
        None \<Rightarrow> Some a
      | Some snaps \<Rightarrow>
          (case match_jobs (ap_quote A) snaps
                  (\<lambda>n. known_jobs_for_match (ap_jobs_order A n (ag_known a))) of
             None \<Rightarrow> None
           | Some matched \<Rightarrow>
               (let current = map (ps_pid \<circ> mp_process) matched;
                    a = fold (start_active A) matched a
                in case on_store (clock (ap_outside A)) a of
                     (now, a) \<Rightarrow>
                       Some (fold (finish_active A now current)
                         (ap_active_order A (ag_tick a) (ag_active a)) a))))"

definition metric_event :: "probe_result \<Rightarrow> json option" where
  "metric_event r =
     (case float_json (pr_value r) of
        None \<Rightarrow> None
      | Some v \<Rightarrow> Some (json_map
          [(''metric_name'', JStr (pr_name r)), (''metric_type'', JStr (pr_type r)), (''value'', v),
           (''measured_at'', rfc3339 (pr_measured_at r)), (''status'', JStr (pr_status r)),
           (''evidence'', pr_evidence r)]))"

definition buffer_result :: "app_env \<Rightarrow> probe_result \<Rightarrow> agent \<Rightarrow> agent" where
  "buffer_result A r a =
     (case on_store (new_uuid (ap_outside A)) a of
        (i, a) \<Rightarrow> a\<lparr>ag_store := buffer_metric (ap_outside A) i (metric_event r) (ag_store a)\<rparr>)"

definition run_probes :: "app_env \<Rightarrow> agent \<Rightarrow> agent" where
  "run_probes A a = fold (buffer_result A) (run_all (ap_probes A (ag_tick a)) (cfg_probes (ag_cfg a))) a"

text \<open>\<open>pollCommands\<close> starts a goroutine for each claimed command; the result is their commands.\<close>

definition poll_commands :: "app_env \<Rightarrow> agent \<Rightarrow> run_command option list \<times> agent" where
  "poll_commands A a =
     (case on_store (claim_run_commands (ap_outside A) (ag_client a) ''10'') a of
        (Inl e, a) \<Rightarrow> ([], a)
      | (Inr cmds, a) \<Rightarrow> (cmds, a))"

fun shell_status :: "shell_result \<Rightarrow> string \<times> string \<times> int option \<times> string" where
  "shell_status (Shell_Ok out) = (''success'', ''completed'', Some 0, out)"
| "shell_status (Shell_Exit code msg out) = (''failed'', msg, Some code, out)"
| "shell_status (Shell_Error msg out) = (''failed'', msg, None, out)"

definition command_running_record :: "string \<Rightarrow> run_command \<Rightarrow> time \<Rightarrow> local_execution" where
  "command_running_record i cmd started =
     \<lparr>le_id = i, le_job_id = rc_job_id cmd, le_command_hash = rc_command_hash cmd,
      le_command = rc_raw_command cmd, le_schedule = rc_schedule cmd, le_status = ''running'',
      le_trigger = ''server-triggered'', le_confidence = 0, le_started_at = started,
      le_finished_at = None, le_duration_seconds = None, le_pid = None, le_exit_code = None,
      le_evidence = json_map [(''command_id'', JStr (rc_id cmd)), (''requested_at'', JTime (rc_requested_at cmd))],
      le_last_updated_at = zero_time\<rparr>"

definition command_event ::
  "run_command \<Rightarrow> time \<Rightarrow> time \<Rightarrow> string \<Rightarrow> int option \<Rightarrow> string \<Rightarrow> json" where
  "command_event cmd started finished status code output = json_map
     [(''job_id'', JStr (rc_job_id cmd)), (''command_hash'', JStr (rc_command_hash cmd)),
      (''detected_started_at'', rfc3339 started), (''detected_finished_at'', rfc3339 finished),
      (''duration_seconds'', JNum (seconds_of (time_sub finished started))), (''status'', JStr status),
      (''confidence_score'', JNum 1), (''detection_sources'', JArr [JStr ''remote_command'']),
      (''output_text'', JStr (truncate_string output 4000)),
      (''evidence'', json_map [(''command_id'', JStr (rc_id cmd)), (''exit_code'', exit_code_value code)])]"

text \<open>The goroutine of one command; dereferencing a nil command is a panic.\<close>

definition execute_command :: "app_env \<Rightarrow> run_command \<Rightarrow> agent \<Rightarrow> agent" where
  "execute_command A cmd a =
     (case on_store (clock (ap_outside A)) a of (started, a) \<Rightarrow>
      case on_store (new_uuid (ap_outside A)) a of (local_id, a) \<Rightarrow>
      let a = save_run A (command_running_record local_id cmd started) a in
      case shell_status (ap_shell A (ag_tick a) (rc_raw_command cmd)) of (status, message, code, output) \<Rightarrow>
      case on_store (clock (ap_outside A)) a of (finished, a) \<Rightarrow>
      let a = save_run A ((command_running_record local_id cmd started)
            \<lparr>le_status := status, le_finished_at := Some finished,
             le_duration_seconds := Some (seconds_of (time_sub finished started)), le_exit_code := code,
             le_evidence := json_map [(''command_id'', JStr (rc_id cmd))]\<rparr>) a in
      case on_store (new_uuid (ap_outside A)) a of (i, a) \<Rightarrow>
      let a = buffer_event A i (command_event cmd started finished status code output) a;
          a = a\<lparr>ag_store := flush_executions (ap_outside A) (ag_client a) (ag_store a)\<rparr>
      in snd (on_store (complete_run_command (ap_outside A) (ag_client a) (rc_id cmd)
                 status message started finished code) a))"

definition execute_run_command :: "app_env \<Rightarrow> run_command option \<Rightarrow> agent \<Rightarrow> agent option" where
  "execute_run_command A cmd a = map_option (\<lambda>c. execute_command A c a) cmd"

fun mail_job :: "string \<Rightarrow> (string \<times> discovered_job) list \<Rightarrow> string" where
  "mail_job command [] = []"
| "mail_job command ((h, j) # jobs) =
     (if contains command (dj_normalized_command j) \<or> contains (dj_normalized_command j) command
         \<or> equal_fold (trim_space command) (trim_space (dj_raw_command j))
      then h else mail_job command jobs)"

definition mail_event :: "cron_mail \<Rightarrow> string \<Rightarrow> json" where
  "mail_event msg h = json_map
     ([(''detected_started_at'', rfc3339 (cm_envelope_date msg)), (''status'', JStr ''partial''),
       (''confidence_score'', JNum 0.7), (''detection_sources'', JArr [JStr ''mail_spool'']),
       (''output_text'', JStr (truncate_string (cm_body msg) 4000)),
       (''evidence'', json_map [(''source'', JStr ''mail_spool''), (''subject'', JStr (cm_subject msg)),
          (''mail_user'', JStr (cm_mail_user msg))])]
      @ (if h \<noteq> [] then [(''command_hash'', JStr h)] else []))"

definition process_mail_message :: "app_env \<Rightarrow> cron_mail \<Rightarrow> agent \<Rightarrow> agent" where
  "process_mail_message A msg a =
     (let h = mail_job (cm_command msg) (ap_jobs_order A (ag_tick a) (ag_known a))
      in case on_store (new_uuid (ap_outside A)) a of
           (i, a) \<Rightarrow> buffer_event A i (mail_event msg h) a)"

definition offset_key :: "string \<Rightarrow> string" where
  "offset_key path = ''mailspool_offset:'' @ path"

definition store_offset :: "app_env \<Rightarrow> string \<Rightarrow> int \<Rightarrow> int \<Rightarrow> agent \<Rightarrow> agent" where
  "store_offset A path offset new_offset a =
     (if new_offset \<noteq> offset
      then snd (on_store (set_meta (ap_outside A) (offset_key path) (show_int new_offset)) a) else a)"

definition scan_spool :: "app_env \<Rightarrow> string \<Rightarrow> agent \<Rightarrow> agent" where
  "scan_spool A path a =
     (case on_store (get_meta (ap_outside A) (offset_key path)) a of
        ((text, _), a) \<Rightarrow>
          (let offset = (case scan_int text of None \<Rightarrow> 0 | Some n \<Rightarrow> n) in
           case read_new (ap_mail A (ag_tick a)) (ap_spool A (ag_tick a) path) offset of
             (messages, new_offset, failed) \<Rightarrow>
               if failed then a
               else fold (process_mail_message A) messages (store_offset A path offset new_offset a)))"

definition run_mail_scan :: "app_env \<Rightarrow> agent \<Rightarrow> agent" where
  "run_mail_scan A a =
     (let paths = ac_mail_spool_paths (cfg_agent (ag_cfg a));
          paths = (if paths = [] then [''/var/mail/root'', ''/var/spool/mail/root''] else paths)
      in fold (scan_spool A) paths a)"

section \<open>The main loop\<close>

datatype agent_event =
    Heartbeat_Tick | Discovery_Tick | Process_Tick | Report_Tick | Command_Tick | Mail_Tick
  | Command_Run

record loop_state =
  lp_agent :: agent
  lp_spawned :: "run_command option list"

definition ticker_durations :: "app_env \<Rightarrow> agent_config \<Rightarrow> duration list" where
  "ticker_durations A c =
     [parse_duration (ap_parse_duration A) (ac_heartbeat_interval c) (seconds 30),
      parse_duration (ap_parse_duration A) (ac_discovery_interval c) (minutes 5),
      parse_duration (ap_parse_duration A) (ac_process_scan_interval c) (seconds 30),
      parse_duration (ap_parse_duration A) (ac_report_interval c) (minutes 1),
      parse_duration (ap_parse_duration A) (ac_command_poll_interval c) (seconds 15),
      parse_duration (ap_parse_duration A) (ac_mail_scan_interval c) (minutes 2)]"

definition poll_event :: "app_env \<Rightarrow> loop_state \<Rightarrow> loop_state" where
  "poll_event A l =
     (case poll_commands A (lp_agent l) of
        (cmds, a) \<Rightarrow> l\<lparr>lp_agent := a, lp_spawned := lp_spawned l @ cmds\<rparr>)"

text \<open>\<open>NewTicker\<close> panics on a duration that is not positive; then the four first calls.\<close>

definition main_loop_start :: "app_env \<Rightarrow> agent \<Rightarrow> loop_state option" where
  "main_loop_start A a =
     (if \<exists>d \<in> set (ticker_durations A (cfg_agent (ag_cfg a))). d \<le> 0 then None
      else let a = run_discovery A (send_heartbeat A a);
               l = poll_event A \<lparr>lp_agent = a, lp_spawned = []\<rparr>
           in Some (l\<lparr>lp_agent := run_mail_scan A (lp_agent l)\<rparr>))"

definition report :: "app_env \<Rightarrow> agent \<Rightarrow> agent" where
  "report A a =
     run_probes A (a\<lparr>ag_store := flush_metrics (ap_outside A) (ag_client a)
                      (flush_executions (ap_outside A) (ag_client a) (ag_store a))\<rparr>)"

fun handle_event :: "app_env \<Rightarrow> agent_event \<Rightarrow> loop_state \<Rightarrow> loop_state option" where
  "handle_event A Heartbeat_Tick l = Some (l\<lparr>lp_agent := send_heartbeat A (lp_agent l)\<rparr>)"
| "handle_event A Discovery_Tick l = Some (l\<lparr>lp_agent := run_discovery A (lp_agent l)\<rparr>)"
| "handle_event A Process_Tick l =
     map_option (\<lambda>a. l\<lparr>lp_agent := a\<rparr>) (run_process_scan A (lp_agent l))"
| "handle_event A Report_Tick l = Some (l\<lparr>lp_agent := report A (lp_agent l)\<rparr>)"
| "handle_event A Command_Tick l = Some (poll_event A l)"
| "handle_event A Mail_Tick l = Some (l\<lparr>lp_agent := run_mail_scan A (lp_agent l)\<rparr>)"
| "handle_event A Command_Run l =
     (case lp_spawned l of
        [] \<Rightarrow> Some l
      | cmd # rest \<Rightarrow>
          map_option (\<lambda>a. l\<lparr>lp_agent := a, lp_spawned := rest\<rparr>) (execute_run_command A cmd (lp_agent l)))"

fun run_events :: "app_env \<Rightarrow> agent_event list \<Rightarrow> loop_state \<Rightarrow> loop_state option" where
  "run_events A [] l = Some l"
| "run_events A (e # es) l =
     (case handle_event A e l of None \<Rightarrow> None | Some l' \<Rightarrow> run_events A es l')"

datatype run_error = Open_State | Missing_Host_Id

text \<open>\<open>Run\<close> up to the main loop: the state file, the host identifier and the objects.\<close>

definition init_agent :: "app_env \<Rightarrow> config \<Rightarrow> store \<Rightarrow> run_error + agent" where
  "init_agent A cfg file =
     (case open_store (ap_outside A) file of
        (Inl e, n) \<Rightarrow> Inl Open_State
      | (Inr s, n) \<Rightarrow>
          (case get_meta (ap_outside A) ''host_id'' s of
             ((host_id, failed), s) \<Rightarrow>
               if failed \<or> host_id = [] then Inl Missing_Host_Id
               else Inr \<lparr>ag_cfg = cfg,
                         ag_client = \<lparr>cl_base_url = sc_url (cfg_server cfg),
                           cl_token = sc_token (cfg_server cfg), cl_host_id = host_id\<rparr>,
                         ag_scanner = \<lparr>extra_cron_dirs = [], skip_system_crons = False\<rparr>,
                         ag_store = s, ag_known = [], ag_active = []\<rparr>))"

text \<open>\<open>Run\<close> itself, with the state file by its path; a directory that cannot be made is only warned about, and the
  result is that of starting the loop.\<close>

definition run_app :: "app_env \<Rightarrow> (string \<Rightarrow> store) \<Rightarrow> config \<Rightarrow> run_error + loop_state option" where
  "run_app A files cfg =
     (let state_file = (if ac_state_file (cfg_agent cfg) = [] then ''/var/lib/observer-agent/state.db''
                        else ac_state_file (cfg_agent cfg))
      in case init_agent A cfg (files state_file) of
           Inl e \<Rightarrow> Inl e
         | Inr a \<Rightarrow> Inr (main_loop_start A a))"

section \<open>Invariant\<close>

definition orders_ok :: "app_env \<Rightarrow> bool" where
  "orders_ok A \<longleftrightarrow> (\<forall>n xs. mset (ap_jobs_order A n xs) = mset xs)
     \<and> (\<forall>n xs. mset (ap_active_order A n xs) = mset xs)"

definition known_ok :: "app_env \<Rightarrow> (string \<times> discovered_job) list \<Rightarrow> bool" where
  "known_ok A known \<longleftrightarrow> kv_all (\<lambda>h j. dj_command_hash j = h \<and> job_ok (ap_sha A) j) known"

definition active_ok :: "(int \<times> active_execution) list \<Rightarrow> bool" where
  "active_ok act \<longleftrightarrow> kv_all (\<lambda>pid ac. ae_pid ac = pid) act"

definition agent_ok :: "app_env \<Rightarrow> agent \<Rightarrow> bool" where
  "agent_ok A a \<longleftrightarrow> store_ok (ag_store a) \<and> known_ok A (ag_known a) \<and> active_ok (ag_active a)"

lemma known_ok_put:
  "known_ok A known \<Longrightarrow> job_ok (ap_sha A) j \<Longrightarrow> known_ok A (kv_put (dj_command_hash j) j known)"
  by (simp add: known_ok_def)

lemma active_ok_put: "active_ok act \<Longrightarrow> ae_pid ac = pid \<Longrightarrow> active_ok (kv_put pid ac act)"
  by (simp add: active_ok_def)

lemma active_ok_del: "active_ok act \<Longrightarrow> active_ok (kv_del pid act)"
  by (simp add: active_ok_def)

text \<open>An operation on the state file leaves the rest of the agent alone.\<close>

lemma on_store_sel [simp]:
  "ag_cfg (snd (on_store f a)) = ag_cfg a" "ag_client (snd (on_store f a)) = ag_client a"
  "ag_known (snd (on_store f a)) = ag_known a" "ag_active (snd (on_store f a)) = ag_active a"
  "ag_scanner (snd (on_store f a)) = ag_scanner a" "ag_store (snd (on_store f a)) = snd (f (ag_store a))"
  "fst (on_store f a) = fst (f (ag_store a))"
  by (simp_all add: on_store_def split: prod.split)

lemma on_store_pair: "on_store f a = (fst (f (ag_store a)), a\<lparr>ag_store := snd (f (ag_store a))\<rparr>)"
  by (simp add: on_store_def split: prod.split)

lemma agent_ok_store:
  "agent_ok A a \<Longrightarrow> store_ok s \<Longrightarrow> agent_ok A (a\<lparr>ag_store := s\<rparr>)"
  by (simp add: agent_ok_def)

lemma agent_ok_on_store:
  "agent_ok A a \<Longrightarrow> store_ok (snd (f (ag_store a))) \<Longrightarrow> agent_ok A (snd (on_store f a))"
  by (simp add: agent_ok_def)

lemma agent_okD: "agent_ok A a \<Longrightarrow> store_ok (ag_store a)"
  by (simp add: agent_ok_def)

lemma snd_client_calls [simp]:
  "snd (heartbeat E c ip s) = tick s" "snd (submit_discovery E c j s) = tick s"
  "snd (claim_run_commands E c n s) = tick s" "snd (complete_run_command E c i st m t1 t2 code s) = tick s"
  by (simp_all add: client_calls)

lemma agent_ok_save_run: "agent_ok A a \<Longrightarrow> agent_ok A (save_run A r a)"
  unfolding save_run_def by (intro agent_ok_on_store store_ok_ops agent_okD)

lemma agent_ok_buffer: "agent_ok A a \<Longrightarrow> agent_ok A (buffer_event A i ev a)"
  unfolding buffer_event_def buffer_execution_def by (intro agent_ok_store store_ok_ops agent_okD)

lemma agent_ok_uuid: "agent_ok A a \<Longrightarrow> agent_ok A (snd (on_store (new_uuid E) a))"
  and agent_ok_clock: "agent_ok A a \<Longrightarrow> agent_ok A (snd (on_store (clock E) a))"
  by (intro agent_ok_on_store store_ok_ops agent_okD; assumption)+

lemma store_ok_flush:
  "store_ok s \<Longrightarrow> store_ok (flush_executions E c s)" "store_ok s \<Longrightarrow> store_ok (flush_metrics E c s)"
  unfolding flush_executions_def flush_metrics_def
  by (simp_all add: ex.flush_store_ok me.flush_store_ok)

lemma agent_ok_fold: "(\<And>x a. x \<in> set xs \<Longrightarrow> agent_ok A a \<Longrightarrow> agent_ok A (f x a)) \<Longrightarrow> agent_ok A a \<Longrightarrow> agent_ok A (fold f xs a)"
  by (induction xs arbitrary: a) auto

section \<open>The executions in progress\<close>

definition active_pids :: "agent \<Rightarrow> int set" where
  "active_pids a = fst ` set (ag_active a)"

definition matched_pid :: "matched_process \<Rightarrow> int" where
  "matched_pid m = ps_pid (mp_process m)"

definition is_new :: "agent \<Rightarrow> matched_process \<Rightarrow> bool" where
  "is_new a m \<longleftrightarrow> matched_pid m \<notin> active_pids a \<and> kv_get (ag_known a) (mp_job_hash m) \<noteq> None"

lemma active_pids_get: "p \<in> active_pids a \<longleftrightarrow> kv_get (ag_active a) p \<noteq> None"
  by (simp add: active_pids_def kv_get_def map_of_eq_None_iff)

lemma save_run_sel [simp]:
  "ag_known (save_run A r a) = ag_known a" "ag_active (save_run A r a) = ag_active a"
  "ag_cfg (save_run A r a) = ag_cfg a" "ag_client (save_run A r a) = ag_client a"
  by (simp_all add: save_run_def)

lemma buffer_event_sel [simp]:
  "ag_known (buffer_event A i ev a) = ag_known a" "ag_active (buffer_event A i ev a) = ag_active a"
  "ag_cfg (buffer_event A i ev a) = ag_cfg a" "ag_client (buffer_event A i ev a) = ag_client a"
  by (simp_all add: buffer_event_def)

lemma start_active_known [simp]: "ag_known (start_active A m a) = ag_known a"
  by (simp add: start_active_def Let_def on_store_pair split: option.split)

lemma start_active_get:
  "kv_get (ag_active a) p = Some ac \<Longrightarrow> kv_get (ag_active (start_active A m a)) p = Some ac"
  by (auto simp: start_active_def Let_def on_store_pair split: option.split)

lemma start_active_pids:
  "active_pids (start_active A m a) = active_pids a \<union> (if is_new a m then {matched_pid m} else {})"
  by (auto simp: start_active_def Let_def on_store_pair is_new_def active_pids_get matched_pid_def set_eq_iff
      split: option.splits)

lemma agent_ok_start: "agent_ok A a \<Longrightarrow> agent_ok A (start_active A m a)"
proof -
  assume ok: "agent_ok A a"
  let ?u = "snd (on_store (new_uuid (ap_outside A)) a)"
  have "agent_ok A (?u\<lparr>ag_active := kv_put (matched_pid m) ac (ag_active ?u)\<rparr>)"
    if "ae_pid ac = matched_pid m" for ac
    using agent_ok_uuid [OF ok, of "ap_outside A"] that by (simp add: agent_ok_def active_ok_put)
  then show ?thesis using ok
    by (auto simp: start_active_def Let_def matched_pid_def on_store_def new_uuid_def
        intro!: agent_ok_buffer agent_ok_save_run split: option.split)
qed

lemma start_all_known [simp]: "ag_known (fold (start_active A) ms a) = ag_known a"
  by (induction ms arbitrary: a) simp_all

lemma start_all_ok: "agent_ok A a \<Longrightarrow> agent_ok A (fold (start_active A) ms a)"
  by (rule agent_ok_fold) (rule agent_ok_start)

lemma start_all_pids:
  "\<forall>m \<in> set ms. kv_get (ag_known a) (mp_job_hash m) \<noteq> None \<Longrightarrow>
     active_pids (fold (start_active A) ms a) = active_pids a \<union> matched_pid ` set ms"
proof (induction ms arbitrary: a)
  case (Cons m ms)
  then show ?case using Cons.IH [of "start_active A m a"] by (auto simp: start_active_pids is_new_def)
qed simp

lemma start_all_get:
  "kv_get (ag_active a) p = Some ac \<Longrightarrow> kv_get (ag_active (fold (start_active A) ms a)) p = Some ac"
  by (induction ms arbitrary: a) (simp_all add: start_active_get)

lemma finish_active_active:
  "ag_active (finish_active A now cur (pid, ac) a) = (if pid \<in> set cur then ag_active a else kv_del pid (ag_active a))"
  by (simp add: finish_active_def Let_def on_store_pair)

lemma finish_active_known [simp]: "ag_known (finish_active A now cur pa a) = ag_known a"
  by (cases pa) (simp add: finish_active_def Let_def on_store_pair)

lemma agent_ok_finish: "agent_ok A a \<Longrightarrow> agent_ok A (finish_active A now cur pa a)"
proof (cases pa)
  case (Pair pid ac)
  assume ok: "agent_ok A a"
  let ?r = "finished_record ac now"
  let ?u = "on_store (new_uuid (ap_outside A)) (save_run A ?r a)"
  have "agent_ok A (snd ?u)" using ok by (intro agent_ok_uuid agent_ok_save_run)
  then have "agent_ok A (buffer_event A (fst ?u) (completion_event ac now) (snd ?u))"
    by (rule agent_ok_buffer)
  then show ?thesis using ok
    by (simp add: Pair finish_active_def Let_def on_store_pair agent_ok_def active_ok_del)
qed

lemma finish_all:
  "kv_get (ag_active (fold (finish_active A now cur) xs a)) p =
     (if p \<in> fst ` set xs \<and> p \<notin> set cur then None else kv_get (ag_active a) p)"
  "agent_ok A a \<Longrightarrow> agent_ok A (fold (finish_active A now cur) xs a)"
  "ag_known (fold (finish_active A now cur) xs a) = ag_known a"
  by (induction xs arbitrary: a) (auto simp: finish_active_active agent_ok_finish)

text \<open>The matches of a scan, for a well-formed agent and any order of its maps.\<close>

definition matching_snapshots :: "agent \<Rightarrow> process_snapshot list \<Rightarrow> process_snapshot list" where
  "matching_snapshots a snaps =
     filter (\<lambda>s. \<exists>j \<in> set (known_jobs_for_match (ag_known a)). exe_matches (ps_cmdline s) j) snaps"

lemma known_commands_ok: "known_ok A known \<Longrightarrow> commands_ok (known_jobs_for_match known)"
  by (fastforce simp: known_ok_def kv_all_def commands_ok_def known_jobs_for_match_def job_ok_def
      dest: normalize_command_words)

lemma match_known:
  assumes "known_ok A (ag_known a)" and "orders_ok A"
  obtains ms where "match_jobs (ap_quote A) snaps (\<lambda>n. known_jobs_for_match (ap_jobs_order A n (ag_known a))) = Some ms"
    and "map mp_process ms = matching_snapshots a snaps"
    and "\<forall>m \<in> set ms. kv_get (ag_known a) (mp_job_hash m) \<noteq> None"
proof -
  let ?order = "\<lambda>n. known_jobs_for_match (ap_jobs_order A n (ag_known a))"
  let ?J = "set (known_jobs_for_match (ag_known a))"
  have "set (ap_jobs_order A n (ag_known a)) = set (ag_known a)" for n
    using assms(2) by (metis orders_ok_def set_mset_mset)
  then have "\<forall>n. commands_ok (?order n) \<and> set (?order n) = ?J"
    using known_commands_ok [OF assms(1)] by (simp add: commands_ok_def known_jobs_for_match_def)
  from match_jobs_from_total [OF this] obtain ms where
    ms: "match_jobs (ap_quote A) snaps ?order = Some ms"
      "map mp_process ms = matching_snapshots a snaps" "\<forall>m \<in> set ms. match_ok ?J m"
    unfolding match_jobs_def matching_snapshots_def by blast
  have "kv_get (ag_known a) (mp_job_hash m) \<noteq> None" if "m \<in> set ms" for m
  proof -
    obtain ncmd where "(mp_job_hash m, ncmd) \<in> ?J" using ms(3) \<open>m \<in> set ms\<close> by (auto simp: match_ok_def)
    then have "mp_job_hash m \<in> fst ` set (ag_known a)" by (force simp: known_jobs_for_match_def)
    then show ?thesis by (simp add: kv_get_def map_of_eq_None_iff)
  qed
  then show thesis using that ms by blast
qed

text \<open>C1. A process scan follows the processes: it does not panic, afterwards the executions in progress
  are those of exactly the running processes that match a known job, and an execution whose process
  is still there keeps its record, so that no process is reported as started twice.\<close>

theorem process_scan_tracks:
  assumes "agent_ok A a" and "orders_ok A"
    and "scan_processes (ap_procs A (ag_tick a)) = Some snaps"
  shows "\<exists>a'. run_process_scan A a = Some a' \<and> agent_ok A a'
    \<and> active_pids a' = ps_pid ` set (matching_snapshots a snaps)
    \<and> (\<forall>p ac. kv_get (ag_active a) p = Some ac \<and> p \<in> active_pids a' \<longrightarrow> kv_get (ag_active a') p = Some ac)"
proof -
  have "known_ok A (ag_known a)" using assms(1) by (simp add: agent_ok_def)
  then obtain ms where ms: "match_jobs (ap_quote A) snaps
        (\<lambda>n. known_jobs_for_match (ap_jobs_order A n (ag_known a))) = Some ms"
    "map mp_process ms = matching_snapshots a snaps"
    "\<forall>m \<in> set ms. kv_get (ag_known a) (mp_job_hash m) \<noteq> None"
    using match_known [OF _ assms(2)] by blast
  let ?cur = "map (ps_pid \<circ> mp_process) ms" and ?b = "fold (start_active A) ms a"
  let ?c = "snd (on_store (clock (ap_outside A)) ?b)" and ?now = "fst (on_store (clock (ap_outside A)) ?b)"
  let ?xs = "ap_active_order A (ag_tick ?c) (ag_active ?c)"
  let ?a' = "fold (finish_active A ?now ?cur) ?xs ?c"
  have run: "run_process_scan A a = Some ?a'"
    by (simp only: run_process_scan_def assms(3) ms(1) option.case Let_def case_prod_beta)
  have "set ?xs = set (ag_active ?b)" using assms(2) by (metis on_store_sel(4) orders_ok_def set_mset_mset)
  then have xs: "fst ` set ?xs = active_pids ?b" by (simp add: active_pids_def)
  have cur: "set ?cur = matched_pid ` set ms" by (auto simp: matched_pid_def)
  have cur': "set ?cur = ps_pid ` set (matching_snapshots a snaps)" by (simp flip: ms(2) add: image_comp)
  have get: "kv_get (ag_active ?a') p = (if p \<in> set ?cur then kv_get (ag_active ?b) p else None)" for p
    using finish_all(1) [of A ?now ?cur ?xs ?c p] xs active_pids_get [of p ?b] by (auto split: if_splits)
  have "active_pids ?a' = set ?cur"
    using get start_all_pids [OF ms(3), of A] cur by (auto simp: active_pids_get set_eq_iff)
  moreover have "agent_ok A ?a'"
    using assms(1) start_all_ok by (intro finish_all(2) agent_ok_clock)
  ultimately show ?thesis using run get start_all_get [of a _ _ A ms] cur' by auto
qed

section \<open>The events of a scan\<close>

definition payloads :: "agent \<Rightarrow> json multiset" where
  "payloads a = image_mset (pe_payload \<circ> snd) (mset (st_executions (ag_store a)))"

text \<open>Transactions go through, UUIDs do not repeat, and those still to come are not in the buffer.\<close>

definition outside_ok :: "agent_env \<Rightarrow> bool" where
  "outside_ok E \<longleftrightarrow> (\<forall>n. ev_tx E n) \<and> inj (ev_uuid E)"

definition fresh_ids :: "agent_env \<Rightarrow> agent \<Rightarrow> bool" where
  "fresh_ids E a \<longleftrightarrow> (\<forall>n \<ge> ag_tick a. kv_get (st_executions (ag_store a)) (ev_uuid E n) = None)"

lemma payloads_store: "st_executions (ag_store b) = st_executions (ag_store a) \<Longrightarrow> payloads b = payloads a"
  by (simp add: payloads_def)

lemma save_run_executions [simp]:
  "st_executions (ag_store (save_run A r a)) = st_executions (ag_store a)"
  "ag_tick (save_run A r a) = ag_tick a + 2"
  by (simp_all add: save_run_def save_local_execution_def tx_defs tick_def)

lemma buffer_event_payloads:
  assumes "outside_ok (ap_outside A)" and "kv_get (st_executions (ag_store a)) i = None"
  shows "payloads (buffer_event A i ev a) = add_mset ev (payloads a)"
    and "kv_get (st_executions (ag_store (buffer_event A i ev a))) k =
      (if k = i then kv_get (st_executions (ag_store (buffer_event A i ev a))) i
       else kv_get (st_executions (ag_store a)) k)"
    and "ag_tick (buffer_event A i ev a) = ag_tick a + 2"
  using assms by (simp_all add: payloads_def buffer_event_def buffer_execution_def save_execution_def tx_defs
      kv_put_mset must_marshal_def outside_ok_def)

text \<open>A fresh identifier is drawn and, some calls later, one event is buffered under it.\<close>

lemma emit_event:
  assumes env: "outside_ok (ap_outside A)" and fresh: "fresh_ids (ap_outside A) a"
    and b: "st_executions (ag_store b) = st_executions (ag_store a)"
    and n: "ag_tick a \<le> n" "n < ag_tick b"
  shows "payloads (buffer_event A (ev_uuid (ap_outside A) n) ev b) = add_mset ev (payloads a)"
    and "fresh_ids (ap_outside A) (buffer_event A (ev_uuid (ap_outside A) n) ev b)"
proof -
  let ?i = "ev_uuid (ap_outside A) n"
  have none: "kv_get (st_executions (ag_store b)) ?i = None" using fresh b n by (simp add: fresh_ids_def)
  note buf = buffer_event_payloads [OF env none, of ev]
  show "payloads (buffer_event A ?i ev b) = add_mset ev (payloads a)"
    using buf(1) payloads_store [OF b] by simp
  show "fresh_ids (ap_outside A) (buffer_event A ?i ev b)"
    unfolding fresh_ids_def
  proof (intro allI impI)
    fix m assume m: "ag_tick (buffer_event A ?i ev b) \<le> m"
    then have "ev_uuid (ap_outside A) m \<noteq> ?i"
      using env n buf(3) by (simp add: outside_ok_def inj_eq)
    then have "kv_get (st_executions (ag_store (buffer_event A ?i ev b))) (ev_uuid (ap_outside A) m)
        = kv_get (st_executions (ag_store b)) (ev_uuid (ap_outside A) m)"
      using buf(2) [of "ev_uuid (ap_outside A) m"] by simp
    then show "kv_get (st_executions (ag_store (buffer_event A ?i ev b))) (ev_uuid (ap_outside A) m) = None"
      using fresh b m n buf(3) by (simp add: fresh_ids_def)
  qed
qed

lemma fresh_ids_cong:
  "ag_store b = ag_store a \<Longrightarrow> fresh_ids E b = fresh_ids E a"
  by (simp add: fresh_ids_def)

lemma start_active_emit:
  assumes env: "outside_ok (ap_outside A)" and fresh: "fresh_ids (ap_outside A) a"
  shows "payloads (start_active A m a) = payloads a + (if is_new a m then {#running_event m#} else {#})"
    and "fresh_ids (ap_outside A) (start_active A m a)"
proof -
  let ?E = "ap_outside A"
  have "payloads (start_active A m a) = payloads a + (if is_new a m then {#running_event m#} else {#})
      \<and> fresh_ids ?E (start_active A m a)"
  proof (cases "is_new a m")
    case False
    then have "start_active A m a = a"
      by (auto simp: start_active_def is_new_def active_pids_get matched_pid_def Let_def)
    then show ?thesis using False fresh by simp
  next
    case True
    then obtain job where job: "kv_get (ag_known a) (mp_job_hash m) = Some job"
      and pid: "kv_get (ag_active a) (ps_pid (mp_process m)) = None"
      by (auto simp: is_new_def active_pids_get matched_pid_def)
    let ?i = "ev_uuid ?E (ag_tick a)"
    let ?ac = "\<lparr>ae_local_id = ?i, ae_job_hash = mp_job_hash m, ae_command = dj_raw_command job,
                ae_schedule = dj_schedule job, ae_started_at = ps_create_time (mp_process m),
                ae_confidence = mp_confidence m, ae_pid = ps_pid (mp_process m)\<rparr>"
    let ?b = "save_run A (running_record ?i m job)
       (a\<lparr>ag_store := tick (ag_store a), ag_active := kv_put (ps_pid (mp_process m)) ?ac (ag_active a)\<rparr>)"
    have st: "start_active A m a = buffer_event A ?i (running_event m) ?b"
      by (simp add: start_active_def pid job Let_def on_store_pair new_uuid_def)
    show ?thesis unfolding st using emit_event [OF env fresh, of ?b "ag_tick a"] True by simp
  qed
  then show "payloads (start_active A m a) = payloads a + (if is_new a m then {#running_event m#} else {#})"
    and "fresh_ids ?E (start_active A m a)" by simp_all
qed

lemma start_all_emit:
  assumes env: "outside_ok (ap_outside A)" and "fresh_ids (ap_outside A) a"
    and "\<forall>m \<in> set ms. kv_get (ag_known a) (mp_job_hash m) \<noteq> None" and "distinct (map matched_pid ms)"
  shows "payloads (fold (start_active A) ms a) = payloads a
      + mset (map running_event (filter (\<lambda>m. matched_pid m \<notin> active_pids a) ms))
    \<and> fresh_ids (ap_outside A) (fold (start_active A) ms a)"
  using assms(2-)
proof (induction ms arbitrary: a)
  case (Cons m ms)
  let ?b = "start_active A m a"
  have "\<forall>x \<in> set ms. matched_pid x \<noteq> matched_pid m" using Cons.prems(3) by (force simp: image_iff)
  then have "filter (\<lambda>x. matched_pid x \<notin> active_pids ?b) ms = filter (\<lambda>x. matched_pid x \<notin> active_pids a) ms"
    by (intro filter_cong) (auto simp: start_active_pids)
  moreover have "payloads (fold (start_active A) ms ?b) = payloads ?b
      + mset (map running_event (filter (\<lambda>m. matched_pid m \<notin> active_pids ?b) ms))
    \<and> fresh_ids (ap_outside A) (fold (start_active A) ms ?b)"
    using Cons.prems start_active_emit(2) [OF env Cons.prems(1)] by (intro Cons.IH) simp_all
  ultimately show ?case
    using start_active_emit(1) [OF env Cons.prems(1), of m] Cons.prems(2) by (simp add: is_new_def)
qed simp

lemma finish_active_emit:
  assumes env: "outside_ok (ap_outside A)" and fresh: "fresh_ids (ap_outside A) a"
  shows "payloads (finish_active A now cur (pid, ac) a)
      = payloads a + (if pid \<in> set cur then {#} else {#completion_event ac now#})"
    and "fresh_ids (ap_outside A) (finish_active A now cur (pid, ac) a)"
proof -
  let ?E = "ap_outside A" and ?s = "save_run A (finished_record ac now) a"
  let ?b = "?s\<lparr>ag_store := tick (ag_store ?s)\<rparr>" and ?i = "ev_uuid (ap_outside A) (ag_tick a + 2)"
  let ?c = "buffer_event A ?i (completion_event ac now) ?b"
  have fin: "finish_active A now cur (pid, ac) a = (if pid \<in> set cur then a else ?c\<lparr>ag_active := kv_del pid (ag_active ?c)\<rparr>)"
    by (simp add: finish_active_def Let_def on_store_pair new_uuid_def)
  note e = emit_event [OF env fresh, of ?b "ag_tick a + 2" "completion_event ac now"]
  show "payloads (finish_active A now cur (pid, ac) a)
      = payloads a + (if pid \<in> set cur then {#} else {#completion_event ac now#})"
    using e(1) payloads_store [of "?c\<lparr>ag_active := kv_del pid (ag_active ?c)\<rparr>" ?c] by (simp add: fin)
  show "fresh_ids (ap_outside A) (finish_active A now cur (pid, ac) a)"
    using e(2) fresh fresh_ids_cong [of "?c\<lparr>ag_active := kv_del pid (ag_active ?c)\<rparr>" ?c] by (simp add: fin)
qed

lemma finish_all_emit:
  assumes env: "outside_ok (ap_outside A)" and "fresh_ids (ap_outside A) a"
  shows "payloads (fold (finish_active A now cur) xs a) = payloads a
      + image_mset (\<lambda>(pid, ac). completion_event ac now) (filter_mset (\<lambda>(pid, ac). pid \<notin> set cur) (mset xs))"
  using assms(2)
proof (induction xs arbitrary: a)
  case (Cons x xs)
  obtain pid ac where x: "x = (pid, ac)" by (cases x)
  show ?case
    using Cons.IH [OF finish_active_emit(2) [OF env Cons.prems, of now cur pid ac]]
      finish_active_emit(1) [OF env Cons.prems, of now cur pid ac] by (simp add: x)
qed simp

text \<open>The entries of processes that are gone are those from before the scan.\<close>

lemma start_all_gone:
  assumes "agent_ok A a" and "\<forall>m \<in> set ms. kv_get (ag_known a) (mp_job_hash m) \<noteq> None"
  shows "filter (\<lambda>x. fst x \<notin> matched_pid ` set ms) (ag_active (fold (start_active A) ms a))
     = filter (\<lambda>x. fst x \<notin> matched_pid ` set ms) (ag_active a)"
proof (rule kv_ext)
  have "kv_inv (ag_active b)" if "agent_ok A b" for b
    using that by (simp add: agent_ok_def active_ok_def kv_all_def)
  then show "kv_inv (filter (\<lambda>x. fst x \<notin> matched_pid ` set ms) (ag_active (fold (start_active A) ms a)))"
    and "kv_inv (filter (\<lambda>x. fst x \<notin> matched_pid ` set ms) (ag_active a))"
    using assms(1) start_all_ok by (blast intro: kv_inv_filter)+
  have "kv_get (ag_active (fold (start_active A) ms a)) p = kv_get (ag_active a) p"
    if p: "p \<notin> matched_pid ` set ms" for p
  proof (cases "kv_get (ag_active a) p")
    case None
    then have "p \<notin> active_pids (fold (start_active A) ms a)"
      using p unfolding start_all_pids [OF assms(2)] by (simp add: active_pids_get)
    then show ?thesis using None by (simp only: active_pids_get not_not)
  qed (simp add: start_all_get)
  then show "kv_get (filter (\<lambda>x. fst x \<notin> matched_pid ` set ms) (ag_active (fold (start_active A) ms a)))
      = kv_get (filter (\<lambda>x. fst x \<notin> matched_pid ` set ms) (ag_active a))"
    by (simp add: fun_eq_iff kv_get_filter [where Q = "\<lambda>p. p \<notin> matched_pid ` set ms"])
qed

lemma scan_emits:
  assumes "agent_ok A a" and "orders_ok A" and "outside_ok (ap_outside A)" and "fresh_ids (ap_outside A) a"
    and "scan_processes (ap_procs A (ag_tick a)) = Some snaps" and "distinct (map ps_pid snaps)"
    and "match_jobs (ap_quote A) snaps (\<lambda>n. known_jobs_for_match (ap_jobs_order A n (ag_known a))) = Some ms"
  shows "\<exists>a' now. run_process_scan A a = Some a' \<and> payloads a' = payloads a
      + mset (map running_event (filter (\<lambda>m. matched_pid m \<notin> active_pids a) ms))
      + mset (map (\<lambda>x. completion_event (snd x) now)
          (filter (\<lambda>x. fst x \<notin> matched_pid ` set ms) (ag_active a)))"
proof -
  have "known_ok A (ag_known a)" using assms(1) by (simp add: agent_ok_def)
  then obtain ms' where "match_jobs (ap_quote A) snaps
        (\<lambda>n. known_jobs_for_match (ap_jobs_order A n (ag_known a))) = Some ms'"
    "map mp_process ms' = matching_snapshots a snaps"
    "\<forall>m \<in> set ms'. kv_get (ag_known a) (mp_job_hash m) \<noteq> None"
    using match_known [OF _ assms(2)] by blast
  then have procs: "map mp_process ms = matching_snapshots a snaps"
    and known: "\<forall>m \<in> set ms. kv_get (ag_known a) (mp_job_hash m) \<noteq> None"
    using assms(7) by simp_all
  have "map matched_pid ms = map ps_pid (map mp_process ms)" by (simp add: matched_pid_def)
  then have dist: "distinct (map matched_pid ms)"
    unfolding procs matching_snapshots_def using assms(6) by (simp add: distinct_map_filter)
  let ?cur = "map (ps_pid \<circ> mp_process) ms" and ?b = "fold (start_active A) ms a"
  let ?c = "snd (on_store (clock (ap_outside A)) ?b)" and ?now = "fst (on_store (clock (ap_outside A)) ?b)"
  let ?xs = "ap_active_order A (ag_tick ?c) (ag_active ?c)"
  have run: "run_process_scan A a = Some (fold (finish_active A ?now ?cur) ?xs ?c)"
    by (simp only: run_process_scan_def assms(5,7) option.case Let_def case_prod_beta)
  have b: "payloads ?b = payloads a + mset (map running_event (filter (\<lambda>m. matched_pid m \<notin> active_pids a) ms))"
    "fresh_ids (ap_outside A) ?b"
    using start_all_emit [OF assms(3,4) known dist] by simp_all
  have c: "payloads ?c = payloads ?b" "fresh_ids (ap_outside A) ?c"
    using b(2) by (simp_all add: payloads_def fresh_ids_def clock_def)
  have cur: "set ?cur = matched_pid ` set ms" by (auto simp: matched_pid_def)
  have "mset ?xs = mset (ag_active ?b)" using assms(2) by (simp add: orders_ok_def)
  then have "filter_mset (\<lambda>x. fst x \<notin> set ?cur) (mset ?xs)
      = mset (filter (\<lambda>x. fst x \<notin> matched_pid ` set ms) (ag_active a))"
    unfolding cur by (simp flip: mset_filter add: start_all_gone [OF assms(1) known])
  then have "payloads (fold (finish_active A ?now ?cur) ?xs ?c) = payloads ?b
      + mset (map (\<lambda>x. completion_event (snd x) ?now) (filter (\<lambda>x. fst x \<notin> matched_pid ` set ms) (ag_active a)))"
    using finish_all_emit [OF assms(3) c(2), of ?now ?cur ?xs] c(1)
    by (simp add: case_prod_unfold)
  then show ?thesis using run unfolding b(1) by blast
qed

text \<open>C33. The events a scan buffers are exactly one running event for each matching process that was not
  yet in progress and one completion event for each execution in progress whose process is gone.\<close>

theorem process_scan_events:
  assumes "agent_ok A a" and "orders_ok A" and "outside_ok (ap_outside A)" and "fresh_ids (ap_outside A) a"
    and "scan_processes (ap_procs A (ag_tick a)) = Some snaps" and "distinct (map ps_pid snaps)"
    and "match_jobs (ap_quote A) snaps (\<lambda>n. known_jobs_for_match (ap_jobs_order A n (ag_known a))) = Some ms"
  shows "\<exists>a' now. run_process_scan A a = Some a' \<and> payloads a' = payloads a
      + mset (map running_event (filter (\<lambda>m. matched_pid m \<notin> active_pids a) ms))
      + mset (map (\<lambda>x. completion_event (snd x) now)
          (filter (\<lambda>x. fst x \<notin> matched_pid ` set ms) (ag_active a)))"
  using assms by (rule scan_emits)

text \<open>A small agent on a quiet machine: one known job, \<open>/opt/b.sh\<close>, and the processes given.\<close>

definition sample_job :: discovered_job where
  "sample_job = \<lparr>dj_source_type = ''cron'', dj_schedule = ''* * * * *'', dj_timezone = ''UTC'', dj_user = ''root'',
     dj_raw_command = ''/opt/b.sh'', dj_normalized_command = ''/opt/b.sh'', dj_command_hash = [],
     dj_enabled = True, dj_source_file = ''/etc/crontab''\<rparr>"

definition sample_env :: "(int \<times> string) list \<Rightarrow> app_env" where
  "sample_env procs = \<lparr>ap_outside = steady_env (Response 202 None), ap_sha = (\<lambda>s. []), ap_quote = (\<lambda>s. s),
     ap_files = (\<lambda>n. \<lparr>os_read = (\<lambda>p. None), os_glob = (\<lambda>p. []), os_read_dir = (\<lambda>p. None), os_join = (\<lambda>a b. a @ b)\<rparr>),
     ap_procs = (\<lambda>n. \<lparr>pt_pids = Some (map fst procs),
       pt_info = (\<lambda>p. map_option (\<lambda>c. \<lparr>pi_cmdline = Some c, pi_ppid = 1, pi_create_ms = 0\<rparr>) (map_of procs p))\<rparr>),
     ap_mail = (\<lambda>n. \<lparr>me_md5_hex = (\<lambda>s. s), me_parse_time = (\<lambda>f s. None), me_now = 0\<rparr>),
     ap_spool = (\<lambda>n p. Missing),
     ap_probes = (\<lambda>n i. \<lparr>pv_now = 0, pv_query = (\<lambda>q. Query_Failed), pv_stat = (\<lambda>p. Not_Exist),
       pv_command = (\<lambda>c. None), pv_scan_float = (\<lambda>s. Inr [])\<rparr>),
     ap_shell = (\<lambda>n c. Shell_Ok []), ap_jobs_order = (\<lambda>n xs. xs), ap_active_order = (\<lambda>n xs. rev xs),
     ap_parse_duration = (\<lambda>s. None)\<rparr>"

definition sample_config :: config where
  "sample_config = \<lparr>cfg_server = \<lparr>sc_url = ''http://o'', sc_token = ''t'', sc_token_file = []\<rparr>,
     cfg_agent = \<lparr>ac_machine_id = ''m'', ac_hostname = ''h'', ac_environment = [], ac_tags = [], ac_version = [],
       ac_state_file = [], ac_heartbeat_interval = [], ac_discovery_interval = [], ac_process_scan_interval = [],
       ac_report_interval = [], ac_command_poll_interval = [], ac_mail_scan_interval = [],
       ac_mail_spool_paths = []\<rparr>, cfg_probes = []\<rparr>"

definition sample_agent :: "(int \<times> active_execution) list \<Rightarrow> agent" where
  "sample_agent act = \<lparr>ag_cfg = sample_config,
     ag_client = \<lparr>cl_base_url = ''http://o'', cl_token = ''t'', cl_host_id = ''h1''\<rparr>,
     ag_scanner = \<lparr>extra_cron_dirs = [], skip_system_crons = False\<rparr>, ag_store = empty_store,
     ag_known = [([], sample_job)], ag_active = act\<rparr>"

definition sample_active :: active_execution where
  "sample_active = \<lparr>ae_local_id = ''x'', ae_job_hash = [], ae_command = ''/opt/b.sh'', ae_schedule = [],
     ae_started_at = 0, ae_confidence = 1, ae_pid = 9\<rparr>"

lemma sample_ok:
  "agent_ok (sample_env procs) (sample_agent [(9, sample_active)])" "orders_ok (sample_env procs)"
  "outside_ok (ap_outside (sample_env procs))"
  "fresh_ids (ap_outside (sample_env procs)) (sample_agent [(9, sample_active)])"
proof -
  have "normalize_command ''/opt/b.sh'' = ''/opt/b.sh''" by code_simp
  then show "agent_ok (sample_env procs) (sample_agent [(9, sample_active)])"
    by (simp add: agent_ok_def sample_agent_def known_ok_def active_ok_def kv_all_def kv_inv_def sample_active_def
        sample_job_def sample_env_def job_ok_def command_hash_def hex_of_def)
  show "orders_ok (sample_env procs)" by (simp add: orders_ok_def sample_env_def)
  show "outside_ok (ap_outside (sample_env procs))"
    by (simp add: outside_ok_def sample_env_def inj_def replicate_eq_replicate)
  show "fresh_ids (ap_outside (sample_env procs)) (sample_agent [(9, sample_active)])"
    by (simp add: fresh_ids_def sample_agent_def empty_store_def kv_get_def)
qed

lemma sample_scan:
  "scan_processes (ap_procs (sample_env [(7, ''/opt/b.sh'')]) n)
     = Some [\<lparr>ps_pid = 7, ps_ppid = 1, ps_cmdline = ''/opt/b.sh'', ps_create_time = 0\<rparr>]"
  by (simp add: scan_processes_def sample_env_def snapshot_of_def create_time_of_def go_quot_def go_rem_def
      seconds_def)

theorem process_scan_tracks_witness:
  "\<exists>a'. run_process_scan (sample_env [(7, ''/opt/b.sh'')]) (sample_agent [(9, sample_active)]) = Some a'
     \<and> active_pids a' = {7}"
proof -
  have "contains ''/opt/b.sh'' ''/opt/b.sh''" "str_fields ''/opt/b.sh'' = [''/opt/b.sh'']"
    by simp (simp add: word_ok_def is_space_def)
  then have "matching_snapshots (sample_agent [(9, sample_active)])
      [\<lparr>ps_pid = 7, ps_ppid = 1, ps_cmdline = ''/opt/b.sh'', ps_create_time = 0\<rparr>]
      = [\<lparr>ps_pid = 7, ps_ppid = 1, ps_cmdline = ''/opt/b.sh'', ps_create_time = 0\<rparr>]"
    by (simp add: matching_snapshots_def sample_agent_def known_jobs_for_match_def exe_matches_def sample_job_def)
  then show ?thesis using process_scan_tracks [OF sample_ok(1,2) sample_scan] by auto
qed

theorem process_scan_events_witness:
  "\<exists>a' now. run_process_scan (sample_env [(7, ''/opt/b.sh'')]) (sample_agent [(9, sample_active)]) = Some a'
     \<and> size (payloads a') = 2"
proof -
  let ?A = "sample_env [(7, ''/opt/b.sh'')]" and ?a = "sample_agent [(9, sample_active)]"
  let ?s = "\<lparr>ps_pid = 7, ps_ppid = 1, ps_cmdline = ''/opt/b.sh'', ps_create_time = 0\<rparr>"
  let ?m = "\<lparr>mp_process = ?s, mp_job_hash = [], mp_confidence = 0.95,
       mp_evidence = match_evidence (\<lambda>s. s) ''/opt/b.sh'' ''/opt/b.sh''\<rparr>"
  have "matches_command ''/opt/b.sh'' ''/opt/b.sh'' = Some True" by code_simp
  then have "match_jobs (ap_quote ?A) [?s] (\<lambda>n. known_jobs_for_match (ap_jobs_order ?A n (ag_known ?a))) = Some [?m]"
    by (simp add: match_jobs_def sample_env_def sample_agent_def known_jobs_for_match_def sample_job_def)
  moreover have "active_pids ?a = {9}" "ag_active ?a = [(9, sample_active)]" "payloads ?a = {#}"
    by (simp_all add: active_pids_def sample_agent_def payloads_def empty_store_def)
  ultimately show ?thesis
    using process_scan_events [OF sample_ok(1-4) sample_scan, of "[?m]"]
    by (auto simp: matched_pid_def)
qed

section \<open>Every handler keeps the invariant\<close>

lemma agent_ok_heartbeat: "agent_ok A a \<Longrightarrow> agent_ok A (send_heartbeat A a)"
  unfolding send_heartbeat_def by (rule agent_ok_on_store) (simp_all add: agent_okD)

lemma agent_ok_record_job: "job_ok (ap_sha A) j \<Longrightarrow> agent_ok A a \<Longrightarrow> agent_ok A (record_job A j a)"
  unfolding record_job_def
  by (rule agent_ok_on_store) (simp_all add: agent_ok_def known_ok_put store_ok_ops)

lemma agent_ok_discovery: "agent_ok A a \<Longrightarrow> agent_ok A (run_discovery A a)"
proof -
  assume ok: "agent_ok A a"
  let ?jobs = "scan (ap_sha A) (ap_files A (ag_tick a)) (ag_scanner a)"
  have "agent_ok A (fold (record_job A) ?jobs a)"
    using ok by (intro agent_ok_fold agent_ok_record_job) (simp_all add: scan_jobs_ok)
  then show ?thesis unfolding run_discovery_def Let_def
    by (intro agent_ok_on_store) (simp_all add: agent_okD)
qed

lemma agent_ok_report: "agent_ok A a \<Longrightarrow> agent_ok A (report A a)"
proof -
  assume ok: "agent_ok A a"
  have "agent_ok A (buffer_result A r b)" if "agent_ok A b" for r b
    using agent_ok_uuid [OF that, of "ap_outside A"]
    by (simp add: buffer_result_def on_store_pair buffer_metric_def agent_ok_def store_ok_ops)
  then show ?thesis unfolding report_def run_probes_def
    using ok by (intro agent_ok_fold agent_ok_store store_ok_flush) (auto intro: agent_okD)
qed

lemma agent_ok_poll: "agent_ok A a \<Longrightarrow> agent_ok A (snd (poll_commands A a))"
  by (simp add: poll_commands_def on_store_pair agent_ok_def split: sum.split)

lemma agent_ok_mail: "agent_ok A a \<Longrightarrow> agent_ok A (process_mail_message A msg a)"
proof -
  assume "agent_ok A a"
  then have "agent_ok A (snd (on_store (new_uuid (ap_outside A)) a))" by (rule agent_ok_uuid)
  then show ?thesis by (simp add: process_mail_message_def Let_def on_store_pair agent_ok_buffer)
qed

lemma agent_ok_scan_spool: "agent_ok A a \<Longrightarrow> agent_ok A (scan_spool A path a)"
proof -
  assume "agent_ok A a"
  then have ok: "agent_ok A (snd (on_store (get_meta (ap_outside A) k) a))" for k
    by (intro agent_ok_on_store store_ok_ops agent_okD)
  have off: "agent_ok A (store_offset A path x y b)" if "agent_ok A b" for x y b
    using that by (auto simp: store_offset_def simp del: snd_conv intro!: agent_ok_on_store store_ok_ops agent_okD)
  show ?thesis
    unfolding scan_spool_def Let_def case_prod_beta
    using ok off agent_ok_mail by (auto intro: agent_ok_fold)
qed

lemma agent_ok_mail_scan: "agent_ok A a \<Longrightarrow> agent_ok A (run_mail_scan A a)"
  unfolding run_mail_scan_def Let_def by (rule agent_ok_fold) (rule agent_ok_scan_spool)

lemma agent_ok_execute: "agent_ok A a \<Longrightarrow> agent_ok A (execute_command A cmd a)"
proof -
  assume ok: "agent_ok A a"
  let ?E = "ap_outside A"
  have flush: "agent_ok A (b\<lparr>ag_store := flush_executions ?E c (ag_store b)\<rparr>)" if "agent_ok A b" for b c
    using that by (intro agent_ok_store store_ok_flush agent_okD)
  have complete: "agent_ok A (snd (on_store (complete_run_command ?E c i st m t1 t2 code) b))"
    if "agent_ok A b" for b c i st m t1 t2 code
    using that by (intro agent_ok_on_store) (simp_all add: agent_okD)
  show ?thesis
    unfolding execute_command_def Let_def case_prod_unfold
    by (intro complete flush agent_ok_buffer agent_ok_uuid agent_ok_save_run agent_ok_clock ok)
qed

text \<open>A server that follows its protocol sends no \<open>null\<close> among the claimed commands.\<close>

definition commands_not_null :: "agent_env \<Rightarrow> bool" where
  "commands_not_null E \<longleftrightarrow> (\<forall>n q status j cmds. ev_http E n q = Response status (Some j) \<and>
     decode_commands j = Some cmds \<longrightarrow> None \<notin> set cmds)"

definition loop_ok :: "app_env \<Rightarrow> loop_state \<Rightarrow> bool" where
  "loop_ok A l \<longleftrightarrow> agent_ok A (lp_agent l) \<and> None \<notin> set (lp_spawned l)"

lemma poll_not_null: "commands_not_null (ap_outside A) \<Longrightarrow> None \<notin> set (fst (poll_commands A a))"
  by (auto simp: poll_commands_def on_store_pair claim_run_commands_def http_get_def http_def commands_not_null_def
      split: sum.splits http_result.splits option.splits if_splits)

lemma loop_ok_poll: "commands_not_null (ap_outside A) \<Longrightarrow> loop_ok A l \<Longrightarrow> loop_ok A (poll_event A l)"
  using agent_ok_poll [of A "lp_agent l"] poll_not_null [of A "lp_agent l"]
  by (auto simp: loop_ok_def poll_event_def split: prod.split)

lemma process_scan_ok: "run_process_scan A a = Some a' \<Longrightarrow> agent_ok A a \<Longrightarrow> agent_ok A a'"
  by (auto simp: run_process_scan_def Let_def case_prod_beta split: option.splits
      intro: finish_all(2) agent_ok_clock start_all_ok)

lemma process_scan_total:
  assumes "agent_ok A a" and "orders_ok A"
  shows "\<exists>a'. run_process_scan A a = Some a' \<and> agent_ok A a'"
proof -
  have "known_ok A (ag_known a)" using assms(1) by (simp add: agent_ok_def)
  then have "match_jobs (ap_quote A) snaps (\<lambda>n. known_jobs_for_match (ap_jobs_order A n (ag_known a))) \<noteq> None" for snaps
    using match_known [OF _ assms(2)] by blast
  then have "run_process_scan A a \<noteq> None"
    by (simp add: run_process_scan_def Let_def case_prod_beta split: option.split) (metis option.distinct(1))
  then show ?thesis using process_scan_ok assms(1) by blast
qed

lemma handle_event_ok:
  assumes ok: "loop_ok A l" and "orders_ok A" and "commands_not_null (ap_outside A)"
  shows "\<exists>l'. handle_event A e l = Some l' \<and> loop_ok A l'"
proof (cases e)
  case Process_Tick
  then show ?thesis using process_scan_total [of A "lp_agent l"] assms by (auto simp: loop_ok_def)
next
  case Command_Run
  show ?thesis
  proof (cases "lp_spawned l")
    case (Cons c rest)
    then obtain cmd where "c = Some cmd" using ok by (cases c) (auto simp: loop_ok_def)
    then show ?thesis using Cons ok agent_ok_execute [of A "lp_agent l" cmd]
      by (auto simp: Command_Run loop_ok_def execute_run_command_def)
  qed (use ok Command_Run in simp)
next
  case Command_Tick
  then show ?thesis using assms loop_ok_poll by simp
qed (use ok in \<open>simp_all add: loop_ok_def agent_ok_heartbeat agent_ok_discovery agent_ok_report agent_ok_mail_scan\<close>)

lemma run_events_ok:
  assumes "loop_ok A l" and "orders_ok A" and "commands_not_null (ap_outside A)"
  shows "\<exists>l'. run_events A es l = Some l' \<and> loop_ok A l'"
  using assms(1)
proof (induction es arbitrary: l)
  case (Cons e es)
  obtain l1 where "handle_event A e l = Some l1" "loop_ok A l1"
    using handle_event_ok [OF Cons.prems assms(2,3)] by blast
  then show ?case using Cons.IH by simp
qed simp

lemma init_agent_ok:
  assumes "init_agent A cfg file = Inr a" and "store_ok file"
  shows "agent_ok A a \<and> ag_cfg a = cfg \<and> ag_known a = [] \<and> ag_active a = []"
  using assms by (auto simp: init_agent_def open_store_def get_meta_def tx_defs agent_ok_def known_ok_def active_ok_def
      split: if_splits option.splits)


definition sample_file :: store where
  "sample_file = empty_store\<lparr>st_meta := [(''host_id'', ''h1'')]\<rparr>"


section \<open>The mail scan\<close>

definition stored_offset :: "agent \<Rightarrow> string \<Rightarrow> int" where
  "stored_offset a path =
     (case kv_get (st_meta (ag_store a)) (offset_key path) of
        None \<Rightarrow> 0 | Some t \<Rightarrow> (case scan_int t of None \<Rightarrow> 0 | Some n \<Rightarrow> n))"

lemma buffer_event_meta [simp]: "st_meta (ag_store (buffer_event A i ev a)) = st_meta (ag_store a)"
  by (simp add: buffer_event_def buffer_execution_def save_execution_def tx_defs)

lemma process_mail_emit:
  assumes "outside_ok (ap_outside A)" and "fresh_ids (ap_outside A) a"
  shows "size (payloads (process_mail_message A msg a)) = Suc (size (payloads a))"
    and "fresh_ids (ap_outside A) (process_mail_message A msg a)"
    and "st_meta (ag_store (process_mail_message A msg a)) = st_meta (ag_store a)"
proof -
  let ?h = "mail_job (cm_command msg) (ap_jobs_order A (ag_tick a) (ag_known a))"
  let ?b = "a\<lparr>ag_store := tick (ag_store a)\<rparr>"
  have p: "process_mail_message A msg a
      = buffer_event A (ev_uuid (ap_outside A) (ag_tick a)) (mail_event msg ?h) ?b"
    by (simp add: process_mail_message_def Let_def on_store_pair new_uuid_def)
  note e = emit_event [OF assms, of ?b "ag_tick a" "mail_event msg ?h"]
  show "size (payloads (process_mail_message A msg a)) = Suc (size (payloads a))" using e(1) by (simp add: p)
  show "fresh_ids (ap_outside A) (process_mail_message A msg a)" using e(2) by (simp add: p)
  show "st_meta (ag_store (process_mail_message A msg a)) = st_meta (ag_store a)" by (simp add: p)
qed

lemma process_mails_emit:
  assumes "outside_ok (ap_outside A)" and "fresh_ids (ap_outside A) a"
  shows "size (payloads (fold (process_mail_message A) msgs a)) = size (payloads a) + length msgs
    \<and> fresh_ids (ap_outside A) (fold (process_mail_message A) msgs a)
    \<and> st_meta (ag_store (fold (process_mail_message A) msgs a)) = st_meta (ag_store a)"
  using assms(2)
proof (induction msgs arbitrary: a)
  case (Cons m msgs)
  show ?case using Cons.IH [OF process_mail_emit(2) [OF assms(1) Cons.prems]]
      process_mail_emit [OF assms(1) Cons.prems] by simp
qed simp

text \<open>A scan of a readable spool, with its transactions going through.\<close>

lemma scan_spool_steps:
  assumes env: "outside_ok (ap_outside A)" and fresh: "fresh_ids (ap_outside A) a"
    and read: "read_new (ap_mail A (Suc (ag_tick a))) (ap_spool A (Suc (ag_tick a)) path) (stored_offset a path)
      = (msgs, off, False)"
    and range: "0 \<le> off" "off < 2 ^ 63"
  shows "size (payloads (scan_spool A path a)) = size (payloads a) + length msgs
    \<and> fresh_ids (ap_outside A) (scan_spool A path a) \<and> stored_offset (scan_spool A path a) path = off"
proof -
  let ?a = "a\<lparr>ag_store := tick (ag_store a)\<rparr>" and ?b = "store_offset A path (stored_offset a path) off
    (a\<lparr>ag_store := tick (ag_store a)\<rparr>)"
  have "scan_spool A path a = fold (process_mail_message A) msgs ?b"
    using env read unfolding scan_spool_def on_store_pair get_meta_def tx_defs outside_ok_def stored_offset_def
    by (cases "kv_get (st_meta (ag_store a)) (offset_key path)") (simp_all add: scan_int_def)
  moreover have b: "payloads ?b = payloads a" "fresh_ids (ap_outside A) ?b"
    using fresh by (simp_all add: store_offset_def payloads_def fresh_ids_def set_meta_def tx_defs)
  moreover have "stored_offset ?b path = off"
    using env range by (auto simp: store_offset_def stored_offset_def set_meta_def tx_defs outside_ok_def scan_show_int
        split: option.splits)
  ultimately show ?thesis using process_mails_emit [OF env b(2), of msgs] by (simp add: stored_offset_def)
qed

text \<open>Each mail is reported once: a scan buffers one event for every message after the stored offset
  and moves the offset to the end of the spool, and the next scan of the same spool buffers nothing.\<close>

theorem mail_scan_once:
  assumes "outside_ok (ap_outside A)" and "fresh_ids (ap_outside A) a"
    and "\<forall>n. ap_spool A n path = Spool (length content) content" and "content \<noteq> []"
    and "int (length content) < 2 ^ 63"
    and "0 \<le> stored_offset a path" and "stored_offset a path < int (length content)"
  shows "let a' = scan_spool A path a in
     size (payloads a') = size (payloads a)
       + length (parse_mbox (ap_mail A (Suc (ag_tick a))) (drop (nat (stored_offset a path)) content))
     \<and> stored_offset a' path = int (length content)
     \<and> size (payloads (scan_spool A path a')) = size (payloads a')"
proof -
  let ?off = "stored_offset a path" and ?E = "ap_mail A (Suc (ag_tick a))"
  let ?msgs = "parse_mbox ?E (drop (nat ?off) content)" and ?a' = "scan_spool A path a"
  have read: "read_new ?E (ap_spool A (Suc (ag_tick a)) path) ?off = (?msgs, int (length content), False)"
    using assms(3-) by (auto simp: read_new_def Let_def)
  have one: "size (payloads ?a') = size (payloads a) + length ?msgs" "fresh_ids (ap_outside A) ?a'"
    "stored_offset ?a' path = int (length content)"
    using scan_spool_steps [OF assms(1,2) read] assms(5) by simp_all
  have "read_new (ap_mail A (Suc (ag_tick ?a'))) (ap_spool A (Suc (ag_tick ?a')) path) (stored_offset ?a' path)
      = ([], int (length content), False)"
    using assms(3,4) by (simp add: one(3) read_new_def)
  from scan_spool_steps [OF assms(1) one(2) this] assms(5)
  show ?thesis using one by (simp add: Let_def)
qed

text \<open>The sample machine with a mailbox.\<close>

definition mail_sample_env :: "string \<Rightarrow> app_env" where
  "mail_sample_env content = (sample_env [])\<lparr>ap_spool := (\<lambda>n p. Spool (length content) content)\<rparr>"

theorem mail_scan_once_witness:
  "stored_offset (scan_spool (mail_sample_env ''From a b'') ''/var/mail/root'' (sample_agent [(9, sample_active)]))
     ''/var/mail/root'' = 8"
proof -
  let ?A = "mail_sample_env ''From a b''" and ?a = "sample_agent [(9, sample_active)]"
  have "ap_outside ?A = ap_outside (sample_env [])" by (simp add: mail_sample_env_def)
  then have "outside_ok (ap_outside ?A)" "fresh_ids (ap_outside ?A) ?a" using sample_ok(3,4) by simp_all
  moreover have "stored_offset ?a ''/var/mail/root'' = 0"
    by (simp add: stored_offset_def sample_agent_def empty_store_def kv_get_def)
  ultimately show ?thesis
    using mail_scan_once [of ?A ?a "''/var/mail/root''" "''From a b''"]
    by (simp add: mail_sample_env_def Let_def)
qed

text \<open>Correlation by substring: a job whose normalised command is empty, one whose whole command is a
  redirection, takes every mail that is tried against it first.\<close>

theorem empty_command_takes_mail:
  assumes "dj_normalized_command j = []"
  shows "mail_job command ((h, j) # jobs) = h \<and> normalize_command ''> /dev/null'' = []"
proof -
  have "contains command []" unfolding contains_iff by (intro exI [of _ "[]"] exI [of _ command]) simp
  moreover have "normalize_command ''> /dev/null'' = []" by code_simp
  ultimately show ?thesis using assms by simp
qed

theorem empty_command_takes_mail_witness:
  "mail_job ''/usr/bin/backup'' [(''h'', sample_job\<lparr>dj_normalized_command := []\<rparr>)] = ''h''"
  using empty_command_takes_mail [of "sample_job\<lparr>dj_normalized_command := []\<rparr>"] by simp

end
