(* ===== verification/AgentCli.thy ===== *)
theory AgentCli
  imports AgentApp
begin

text \<open>
  The command line of the agent (\<open>apps/agent/cmd/agent/main.go\<close>): enrollment, the daemon commands
  and the local status table. Console input, files, signals and the enrollment answer are
  parameters; flag parsing by cobra and the layout of the printed table are left out.
\<close>

section \<open>Small helpers\<close>

definition default_config_path :: string where
  "default_config_path = ''/etc/observer-agent/config.yaml''"

definition agent_version :: string where
  "agent_version = ''0.1.0''"

definition default_state_file :: string where
  "default_state_file = ''/var/lib/observer-agent/state.db''"

definition state_dir :: "string \<Rightarrow> string" where
  "state_dir path = state_dir_from (\<lambda>c. c = CHR ''/'') (rev path)"

definition default_token_file :: "string \<Rightarrow> string" where
  "default_token_file config_path = state_dir config_path @ ''/credentials.yaml''"

definition default_value :: "string \<Rightarrow> string \<Rightarrow> string" where
  "default_value val fallback = (if val \<noteq> [] then val else fallback)"

definition daemon_paths :: "config option \<Rightarrow> string \<Rightarrow> string \<Rightarrow> string \<times> string" where
  "daemon_paths cfg pid_override log_override =
     (let base_dir = (case cfg of
                        Some c \<Rightarrow> if ac_state_file (cfg_agent c) \<noteq> [] then state_dir (ac_state_file (cfg_agent c))
                                  else ''/var/lib/observer-agent''
                      | None \<Rightarrow> ''/var/lib/observer-agent'')
      in (if pid_override = [] then base_dir @ ''/observer-agent.pid'' else pid_override,
          if log_override = [] then base_dir @ ''/observer-agent.log'' else log_override))"

text \<open>
  For the daemon commands an error that is \<open>os.ErrNotExist\<close>, also that of the credential file, or
  whose text says \<open>open config\<close>, as every error of opening the configuration does, counts as an
  absent configuration.
\<close>

definition load_config_if_exists :: "yaml_env \<Rightarrow> string \<Rightarrow> config_error + config option" where
  "load_config_if_exists Y path =
     (case load_config Y path of
        Inr cfg \<Rightarrow> Inr (Some cfg)
      | Inl (Open_Config r) \<Rightarrow> Inr None
      | Inl (Open_Credential No_Such_File) \<Rightarrow> Inr None
      | Inl e \<Rightarrow> (if contains (ye_error_text Y e) ''open config'' then Inr None else Inl e))"

definition prompt :: "string \<Rightarrow> string \<Rightarrow> string" where
  "prompt line fallback = (if trim_space line = [] then fallback else trim_space line)"

definition generate_machine_id :: "string option \<Rightarrow> string \<Rightarrow> string" where
  "generate_machine_id machine_id_file uuid =
     (case machine_id_file of
        Some data \<Rightarrow> if trim_space data \<noteq> [] then trim_space data else uuid
      | None \<Rightarrow> uuid)"

section \<open>Enrollment\<close>

definition build_config ::
  "string \<Rightarrow> string \<Rightarrow> string \<Rightarrow> string \<Rightarrow> string \<Rightarrow> enroll_response \<Rightarrow> json" where
  "build_config server_url token_file machine_id hostname state_file resp =
     (let c = ep_config resp in
      json_map
        [(''server'', json_map [(''url'', JStr server_url), (''token_file'', JStr token_file)]),
         (''agent'', json_map
            [(''machine_id'', JStr machine_id), (''hostname'', JStr hostname),
             (''environment'', JStr (bc_environment c)), (''tags'', JArr (map JStr (bc_tags c))),
             (''version'', JStr agent_version), (''state_file'', JStr state_file),
             (''heartbeat_interval'', JStr (default_value (bc_heartbeat_interval c) ''30s'')),
             (''discovery_interval'', JStr (default_value (bc_discovery_interval c) ''5m'')),
             (''process_scan_interval'', JStr (default_value (bc_process_scan_interval c) ''30s'')),
             (''report_interval'', JStr (default_value (bc_report_interval c) ''1m'')),
             (''command_poll_interval'', JStr (default_value (bc_command_poll_interval c) ''15s''))]),
         (''probes'', JArr [])])"

text \<open>The payload flag fills in what the other flags leave empty.\<close>

definition init_arguments ::
  "(string \<Rightarrow> string option) \<Rightarrow> (string \<Rightarrow> (string \<times> string) option) \<Rightarrow> string \<Rightarrow> string \<Rightarrow> string
   \<Rightarrow> (string + string \<times> string)" where
  "init_arguments decode64 decode_payload payload server_url enrollment_token =
     (if payload = [] then Inr (server_url, enrollment_token)
      else (case decode64 payload of
              None \<Rightarrow> Inl ''invalid --payload (not valid base64)''
            | Some raw \<Rightarrow>
                (case decode_payload raw of
                   None \<Rightarrow> Inl ''invalid --payload (bad JSON)''
                 | Some (url, token) \<Rightarrow>
                     Inr (if server_url = [] then url else server_url,
                          if enrollment_token = [] then token else enrollment_token))))"

datatype init_effect =
    Made_Dir string
  | Truncated string
  | Wrote_Credential string string
  | Wrote_Config string json
  | Saved_Host_Id string string

datatype init_error =
    Server_Url_Required | Token_Unreadable | Token_Required | Enrollment_Failed client_error
  | Credential_Failed | Config_Failed | State_Failed | Host_Id_Failed

text \<open>The line typed for the server, whether \<open>stty\<close> can turn the echo off, and the line typed for the token.\<close>

record console =
  co_url_line :: string
  co_hide_echo :: bool
  co_secret_line :: "string option"

text \<open>Files are asked by path: whether its directories can be made, whether it can be created or cut to
  length zero, whether the document can be written into it, whether it opens as a state file.\<close>

record init_env =
  ie_hostname :: string
  ie_machine_id :: string
  ie_enroll :: "string \<Rightarrow> enroll_request \<Rightarrow> client_error + enroll_response"
  ie_mkdir :: "string \<Rightarrow> bool"
  ie_create :: "string \<Rightarrow> bool"
  ie_encode :: "string \<Rightarrow> bool"
  ie_open_state :: "string \<Rightarrow> bool"
  ie_set_meta :: bool

definition prompt_secret :: "console \<Rightarrow> string option" where
  "prompt_secret C = (if co_hide_echo C then map_option trim_space (co_secret_line C) else None)"

text \<open>Console prompts fill in a missing server URL or token.\<close>

definition ask_missing :: "console \<Rightarrow> string \<Rightarrow> string \<Rightarrow> init_error + string \<times> string" where
  "ask_missing C server_url enrollment_token =
     (if server_url \<noteq> [] \<and> enrollment_token \<noteq> [] then Inr (server_url, enrollment_token)
      else let url = prompt (co_url_line C) server_url in
           if url = [] then Inl Server_Url_Required
           else if enrollment_token \<noteq> [] then Inr (url, enrollment_token)
           else (case prompt_secret C of
                   None \<Rightarrow> Inl Token_Unreadable
                 | Some token \<Rightarrow> if token = [] then Inl Token_Required else Inr (url, token)))"

definition made_dir :: "init_env \<Rightarrow> string \<Rightarrow> init_effect list" where
  "made_dir V dir = (if ie_mkdir V dir then [Made_Dir dir] else [])"

definition write_document :: "init_env \<Rightarrow> string \<Rightarrow> init_effect \<Rightarrow> init_effect list \<times> bool" where
  "write_document V path doc =
     (if \<not> ie_create V path then ([], False)
      else if \<not> ie_encode V path then ([Truncated path], False)
      else ([doc], True))"

text \<open>A directory that cannot be made is only warned about for the configuration.\<close>

definition write_config_file :: "init_env \<Rightarrow> string \<Rightarrow> json \<Rightarrow> init_effect list \<times> bool" where
  "write_config_file V path cfg =
     (case write_document V path (Wrote_Config path cfg) of
        (effs, ok) \<Rightarrow> (made_dir V (state_dir path) @ effs, ok))"

definition write_credential_file :: "init_env \<Rightarrow> string \<Rightarrow> string \<Rightarrow> init_effect list \<times> bool" where
  "write_credential_file V path token =
     (if \<not> ie_mkdir V (state_dir path) then ([], False)
      else (case write_document V path (Wrote_Credential path token) of
              (effs, ok) \<Rightarrow> (made_dir V (state_dir path) @ effs, ok)))"

definition interactive_init ::
  "init_env \<Rightarrow> console \<Rightarrow> string \<Rightarrow> string \<Rightarrow> string \<Rightarrow> string \<Rightarrow> string \<Rightarrow> init_effect list \<times> init_error option" where
  "interactive_init V C server_url enrollment_token config_out state_file token_file =
     (let config_out = (if config_out = [] then default_config_path else config_out);
          state_file = (if state_file = [] then default_state_file else state_file);
          token_file = (if token_file = [] then default_token_file config_out else token_file) in
      case ask_missing C server_url enrollment_token of
        Inl e \<Rightarrow> ([], Some e)
      | Inr (server_url, enrollment_token) \<Rightarrow>
          (case ie_enroll V server_url \<lparr>eq_enrollment_token = enrollment_token, eq_machine_id = ie_machine_id V,
                  eq_hostname = ie_hostname V, eq_ip_address = [], eq_agent_version = agent_version\<rparr> of
             Inl e \<Rightarrow> ([], Some (Enrollment_Failed e))
           | Inr resp \<Rightarrow>
               (case write_credential_file V token_file (ep_token resp) of
                  (cred, False) \<Rightarrow> (cred, Some Credential_Failed)
                | (cred, True) \<Rightarrow>
                    (case write_config_file V config_out
                            (build_config server_url token_file (ie_machine_id V) (ie_hostname V) state_file resp) of
                       (conf, False) \<Rightarrow> (cred @ conf, Some Config_Failed)
                     | (conf, True) \<Rightarrow>
                         let effs = cred @ conf @ made_dir V (state_dir state_file) in
                         if \<not> ie_open_state V state_file then (effs, Some State_Failed)
                         else if \<not> ie_set_meta V then (effs, Some Host_Id_Failed)
                         else (effs @ [Saved_Host_Id state_file (ep_host_id resp)], None)))))"

text \<open>Whatever fails after the enrollment, the server keeps the host it registered. A path in the root
  directory has the empty directory name, which no system can make: the credential is never written.\<close>

lemma state_dir_root:
  assumes "CHR ''/'' \<notin> set name"
  shows "state_dir (CHR ''/'' # name) = []"
proof -
  have "\<forall>c \<in> set xs. \<not> sep c \<Longrightarrow> sep d \<Longrightarrow> state_dir_from sep (xs @ [d]) = []" for sep d and xs :: string
    by (induction xs) auto
  from this [of "rev name" "\<lambda>c. c = CHR ''/''"] show ?thesis
    using assms by (auto simp: state_dir_def)
qed

lemma credential_in_root_fails:
  assumes "\<not> ie_mkdir V []" and "CHR ''/'' \<notin> set name" and "server_url \<noteq> []" and "token \<noteq> []"
    and "ie_enroll V server_url \<lparr>eq_enrollment_token = token, eq_machine_id = ie_machine_id V,
           eq_hostname = ie_hostname V, eq_ip_address = [], eq_agent_version = agent_version\<rparr> = Inr resp"
  shows "interactive_init V C server_url token config_out state_file (CHR ''/'' # name) = ([], Some Credential_Failed)"
  using assms by (simp add: interactive_init_def ask_missing_def write_credential_file_def state_dir_root)

datatype stat_config = Config_Present | Config_Missing | Config_Stat_Error

definition ensure_config ::
  "init_env \<Rightarrow> console \<Rightarrow> stat_config \<Rightarrow> string \<Rightarrow> init_effect list \<times> (init_error option) option" where
  "ensure_config V C st path =
     (case st of
        Config_Present \<Rightarrow> ([], Some None)
      | Config_Stat_Error \<Rightarrow> ([], None)
      | Config_Missing \<Rightarrow>
          (case interactive_init V C [] [] path default_state_file (default_token_file path) of
             (effs, err) \<Rightarrow> (effs, Some err)))"

section \<open>The daemon commands\<close>

datatype kill_result = Kill_Ok | Kill_No_Process | Kill_Failed

record daemon_os =
  do_read :: "string \<Rightarrow> string option"
  do_kill :: "int \<Rightarrow> int \<Rightarrow> kill_result"

definition sigterm :: int where
  "sigterm = 15"

definition daemon_running :: "daemon_os \<Rightarrow> string \<Rightarrow> bool \<times> int" where
  "daemon_running D pid_path =
     (case do_read D pid_path of
        None \<Rightarrow> (False, 0)
      | Some data \<Rightarrow>
          (case parse_int (trim_space data) of
             None \<Rightarrow> (False, 0)
           | Some pid \<Rightarrow> if do_kill D pid 0 = Kill_Ok then (True, pid) else (False, pid)))"

datatype stop_result = Stop_Read_Error | Stop_Bad_Pid | Stop_Kill_Error | Stop_Sent int

text \<open>Whether the pid file is removed, and the result.\<close>

definition stop_daemon :: "daemon_os \<Rightarrow> string \<Rightarrow> bool \<times> stop_result" where
  "stop_daemon D pid_path =
     (case do_read D pid_path of
        None \<Rightarrow> (False, Stop_Read_Error)
      | Some data \<Rightarrow>
          (case parse_int (trim_space data) of
             None \<Rightarrow> (False, Stop_Bad_Pid)
           | Some pid \<Rightarrow> if do_kill D pid sigterm = Kill_Failed then (False, Stop_Kill_Error)
                         else (True, Stop_Sent pid)))"

record start_env =
  se_mkdir :: "string \<Rightarrow> bool"
  se_open_log :: bool
  se_executable :: "string option"
  se_start :: "string list \<Rightarrow> int option"
  se_write_pid :: bool

datatype start_result = Start_Failed | Orphaned int | Already_Running int | Started int string

text \<open>The result of the start; the pid file holds the decimal pid. When it cannot be written the process runs on,
  although the command fails.\<close>

definition start_detached :: "daemon_os \<Rightarrow> start_env \<Rightarrow> string \<Rightarrow> string \<Rightarrow> string \<Rightarrow> start_result" where
  "start_detached D S config_path pid_path log_path =
     (if \<not> se_mkdir S (state_dir pid_path) \<or> \<not> se_mkdir S (state_dir log_path) then Start_Failed
      else (case daemon_running D pid_path of
              (True, pid) \<Rightarrow> Already_Running pid
            | (False, _) \<Rightarrow>
                if \<not> se_open_log S then Start_Failed
                else (case se_executable S of
                        None \<Rightarrow> Start_Failed
                      | Some exe \<Rightarrow>
                          (case se_start S [exe, ''run'', ''--config'', config_path, ''--foreground''] of
                             None \<Rightarrow> Start_Failed
                           | Some pid \<Rightarrow> if se_write_pid S then Started pid (show_int pid) else Orphaned pid))))"

section \<open>The local status table\<close>

record summary =
  su_command :: string
  su_schedule :: string
  su_status :: string
  su_trigger :: string
  su_last_run :: time
  su_updated_at :: time
  su_success :: nat
  su_failed :: nat
  su_running :: nat
  su_partial :: nat

definition summary_key :: "local_execution \<Rightarrow> string" where
  "summary_key r = (if le_command_hash r = [] then le_command r else le_command_hash r)"

definition empty_summary :: "local_execution \<Rightarrow> summary" where
  "empty_summary r = \<lparr>su_command = le_command r, su_schedule = le_schedule r, su_status = [], su_trigger = [],
     su_last_run = zero_time, su_updated_at = zero_time, su_success = 0, su_failed = 0, su_running = 0,
     su_partial = 0\<rparr>"

definition count_status :: "string \<Rightarrow> summary \<Rightarrow> summary" where
  "count_status st s =
     (if st = ''success'' then s\<lparr>su_success := Suc (su_success s)\<rparr>
      else if st = ''failed'' then s\<lparr>su_failed := Suc (su_failed s)\<rparr>
      else if st = ''running'' then s\<lparr>su_running := Suc (su_running s)\<rparr>
      else s\<lparr>su_partial := Suc (su_partial s)\<rparr>)"

definition add_record :: "local_execution \<Rightarrow> summary \<Rightarrow> summary" where
  "add_record r s =
     (let s = (if su_last_run s < le_started_at r then s\<lparr>su_last_run := le_started_at r\<rparr> else s);
          s = (if su_updated_at s < le_last_updated_at r \<or> su_updated_at s = zero_time
               then s\<lparr>su_updated_at := le_last_updated_at r, su_status := le_status r, su_trigger := le_trigger r\<rparr>
               else s)
      in count_status (le_status r) s)"

definition group_record :: "local_execution \<Rightarrow> (string \<times> summary) list \<Rightarrow> (string \<times> summary) list" where
  "group_record r grouped =
     (let k = summary_key r;
          item = (case kv_get grouped k of None \<Rightarrow> empty_summary r | Some s \<Rightarrow> s)
      in kv_put k (add_record r item) grouped)"

definition group_records :: "local_execution list \<Rightarrow> (string \<times> summary) list" where
  "group_records rs = fold group_record rs []"

text \<open>\<open>sort.Slice\<close> after ranging over the map: \<open>order\<close> is the order the map was visited in.\<close>

definition status_rows :: "((string \<times> summary) list \<Rightarrow> (string \<times> summary) list) \<Rightarrow> local_execution list \<Rightarrow> summary list" where
  "status_rows order rs = sort_key (\<lambda>s. - su_last_run s) (map snd (order (group_records rs)))"

definition local_status ::
  "agent_env \<Rightarrow> ((string \<times> summary) list \<Rightarrow> (string \<times> summary) list) \<Rightarrow> duration \<Rightarrow> store \<Rightarrow> summary list option" where
  "local_status E order since s =
     (case clock E s of
        (now, s) \<Rightarrow>
          (case list_local_executions_since E (now - since) s of
             (None, s) \<Rightarrow> None
           | (Some rs, s) \<Rightarrow> Some (status_rows order rs)))"

section \<open>Lemmas\<close>

definition summary_total :: "summary \<Rightarrow> nat" where
  "summary_total s = su_success s + su_failed s + su_running s + su_partial s"

definition status_count :: "string \<Rightarrow> local_execution list \<Rightarrow> nat" where
  "status_count st rs = length (filter (\<lambda>r. le_status r = st) rs)"

text \<open>What a row says of the records it stands for.\<close>

definition row_of :: "local_execution list \<Rightarrow> summary \<Rightarrow> bool" where
  "row_of rs s \<longleftrightarrow> su_success s = status_count ''success'' rs \<and> su_failed s = status_count ''failed'' rs
     \<and> su_running s = status_count ''running'' rs \<and> summary_total s = length rs
     \<and> (\<forall>r \<in> set rs. le_started_at r \<le> su_last_run s)"

lemma row_of_add: "row_of rs s \<Longrightarrow> row_of (rs @ [r]) (add_record r s)"
  by (auto simp: row_of_def add_record_def count_status_def summary_total_def status_count_def Let_def)

lemma row_of_first: "row_of [r] (add_record r (empty_summary r))"
  by (simp add: row_of_def add_record_def count_status_def summary_total_def status_count_def empty_summary_def Let_def)

lemma group_records_snoc: "group_records (rs @ [r]) = group_record r (group_records rs)"
  by (simp add: group_records_def)

definition records_of :: "string \<Rightarrow> local_execution list \<Rightarrow> local_execution list" where
  "records_of k rs = filter (\<lambda>r. summary_key r = k) rs"

lemma records_of_snoc: "records_of k (rs @ [r]) = records_of k rs @ (if summary_key r = k then [r] else [])"
  by (simp add: records_of_def)

lemma group_records_inv: "kv_inv (group_records rs)"
  by (induction rs rule: rev_induct) (simp_all add: group_records_snoc group_record_def Let_def, simp add: group_records_def)

lemma group_records_rows:
  "(kv_get (group_records rs) k = None \<longleftrightarrow> records_of k rs = [])
   \<and> (\<forall>s. kv_get (group_records rs) k = Some s \<longrightarrow> row_of (records_of k rs) s)"
proof (induction rs rule: rev_induct)
  case Nil
  then show ?case by (simp add: group_records_def kv_get_def records_of_def)
next
  case (snoc r rs)
  show ?case
  proof (cases "summary_key r = k")
    case True
    then show ?thesis
      using snoc row_of_first [of r] row_of_add [of "records_of k rs" _ r]
      by (cases "kv_get (group_records rs) k")
        (simp_all add: group_records_snoc group_record_def Let_def records_of_snoc)
  qed (use snoc in \<open>simp add: group_records_snoc group_record_def Let_def records_of_snoc\<close>)
qed

text \<open>The status table has one row per job (command hash, or command text where there is none), sorted
  by last run, newest first; the counters of a row are those of its job's records, and its last run is no
  earlier than any of their starts.\<close>

theorem status_table:
  assumes "\<forall>kvs. mset (order kvs) = mset kvs"
  shows "sorted_wrt (\<lambda>s t. su_last_run t \<le> su_last_run s) (status_rows order rs)
    \<and> mset (status_rows order rs) = image_mset snd (mset (group_records rs))
    \<and> fst ` set (group_records rs) = summary_key ` set rs
    \<and> (\<forall>(k, s) \<in> set (group_records rs). row_of (filter (\<lambda>r. summary_key r = k) rs) s)"
proof (intro conjI ballI)
  have "sorted (map (\<lambda>s. - su_last_run s) (status_rows order rs))" by (simp add: status_rows_def)
  then show "sorted_wrt (\<lambda>s t. su_last_run t \<le> su_last_run s) (status_rows order rs)"
    by (simp add: sorted_wrt_map)
  show "mset (status_rows order rs) = image_mset snd (mset (group_records rs))"
    using assms by (simp add: status_rows_def)
  have "k \<in> fst ` set (group_records rs) \<longleftrightarrow> k \<in> summary_key ` set rs" for k
    using group_records_rows [of rs k]
    by (auto simp: kv_get_def map_of_eq_None_iff records_of_def filter_empty_conv)
  then show "fst ` set (group_records rs) = summary_key ` set rs" by blast
  fix x assume x: "x \<in> set (group_records rs)"
  obtain k s where ks: "x = (k, s)" by (rule prod.exhaust)
  then have "kv_get (group_records rs) k = Some s" using x kv_get_entries [OF group_records_inv] by blast
  then show "case x of (k, s) \<Rightarrow> row_of (filter (\<lambda>r. summary_key r = k) rs) s"
    using group_records_rows [of rs k] by (simp add: ks records_of_def)
qed

theorem status_table_witness:
  "sorted_wrt (\<lambda>s t. su_last_run t \<le> su_last_run s)
     (status_rows rev [running_record ''i'' \<lparr>mp_process = \<lparr>ps_pid = 7, ps_ppid = 1, ps_cmdline = [], ps_create_time = 0\<rparr>,
        mp_job_hash = ''h'', mp_confidence = 1, mp_evidence = []\<rparr> sample_job])"
  using status_table [of rev] by simp

text \<open>A missing credential file hides the configuration from the daemon commands: they fall back to the
  default state directory, whatever state file the configuration names.\<close>

lemma missing_credential_hides_config:
  assumes "ye_open Y path = Opened text" and "ye_config Y text = Some cfg"
    and "sc_token (cfg_server cfg) = []" and "sc_token_file (cfg_server cfg) = token_path" and "token_path \<noteq> []"
    and "ye_open Y token_path = No_Such_File"
  shows "load_config_if_exists Y path = Inr None
     \<and> daemon_paths None [] [] = (''/var/lib/observer-agent/observer-agent.pid'', ''/var/lib/observer-agent/observer-agent.log'')"
  using assms by (simp add: load_config_if_exists_def load_config_def load_token_file_def daemon_paths_def)

end
