(* ===== verification/AgentDaemon.thy ===== *)
theory AgentDaemon
  imports AgentCli
begin

text \<open>
  The commands of the agent as cobra runs them (\<open>apps/agent/cmd/agent/main.go\<close>), composed of the parts in
  \<open>AgentCli\<close>, and what the daemon commands do to the processes of a host that share one pid file.
\<close>

section \<open>The flags\<close>

text \<open>What cobra leaves in the variables of a command, and their values when no flag is given.\<close>

record init_flags =
  if_server :: string
  if_enrollment_token :: string
  if_payload :: string
  if_config_out :: string
  if_state_file :: string
  if_token_file :: string

definition init_defaults :: init_flags where
  "init_defaults = \<lparr>if_server = [], if_enrollment_token = [], if_payload = [], if_config_out = default_config_path,
     if_state_file = default_state_file, if_token_file = []\<rparr>"

record run_flags =
  rf_config :: string
  rf_daemon :: bool
  rf_foreground :: bool
  rf_pid_file :: string
  rf_log_file :: string

definition run_defaults :: run_flags where
  "run_defaults = \<lparr>rf_config = default_config_path, rf_daemon = False, rf_foreground = False, rf_pid_file = [],
     rf_log_file = []\<rparr>"

record daemon_flags =
  df_config :: string
  df_pid_file :: string
  df_log_file :: string

definition daemon_defaults :: daemon_flags where
  "daemon_defaults = \<lparr>df_config = default_config_path, df_pid_file = [], df_log_file = []\<rparr>"

record status_flags =
  sf_config :: string
  sf_since :: string

definition status_defaults :: status_flags where
  "status_defaults = \<lparr>sf_config = default_config_path, sf_since = ''24h''\<rparr>"

section \<open>The commands\<close>

datatype init_cmd_error = Bad_Payload string | Init_Failed init_error

definition init_cmd ::
  "(string \<Rightarrow> string option) \<Rightarrow> (string \<Rightarrow> (string \<times> string) option) \<Rightarrow> init_env \<Rightarrow> console \<Rightarrow> init_flags
   \<Rightarrow> init_effect list \<times> init_cmd_error option" where
  "init_cmd decode64 decode_payload V C f =
     (case init_arguments decode64 decode_payload (if_payload f) (if_server f) (if_enrollment_token f) of
        Inl e \<Rightarrow> ([], Some (Bad_Payload e))
      | Inr (url, token) \<Rightarrow>
          map_prod id (map_option Init_Failed)
            (interactive_init V C url token (if_config_out f) (if_state_file f) (if_token_file f)))"

datatype run_outcome =
    Not_Enrolled "init_error option"
  | Bad_Config config_error
  | Detached start_result
  | Foreground config

text \<open>\<open>Y\<close> is the file system after the effects of an enrollment.\<close>

definition run_cmd ::
  "init_env \<Rightarrow> console \<Rightarrow> stat_config \<Rightarrow> (init_effect list \<Rightarrow> yaml_env) \<Rightarrow> daemon_os \<Rightarrow> start_env
   \<Rightarrow> string \<Rightarrow> bool \<Rightarrow> bool \<Rightarrow> string \<Rightarrow> string \<Rightarrow> run_outcome" where
  "run_cmd V C st Y D S config_path daemon foreground pid_file log_file =
     (case ensure_config V C st config_path of
        (effs, None) \<Rightarrow> Not_Enrolled None
      | (effs, Some (Some e)) \<Rightarrow> Not_Enrolled (Some e)
      | (effs, Some None) \<Rightarrow>
          (case load_config (Y effs) config_path of
             Inl e \<Rightarrow> Bad_Config e
           | Inr cfg \<Rightarrow>
               if daemon \<and> \<not> foreground
               then (case daemon_paths (Some cfg) pid_file log_file of
                       (pid_path, log_path) \<Rightarrow> Detached (start_detached D S config_path pid_path log_path))
               else Foreground cfg))"

definition root_cmd ::
  "init_env \<Rightarrow> console \<Rightarrow> stat_config \<Rightarrow> (init_effect list \<Rightarrow> yaml_env) \<Rightarrow> run_outcome" where
  "root_cmd V C st Y =
     (case ensure_config V C st default_config_path of
        (effs, None) \<Rightarrow> Not_Enrolled None
      | (effs, Some (Some e)) \<Rightarrow> Not_Enrolled (Some e)
      | (effs, Some None) \<Rightarrow>
          (case load_config (Y effs) default_config_path of
             Inl e \<Rightarrow> Bad_Config e | Inr cfg \<Rightarrow> Foreground cfg))"

text \<open>The pid of the running agent, if there is one, and the paths that the status names.\<close>

definition daemon_status :: "daemon_os \<Rightarrow> string \<Rightarrow> string \<Rightarrow> int option \<times> string \<times> string" where
  "daemon_status D pid_path log_path =
     (case daemon_running D pid_path of (running, pid) \<Rightarrow> (if running then Some pid else None, pid_path, log_path))"

definition daemon_status_cmd ::
  "yaml_env \<Rightarrow> daemon_os \<Rightarrow> string \<Rightarrow> string \<Rightarrow> string \<Rightarrow> config_error + int option \<times> string \<times> string" where
  "daemon_status_cmd Y D config_path pid_file log_file =
     (case load_config_if_exists Y config_path of
        Inl e \<Rightarrow> Inl e
      | Inr cfg \<Rightarrow> (case daemon_paths cfg pid_file log_file of (pid_path, log_path) \<Rightarrow> Inr (daemon_status D pid_path log_path)))"

definition daemon_stop_cmd ::
  "yaml_env \<Rightarrow> daemon_os \<Rightarrow> string \<Rightarrow> string \<Rightarrow> string \<Rightarrow> config_error + bool \<times> stop_result" where
  "daemon_stop_cmd Y D config_path pid_file log_file =
     (case load_config_if_exists Y config_path of
        Inl e \<Rightarrow> Inl e
      | Inr cfg \<Rightarrow> (case daemon_paths cfg pid_file log_file of (pid_path, log_path) \<Rightarrow> Inr (stop_daemon D pid_path)))"

datatype status_error = Status_Config config_error | Bad_Since | No_State open_error | No_Records

text \<open>The rows that are printed, with the command cut to 80 bytes.\<close>

definition printed_row :: "summary \<Rightarrow> time \<times> string \<times> string \<times> nat \<times> nat \<times> nat \<times> nat \<times> string \<times> string" where
  "printed_row s = (su_last_run s, su_status s, su_trigger s, su_success s, su_failed s, su_running s, su_partial s,
     su_schedule s, truncate_string (su_command s) 80)"

definition status_cmd ::
  "yaml_env \<Rightarrow> (string \<Rightarrow> duration option) \<Rightarrow> (string \<Rightarrow> open_error + store) \<Rightarrow> agent_env
   \<Rightarrow> ((string \<times> summary) list \<Rightarrow> (string \<times> summary) list) \<Rightarrow> string \<Rightarrow> string
   \<Rightarrow> status_error + (time \<times> string \<times> string \<times> nat \<times> nat \<times> nat \<times> nat \<times> string \<times> string) list" where
  "status_cmd Y dur open_state E order config_path since =
     (case load_config Y config_path of
        Inl e \<Rightarrow> Inl (Status_Config e)
      | Inr cfg \<Rightarrow>
          (case dur since of
             None \<Rightarrow> Inl Bad_Since
           | Some window \<Rightarrow>
               (case open_state (ac_state_file (cfg_agent cfg)) of
                  Inl e \<Rightarrow> Inl (No_State e)
                | Inr s \<Rightarrow>
                    (case local_status E order window s of
                       None \<Rightarrow> Inl No_Records
                     | Some rows \<Rightarrow> Inr (map printed_row rows)))))"

section \<open>Processes and the pid file\<close>

text \<open>The text of the pid file, the agents that run, those of them that were told to stop, and the other processes.\<close>

record machine =
  mc_pid_file :: "string option"
  mc_agents :: "int set"
  mc_stopping :: "int set"
  mc_others :: "int set"

definition os_of :: "machine \<Rightarrow> daemon_os" where
  "os_of m = \<lparr>do_read = (\<lambda>p. mc_pid_file m),
     do_kill = (\<lambda>pid sig. if pid \<in> mc_agents m \<or> pid \<in> mc_others m then Kill_Ok else Kill_No_Process)\<rparr>"

definition start_on :: "start_env \<Rightarrow> string \<Rightarrow> string \<Rightarrow> string \<Rightarrow> machine \<Rightarrow> machine" where
  "start_on S config_path pid_path log_path m =
     (case start_detached (os_of m) S config_path pid_path log_path of
        Started pid doc \<Rightarrow>
          m\<lparr>mc_pid_file := Some doc, mc_agents := insert pid (mc_agents m), mc_stopping := mc_stopping m - {pid}\<rparr>
      | Orphaned pid \<Rightarrow> m\<lparr>mc_agents := insert pid (mc_agents m), mc_stopping := mc_stopping m - {pid}\<rparr>
      | _ \<Rightarrow> m)"

definition stop_on :: "string \<Rightarrow> machine \<Rightarrow> machine" where
  "stop_on pid_path m =
     (case stop_daemon (os_of m) pid_path of
        (removed, Stop_Sent pid) \<Rightarrow>
          m\<lparr>mc_pid_file := if removed then None else mc_pid_file m, mc_stopping := insert pid (mc_stopping m)\<rparr>
      | _ \<Rightarrow> m)"

text \<open>The kernel gives a new process a number that no process has.\<close>

definition new_pid :: "start_env \<Rightarrow> machine \<Rightarrow> bool" where
  "new_pid S m \<longleftrightarrow> (\<forall>args pid. se_start S args = Some pid \<longrightarrow> 0 < pid \<and> pid < 2 ^ 31 \<and> pid \<notin> mc_agents m \<and> pid \<notin> mc_others m)"

inductive machine_step :: "string \<Rightarrow> machine \<Rightarrow> machine \<Rightarrow> bool" for pid_path where
  start_step: "new_pid S m \<Longrightarrow> se_write_pid S \<Longrightarrow> machine_step pid_path m (start_on S config_path pid_path log_path m)"
| stop_step: "machine_step pid_path m (stop_on pid_path m)"
| exit_step: "machine_step pid_path m (m\<lparr>mc_agents := mc_agents m - {pid}, mc_stopping := mc_stopping m - {pid}\<rparr>)"
| other_step: "ps \<inter> mc_agents m = {} \<Longrightarrow> machine_step pid_path m (m\<lparr>mc_others := ps\<rparr>)"

inductive_cases machine_stepE: "machine_step pid_path m m'"

inductive machine_reachable :: "string \<Rightarrow> machine \<Rightarrow> machine \<Rightarrow> bool" for pid_path m where
  machine_init: "machine_reachable pid_path m m"
| machine_next: "machine_reachable pid_path m m' \<Longrightarrow> machine_step pid_path m' m'' \<Longrightarrow> machine_reachable pid_path m m''"

definition quiet_machine :: machine where
  "quiet_machine = \<lparr>mc_pid_file = None, mc_agents = {}, mc_stopping = {}, mc_others = {}\<rparr>"

text \<open>An agent that was not told to stop is the one that the pid file names.\<close>

definition pid_file_ok :: "machine \<Rightarrow> bool" where
  "pid_file_ok m \<longleftrightarrow> (\<forall>pid \<in> mc_agents m - mc_stopping m. \<exists>text. mc_pid_file m = Some text \<and> parse_int (trim_space text) = Some pid)"

lemma trim_show_int: "0 \<le> i \<Longrightarrow> trim_space (show_int i) = show_int i"
proof -
  assume "0 \<le> i"
  moreover have "c \<in> set (show_nat (nat i)) \<Longrightarrow> \<not> is_space c" for c
    using show_nat_digits [of "nat i"] by (auto simp: list_all_iff dest: is_digit_not_space)
  ultimately show ?thesis by (intro trim_space_id) (simp add: trimmed_def show_int_def)
qed

lemma started_pid: "0 < pid \<Longrightarrow> pid < 2 ^ 31 \<Longrightarrow> parse_int (trim_space (show_int pid)) = Some pid"
  by (simp add: trim_show_int parse_show_int)

lemma not_running: "daemon_running (os_of m) p = (False, q) \<Longrightarrow> pid_file_ok m \<Longrightarrow> mc_agents m - mc_stopping m = {}"
  by (auto simp: daemon_running_def os_of_def pid_file_ok_def split: option.splits if_splits)

lemma start_keeps:
  assumes "pid_file_ok m" and "new_pid S m" and "se_write_pid S"
  shows "pid_file_ok (start_on S config_path pid_path log_path m)"
proof (cases "start_detached (os_of m) S config_path pid_path log_path")
  case (Started pid doc)
  then obtain q args where q: "daemon_running (os_of m) pid_path = (False, q)" "se_start S args = Some pid" "doc = show_int pid"
    using assms(3) by (auto simp: start_detached_def split: if_splits prod.splits bool.splits option.splits)
  have "mc_agents m \<subseteq> mc_stopping m" using not_running [OF q(1) assms(1)] by blast
  moreover have "0 < pid" "pid < 2 ^ 31" using assms(2) q(2) unfolding new_pid_def by blast+
  ultimately show ?thesis using Started q(3) started_pid [of pid] by (auto simp: start_on_def pid_file_ok_def)
next
  case (Orphaned pid)
  then show ?thesis using assms(3)
    by (auto simp: start_detached_def split: if_splits prod.splits bool.splits option.splits)
qed (simp_all add: start_on_def assms(1))

lemma stop_keeps: "pid_file_ok m \<Longrightarrow> pid_file_ok (stop_on pid_path m)"
  by (auto simp: stop_on_def stop_daemon_def os_of_def pid_file_ok_def split: option.splits if_splits)

lemma machine_keeps: "machine_reachable pid_path m m' \<Longrightarrow> pid_file_ok m \<Longrightarrow> pid_file_ok m'"
proof (induction rule: machine_reachable.induct)
  case (machine_next m' m'')
  from machine_next.hyps(2) show ?case
    by (cases rule: machine_stepE) (use machine_next in \<open>auto intro: start_keeps stop_keeps\<close>, auto simp: pid_file_ok_def)
qed


definition sample_start :: "int \<Rightarrow> start_env" where
  "sample_start pid = \<lparr>se_mkdir = (\<lambda>d. True), se_open_log = True, se_executable = Some ''agent'',
     se_start = (\<lambda>args. Some pid), se_write_pid = True\<rparr>"

definition one_agent :: machine where
  "one_agent = start_on (sample_start 7) ''c'' ''p'' ''l'' quiet_machine"

lemma one_agent: "machine_reachable ''p'' quiet_machine one_agent" "mc_agents one_agent = {7}" "mc_stopping one_agent = {}"
proof -
  have "machine_step ''p'' quiet_machine one_agent"
    unfolding one_agent_def by (rule start_step) (simp_all add: new_pid_def sample_start_def quiet_machine_def)
  then show "machine_reachable ''p'' quiet_machine one_agent" by (rule machine_next [OF machine_init])
qed (simp_all add: one_agent_def start_on_def start_detached_def daemon_running_def sample_start_def quiet_machine_def os_of_def)


text \<open>The stop command removes the pid file as soon as the signal is sent: while the old agent still shuts down, a
  start succeeds, and two agents run.\<close>

theorem stop_then_start:
  assumes "mc_agents m = {pid}" and "mc_pid_file m = Some (show_int pid)" and "0 < pid" and "pid < 2 ^ 31"
    and "new_pid (sample_start pid') m"
  shows "mc_agents (start_on (sample_start pid') config_path pid_path log_path (stop_on pid_path m)) = {pid, pid'}"
  using assms started_pid [of pid]
  by (auto simp: stop_on_def stop_daemon_def os_of_def start_on_def start_detached_def daemon_running_def sample_start_def)

theorem stop_then_start_witness:
  "mc_agents (start_on (sample_start 8) ''c'' ''p'' ''l'' (stop_on ''p'' one_agent)) = {7, 8}"
proof -
  have "mc_pid_file one_agent = Some (show_int 7)"
    by (simp add: one_agent_def start_on_def start_detached_def daemon_running_def sample_start_def quiet_machine_def os_of_def)
  moreover have "new_pid (sample_start 8) one_agent"
    using one_agent by (simp add: new_pid_def sample_start_def one_agent_def start_on_def start_detached_def daemon_running_def
        quiet_machine_def os_of_def)
  ultimately show ?thesis using stop_then_start [OF one_agent(2)] by simp
qed

end
