(* ===== verification/Domain.thy ===== *)
theory Domain
  imports Kv
begin

text \<open>
  The domain types of the server (\<open>apps/server/internal/domain/models.go\<close>) and the shared status
  vocabulary (\<open>packages/shared/types/types.go\<close>). The Go status types are strings that any request
  can set, so they are strings here; the constants list the values the program knows. A
  \<open>json.RawMessage\<close> is a JSON value, \<open>None\<close> when it is nil.
\<close>

section \<open>Status vocabulary\<close>

definition host_statuses :: "string list" where
  "host_statuses = [''active'', ''stale'', ''offline'', ''unknown'']"

definition job_sources :: "string list" where
  "job_sources = [''cron'', ''systemd_timer'', ''manual'', ''discovered'']"

definition execution_statuses :: "string list" where
  "execution_statuses = [''running'', ''success'', ''failed'', ''unknown'', ''partial'', ''missed'']"

definition metric_types :: "string list" where
  "metric_types = [''count'', ''gauge'', ''boolean'', ''string'']"

definition metric_statuses :: "string list" where
  "metric_statuses = [''ok'', ''warning'', ''critical'', ''unknown'']"

definition alert_severities :: "string list" where
  "alert_severities = [''info'', ''warning'', ''critical'']"

definition alert_statuses :: "string list" where
  "alert_statuses = [''active'', ''resolved'']"

definition command_statuses :: "string list" where
  "command_statuses = [''pending'', ''dispatched'', ''success'', ''failed'']"

definition alert_targets :: "string list" where
  "alert_targets = [''host'', ''job'', ''metric'']"

text \<open>The vocabulary of the shared package, which no program imports, says the same.\<close>

definition shared_execution_statuses :: "string list" where
  "shared_execution_statuses = [''running'', ''success'', ''failed'', ''unknown'', ''partial'', ''missed'']"

definition shared_host_statuses :: "string list" where
  "shared_host_statuses = [''active'', ''stale'', ''offline'', ''unknown'']"

definition shared_metric_statuses :: "string list" where
  "shared_metric_statuses = [''ok'', ''warning'', ''critical'', ''unknown'']"

definition shared_severities :: "string list" where
  "shared_severities = [''info'', ''warning'', ''critical'']"

lemma shared_vocabulary:
  "set shared_execution_statuses = set execution_statuses \<and> set shared_host_statuses = set host_statuses
   \<and> set shared_metric_statuses = set metric_statuses \<and> set shared_severities = set alert_severities"
  by (simp add: shared_execution_statuses_def execution_statuses_def shared_host_statuses_def host_statuses_def
      shared_metric_statuses_def metric_statuses_def shared_severities_def alert_severities_def)

section \<open>Entities\<close>

record host =
  h_id :: string
  h_machine_id :: string
  h_hostname :: string
  h_ip_address :: string
  h_environment :: string
  h_tags :: "string list"
  h_registered_at :: time
  h_last_heartbeat_at :: "time option"
  h_status :: string
  h_agent_version :: string
  h_metadata :: "json option"

record job =
  j_id :: string
  j_host_id :: string
  j_source_type :: string
  j_schedule :: string
  j_timezone :: string
  j_user :: string
  j_raw_command :: string
  j_normalized_command :: string
  j_command_hash :: string
  j_enabled :: bool
  j_source_file :: string
  j_metadata :: "json option"
  j_created_at :: time
  j_updated_at :: time

record execution =
  e_id :: string
  e_host_id :: string
  e_job_id :: "string option"
  e_scheduled_at :: "time option"
  e_started_at :: "time option"
  e_finished_at :: "time option"
  e_duration_seconds :: "real option"
  e_status :: string
  e_confidence :: real
  e_sources :: "string list"
  e_output_text :: "string option"
  e_evidence :: "json option"
  e_created_at :: time

record data_metric =
  m_id :: string
  m_host_id :: string
  m_name :: string
  m_type :: string
  m_dimensions :: "json option"
  m_value :: real
  m_measured_at :: time
  m_status :: string
  m_evidence :: "json option"
  m_created_at :: time

record alert =
  a_id :: string
  a_target_type :: string
  a_target_id :: string
  a_rule_name :: string
  a_severity :: string
  a_status :: string
  a_message :: string
  a_triggered_at :: time
  a_resolved_at :: "time option"

record current_job_state =
  js_job_id :: string
  js_host_id :: string
  js_last_status :: string
  js_last_run_at :: "time option"
  js_next_expected_at :: "time option"
  js_consecutive_fail :: int
  js_updated_at :: time

record current_host_state =
  hs_host_id :: string
  hs_status :: string
  hs_last_heartbeat_at :: "time option"
  hs_active_jobs :: int
  hs_updated_at :: time

record enrollment_token =
  et_id :: string
  et_token_hash :: string
  et_label :: string
  et_used :: bool
  et_used_at :: "time option"
  et_expires_at :: time
  et_created_at :: time

record agent_command =
  c_id :: string
  c_host_id :: string
  c_job_id :: string
  c_command_hash :: string
  c_raw_command :: string
  c_schedule :: string
  c_status :: string
  c_message :: string
  c_exit_code :: "int option"
  c_requested_at :: time
  c_dispatched_at :: "time option"
  c_started_at :: "time option"
  c_finished_at :: "time option"

record credential =
  cr_host_id :: string
  cr_token_hash :: string
  cr_created_at :: time
  cr_rotated_at :: time

end
