(* ===== verification/Database.thy ===== *)
theory Database
  imports Domain
begin

text \<open>
  The PostgreSQL database of the server: its tables, the constraints of the migrations
  (\<open>apps/server/migrations\<close>) and the SQL that the repositories use of it. A table is the list of its
  rows in insertion order; a statement is atomic, and one that fails changes nothing. Which
  statements reach the database, the clocks, fresh identifiers and random tokens come from
  \<open>server_env\<close>, indexed by the number of calls made so far, which \<open>pg_calls\<close> counts.
\<close>

section \<open>State\<close>

record pg =
  t_hosts :: "host list"
  t_jobs :: "job list"
  t_executions :: "execution list"
  t_metrics :: "data_metric list"
  t_alerts :: "alert list"
  t_host_states :: "current_host_state list"
  t_job_states :: "current_job_state list"
  t_commands :: "agent_command list"
  t_credentials :: "credential list"
  t_tokens :: "enrollment_token list"
  pg_calls :: nat

text \<open>
  \<open>sv_error_text\<close> is the text of an error that the driver or the database reports and \<open>sv_quote\<close> the \<open>%q\<close> form of a string. \<open>sv_pg_uuid\<close> is what the driver makes of a string given for a UUID column and
  \<open>sv_parse_uuid\<close> what \<open>uuid.Parse\<close> makes of it: the canonical text, or \<open>None\<close> when it is none.
\<close>

datatype repo_error = Db_Error | Invalid_Id | Constraint | No_Rows | Other_Error string

record server_env =
  sv_up :: "nat \<Rightarrow> bool"
  sv_db_now :: "nat \<Rightarrow> time"
  sv_now :: "nat \<Rightarrow> time"
  sv_new_uuid :: "nat \<Rightarrow> string"
  sv_pg_uuid :: "string \<Rightarrow> string option"
  sv_parse_uuid :: "string \<Rightarrow> string option"
  sv_random :: "nat \<Rightarrow> string option"
  sv_sha_hex :: "string \<Rightarrow> string"
  sv_quote :: "string \<Rightarrow> string"
  sv_error_text :: "repo_error \<Rightarrow> string"

type_synonym 'a repo_result = "(repo_error + 'a) \<times> pg"

definition bump :: "pg \<Rightarrow> pg" where
  "bump db = db\<lparr>pg_calls := Suc (pg_calls db)\<rparr>"

text \<open>One statement: the clock of the database and a fresh identifier are at its disposal.\<close>

definition stmt :: "server_env \<Rightarrow> (time \<Rightarrow> string \<Rightarrow> pg \<Rightarrow> repo_error + 'a \<times> pg) \<Rightarrow> pg \<Rightarrow> 'a repo_result" where
  "stmt E f db =
     (if \<not> sv_up E (pg_calls db) then (Inl Db_Error, bump db)
      else (case f (sv_db_now E (pg_calls db)) (sv_new_uuid E (pg_calls db)) db of
              Inl e \<Rightarrow> (Inl e, bump db)
            | Inr (x, db') \<Rightarrow> (Inr x, bump db')))"

definition server_now :: "server_env \<Rightarrow> pg \<Rightarrow> time \<times> pg" where
  "server_now E db = (sv_now E (pg_calls db), bump db)"

section \<open>Rows\<close>

text \<open>\<open>INSERT ... ON CONFLICT (key) DO UPDATE\<close>: the updated or the new row, and the table.\<close>

fun upsert_row :: "('r \<Rightarrow> 'k) \<Rightarrow> ('r \<Rightarrow> 'r) \<Rightarrow> 'r \<Rightarrow> 'r list \<Rightarrow> 'r \<times> 'r list" where
  "upsert_row key upd new [] = (new, [new])"
| "upsert_row key upd new (r # rs) =
     (if key r = key new then (upd r, upd r # rs)
      else (case upsert_row key upd new rs of (x, rs') \<Rightarrow> (x, r # rs')))"

definition update_where :: "('r \<Rightarrow> bool) \<Rightarrow> ('r \<Rightarrow> 'r) \<Rightarrow> 'r list \<Rightarrow> 'r list" where
  "update_where p f rs = map (\<lambda>r. if p r then f r else r) rs"

definition select_one :: "('r \<Rightarrow> bool) \<Rightarrow> 'r list \<Rightarrow> repo_error + 'r" where
  "select_one p rs = (case List.find p rs of None \<Rightarrow> Inl No_Rows | Some r \<Rightarrow> Inr r)"

definition order_desc :: "('r \<Rightarrow> time) \<Rightarrow> 'r list \<Rightarrow> 'r list" where
  "order_desc f rs = sort_key (\<lambda>r. - f r) rs"

text \<open>\<open>LIMIT l OFFSET o\<close>; a negative value is an error of the statement.\<close>

definition limit_offset :: "int \<Rightarrow> int \<Rightarrow> 'r list \<Rightarrow> repo_error + 'r list" where
  "limit_offset l off rs = (if l < 0 \<or> off < 0 then Inl Db_Error else Inr (take (nat l) (drop (nat off) rs)))"

definition query :: "server_env \<Rightarrow> (time \<Rightarrow> pg \<Rightarrow> repo_error + 'a) \<Rightarrow> pg \<Rightarrow> 'a repo_result" where
  "query E f = stmt E (\<lambda>now u db. case f now db of Inl e \<Rightarrow> Inl e | Inr x \<Rightarrow> Inr (x, db))"

section \<open>Lemmas\<close>

lemma bump_sel [simp]:
  "t_hosts (bump db) = t_hosts db" "t_jobs (bump db) = t_jobs db" "t_executions (bump db) = t_executions db"
  "t_metrics (bump db) = t_metrics db" "t_alerts (bump db) = t_alerts db"
  "t_host_states (bump db) = t_host_states db" "t_job_states (bump db) = t_job_states db"
  "t_commands (bump db) = t_commands db" "t_credentials (bump db) = t_credentials db"
  "t_tokens (bump db) = t_tokens db" "pg_calls (bump db) = Suc (pg_calls db)"
  by (simp_all add: bump_def)

lemma fst_upsert_row:
  "fst (upsert_row key upd new rs) = (case List.find (\<lambda>r. key r = key new) rs of None \<Rightarrow> new | Some r \<Rightarrow> upd r)"
  by (induction rs) (auto split: prod.split)

lemma keys_upsert_row:
  "(\<And>r. key r = key new \<Longrightarrow> key (upd r) = key r) \<Longrightarrow>
     map key (snd (upsert_row key upd new rs)) = map key rs @ (if key new \<in> key ` set rs then [] else [key new])"
  by (induction rs) (auto split: prod.split)

lemma distinct_upsert_row:
  "(\<And>r. key r = key new \<Longrightarrow> key (upd r) = key r) \<Longrightarrow> distinct (map key rs) \<Longrightarrow> distinct (map key (snd (upsert_row key upd new rs)))"
  by (simp add: keys_upsert_row)

lemma set_upsert_row:
  "r \<in> set (snd (upsert_row key upd new rs)) \<Longrightarrow>
     r = new \<and> key new \<notin> key ` set rs \<or> (\<exists>r0 \<in> set rs. r = upd r0 \<and> key r0 = key new) \<or> r \<in> set rs"
  by (induction rs) (auto split: prod.splits if_splits)

lemma find_upsert_row:
  assumes "\<And>r. key r = key new \<Longrightarrow> key (upd r) = key r"
  shows "List.find (\<lambda>r. key r = k) (snd (upsert_row key upd new rs)) =
     (if k = key new then Some (fst (upsert_row key upd new rs)) else List.find (\<lambda>r. key r = k) rs)"
  using assms by (induction rs) (auto split: prod.split)

lemma upsert_row_find:
  assumes "upsert_row key upd new rs = (x, rows)" and "\<And>r. key r = key new \<Longrightarrow> key (upd r) = key r"
  shows "List.find (\<lambda>r. key r = k) rows = (if k = key new then Some x else List.find (\<lambda>r. key r = k) rs)"
    and "x = (case List.find (\<lambda>r. key r = key new) rs of None \<Rightarrow> new | Some r \<Rightarrow> upd r)"
  using find_upsert_row [of key new upd k rs] fst_upsert_row [of key upd new rs] assms by simp_all

lemma map_update_where: "(\<And>r. g (f r) = g r) \<Longrightarrow> map g (update_where p f rs) = map g rs"
  by (auto simp: update_where_def)

lemma set_update_where: "r \<in> set (update_where p f rs) \<Longrightarrow> (\<exists>r0 \<in> set rs. p r0 \<and> r = f r0) \<or> r \<in> set rs"
  by (auto simp: update_where_def split: if_splits)

lemma select_one_Inr: "select_one p rs = Inr r \<Longrightarrow> r \<in> set rs \<and> p r"
  by (auto simp: select_one_def find_Some_iff split: option.splits)

lemma select_one_Inl: "select_one p rs = Inl e \<Longrightarrow> e = No_Rows \<and> (\<forall>r \<in> set rs. \<not> p r)"
  by (auto simp: select_one_def find_None_iff split: option.splits)

lemma set_order_desc [simp]: "set (order_desc f rs) = set rs"
  by (simp add: order_desc_def)

lemma mset_order_desc [simp]: "mset (order_desc f rs) = mset rs"
  by (simp add: order_desc_def)

lemma sorted_order_desc: "sorted_wrt (\<lambda>r s. f s \<le> f r) (order_desc f rs)"
proof -
  have "sorted (map (\<lambda>r. - f r) (order_desc f rs))" by (simp add: order_desc_def)
  then show ?thesis by (simp add: sorted_wrt_map)
qed

lemma query_db: "snd (query E f db) = bump db"
  by (auto simp: query_def stmt_def split: sum.splits)

section \<open>Integrity\<close>

text \<open>A table: its key is unique and its rows satisfy their constraints.\<close>

definition table_ok :: "('r \<Rightarrow> 'k) \<Rightarrow> ('r \<Rightarrow> bool) \<Rightarrow> 'r list \<Rightarrow> bool" where
  "table_ok key P rs \<longleftrightarrow> distinct (map key rs) \<and> (\<forall>r \<in> set rs. P r)"

lemma table_ok_Nil [simp]: "table_ok key P []"
  by (simp add: table_ok_def)

lemma table_ok_insert: "table_ok key P rs \<Longrightarrow> P r \<Longrightarrow> key r \<notin> key ` set rs \<Longrightarrow> table_ok key P (rs @ [r])"
  by (auto simp: table_ok_def)

lemma table_ok_update:
  "table_ok key P rs \<Longrightarrow> (\<And>r. key (f r) = key r) \<Longrightarrow> (\<And>r. P r \<Longrightarrow> P (f r)) \<Longrightarrow> table_ok key P (update_where p f rs)"
  by (auto simp: table_ok_def map_update_where dest: set_update_where)

lemma table_ok_upsert:
  "table_ok key P rs \<Longrightarrow> (\<And>r. key r = key new \<Longrightarrow> key (upd r) = key r) \<Longrightarrow>
     (\<And>r. key r = key new \<Longrightarrow> P r \<Longrightarrow> P (upd r)) \<Longrightarrow> (key new \<notin> key ` set rs \<Longrightarrow> P new) \<Longrightarrow>
     table_ok key P (snd (upsert_row key upd new rs))"
  by (auto simp: table_ok_def distinct_upsert_row dest: set_upsert_row)

lemma table_ok_mono: "table_ok key P rs \<Longrightarrow> (\<And>r. P r \<Longrightarrow> Q r) \<Longrightarrow> table_ok key Q rs"
  by (auto simp: table_ok_def)

text \<open>Primary keys, unique keys, foreign keys and CHECK constraints of the migrations; \<open>H\<close> and \<open>J\<close> are
  the identifiers of the hosts and jobs.\<close>

definition execution_row_ok :: "string set \<Rightarrow> string set \<Rightarrow> execution \<Rightarrow> bool" where
  "execution_row_ok H J e \<longleftrightarrow> e_host_id e \<in> H
     \<and> (case e_job_id e of None \<Rightarrow> True | Some j \<Rightarrow> j \<in> J)
     \<and> e_status e \<in> set execution_statuses \<and> 0 \<le> e_confidence e \<and> e_confidence e \<le> 1"

definition metric_row_ok :: "string set \<Rightarrow> data_metric \<Rightarrow> bool" where
  "metric_row_ok H m \<longleftrightarrow> m_host_id m \<in> H \<and> m_type m \<in> set metric_types \<and> m_status m \<in> set metric_statuses"

definition alert_row_ok :: "alert \<Rightarrow> bool" where
  "alert_row_ok a \<longleftrightarrow> a_target_type a \<in> set alert_targets \<and> a_severity a \<in> set alert_severities
     \<and> a_status a \<in> set alert_statuses"

definition job_row_ok :: "string set \<Rightarrow> job \<Rightarrow> bool" where
  "job_row_ok H j \<longleftrightarrow> j_host_id j \<in> H \<and> j_source_type j \<in> set job_sources"

definition command_row_ok :: "string set \<Rightarrow> string set \<Rightarrow> agent_command \<Rightarrow> bool" where
  "command_row_ok H J c \<longleftrightarrow> c_host_id c \<in> H \<and> c_job_id c \<in> J \<and> c_status c \<in> set command_statuses"

definition job_key :: "job \<Rightarrow> string \<times> string" where
  "job_key j = (j_host_id j, j_command_hash j)"

definition host_ids :: "pg \<Rightarrow> string set" where
  "host_ids db = h_id ` set (t_hosts db)"

definition job_ids :: "pg \<Rightarrow> string set" where
  "job_ids db = j_id ` set (t_jobs db)"

definition refs_ok :: "string set \<Rightarrow> string set \<Rightarrow> pg \<Rightarrow> bool" where
  "refs_ok H J db \<longleftrightarrow>
     table_ok j_id (job_row_ok H) (t_jobs db)
     \<and> table_ok e_id (execution_row_ok H J) (t_executions db)
     \<and> table_ok m_id (metric_row_ok H) (t_metrics db)
     \<and> table_ok hs_host_id (\<lambda>s. hs_host_id s \<in> H) (t_host_states db)
     \<and> table_ok js_job_id (\<lambda>s. js_job_id s \<in> J \<and> js_host_id s \<in> H) (t_job_states db)
     \<and> table_ok c_id (command_row_ok H J) (t_commands db)
     \<and> table_ok cr_host_id (\<lambda>c. cr_host_id c \<in> H) (t_credentials db)"

definition pg_ok :: "pg \<Rightarrow> bool" where
  "pg_ok db \<longleftrightarrow> refs_ok (host_ids db) (job_ids db) db
     \<and> table_ok h_id (\<lambda>h. h_status h \<in> set host_statuses) (t_hosts db)
     \<and> table_ok h_machine_id (\<lambda>h. True) (t_hosts db)
     \<and> table_ok job_key (\<lambda>j. True) (t_jobs db)
     \<and> table_ok a_id alert_row_ok (t_alerts db)
     \<and> table_ok et_id (\<lambda>t. True) (t_tokens db)
     \<and> table_ok et_token_hash (\<lambda>t. True) (t_tokens db)"

lemma row_ok_mono:
  "job_row_ok H j \<Longrightarrow> H \<subseteq> H' \<Longrightarrow> job_row_ok H' j"
  "execution_row_ok H J e \<Longrightarrow> H \<subseteq> H' \<Longrightarrow> J \<subseteq> J' \<Longrightarrow> execution_row_ok H' J' e"
  "metric_row_ok H m \<Longrightarrow> H \<subseteq> H' \<Longrightarrow> metric_row_ok H' m"
  "command_row_ok H J c \<Longrightarrow> H \<subseteq> H' \<Longrightarrow> J \<subseteq> J' \<Longrightarrow> command_row_ok H' J' c"
  by (auto simp: job_row_ok_def execution_row_ok_def metric_row_ok_def command_row_ok_def split: option.splits)

lemma refs_ok_mono: "refs_ok H J db \<Longrightarrow> H \<subseteq> H' \<Longrightarrow> J \<subseteq> J' \<Longrightarrow> refs_ok H' J' db"
  unfolding refs_ok_def by (auto elim!: table_ok_mono intro: row_ok_mono)

lemma ids_sel [simp]:
  "host_ids (bump db) = host_ids db" "job_ids (bump db) = job_ids db"
  "host_ids (db\<lparr>t_jobs := x1\<rparr>) = host_ids db" "job_ids (db\<lparr>t_hosts := x2\<rparr>) = job_ids db"
  "host_ids (db\<lparr>t_executions := x3\<rparr>) = host_ids db" "job_ids (db\<lparr>t_executions := x3\<rparr>) = job_ids db"
  "host_ids (db\<lparr>t_metrics := x4\<rparr>) = host_ids db" "job_ids (db\<lparr>t_metrics := x4\<rparr>) = job_ids db"
  "host_ids (db\<lparr>t_alerts := x5\<rparr>) = host_ids db" "job_ids (db\<lparr>t_alerts := x5\<rparr>) = job_ids db"
  "host_ids (db\<lparr>t_host_states := x6\<rparr>) = host_ids db" "job_ids (db\<lparr>t_host_states := x6\<rparr>) = job_ids db"
  "host_ids (db\<lparr>t_job_states := x7\<rparr>) = host_ids db" "job_ids (db\<lparr>t_job_states := x7\<rparr>) = job_ids db"
  "host_ids (db\<lparr>t_commands := x8\<rparr>) = host_ids db" "job_ids (db\<lparr>t_commands := x8\<rparr>) = job_ids db"
  "host_ids (db\<lparr>t_credentials := x9\<rparr>) = host_ids db" "job_ids (db\<lparr>t_credentials := x9\<rparr>) = job_ids db"
  "host_ids (db\<lparr>t_tokens := x10\<rparr>) = host_ids db" "job_ids (db\<lparr>t_tokens := x10\<rparr>) = job_ids db"
  by (simp_all add: host_ids_def job_ids_def)

lemma pg_ok_bump [simp]: "pg_ok (bump db) = pg_ok db"
  by (simp add: pg_ok_def refs_ok_def)

text \<open>Replacing one table keeps the database well formed when the new rows are; hosts and jobs must not
  lose identifiers that other tables refer to.\<close>

lemma pg_ok_hosts:
  assumes "pg_ok db" and "table_ok h_id (\<lambda>h. h_status h \<in> set host_statuses) hs"
    and "table_ok h_machine_id (\<lambda>h. True) hs" and "host_ids db \<subseteq> h_id ` set hs"
  shows "pg_ok (db\<lparr>t_hosts := hs\<rparr>)"
proof -
  have "refs_ok (h_id ` set hs) (job_ids db) db"
    using assms(1,4) by (auto simp: pg_ok_def elim: refs_ok_mono)
  then have "refs_ok (host_ids (db\<lparr>t_hosts := hs\<rparr>)) (job_ids db) (db\<lparr>t_hosts := hs\<rparr>)"
    by (simp add: refs_ok_def host_ids_def)
  then show ?thesis using assms(1-3) by (simp add: pg_ok_def)
qed

lemma pg_ok_jobs:
  assumes "pg_ok db" and "table_ok j_id (job_row_ok (host_ids db)) js" and "table_ok job_key (\<lambda>j. True) js"
    and "job_ids db \<subseteq> j_id ` set js"
  shows "pg_ok (db\<lparr>t_jobs := js\<rparr>)"
proof -
  have "refs_ok (host_ids db) (j_id ` set js) db"
    using assms(1,4) by (auto simp: pg_ok_def elim: refs_ok_mono)
  then have "refs_ok (host_ids db) (job_ids (db\<lparr>t_jobs := js\<rparr>)) (db\<lparr>t_jobs := js\<rparr>)"
    using assms(2) by (simp add: refs_ok_def job_ids_def)
  then show ?thesis using assms(1,3) by (simp add: pg_ok_def)
qed

lemma pg_ok_tables:
  assumes "pg_ok db"
  shows "table_ok e_id (execution_row_ok (host_ids db) (job_ids db)) es \<Longrightarrow> pg_ok (db\<lparr>t_executions := es\<rparr>)"
    "table_ok m_id (metric_row_ok (host_ids db)) ms \<Longrightarrow> pg_ok (db\<lparr>t_metrics := ms\<rparr>)"
    "table_ok a_id alert_row_ok as \<Longrightarrow> pg_ok (db\<lparr>t_alerts := as\<rparr>)"
    "table_ok hs_host_id (\<lambda>s. hs_host_id s \<in> host_ids db) hss \<Longrightarrow> pg_ok (db\<lparr>t_host_states := hss\<rparr>)"
    "table_ok js_job_id (\<lambda>s. js_job_id s \<in> job_ids db \<and> js_host_id s \<in> host_ids db) jss \<Longrightarrow> pg_ok (db\<lparr>t_job_states := jss\<rparr>)"
    "table_ok c_id (command_row_ok (host_ids db) (job_ids db)) cs \<Longrightarrow> pg_ok (db\<lparr>t_commands := cs\<rparr>)"
    "table_ok cr_host_id (\<lambda>c. cr_host_id c \<in> host_ids db) crs \<Longrightarrow> pg_ok (db\<lparr>t_credentials := crs\<rparr>)"
    "table_ok et_id (\<lambda>t. True) ts \<Longrightarrow> table_ok et_token_hash (\<lambda>t. True) ts \<Longrightarrow> pg_ok (db\<lparr>t_tokens := ts\<rparr>)"
  using assms by (simp_all add: pg_ok_def refs_ok_def)

definition empty_pg :: pg where
  "empty_pg = \<lparr>t_hosts = [], t_jobs = [], t_executions = [], t_metrics = [], t_alerts = [], t_host_states = [],
     t_job_states = [], t_commands = [], t_credentials = [], t_tokens = [], pg_calls = 0\<rparr>"

lemma empty_pg_ok [simp]: "pg_ok empty_pg"
  by (simp add: pg_ok_def refs_ok_def empty_pg_def)

text \<open>A concrete environment, in which every statement succeeds, every string is an identifier and the
  clocks and fresh identifiers count the calls.\<close>

definition calm_server :: server_env where
  "calm_server = \<lparr>sv_up = (\<lambda>n. True), sv_db_now = (\<lambda>n. hours (int n)), sv_now = (\<lambda>n. hours (int n)),
     sv_new_uuid = (\<lambda>n. ''u'' @ show_nat n), sv_pg_uuid = Some, sv_parse_uuid = Some,
     sv_random = (\<lambda>n. Some (''r'' @ show_nat n)), sv_sha_hex = (\<lambda>s. ''#'' @ s),
     sv_quote = (\<lambda>s. CHR 0x22 # s @ [CHR 0x22]),
     sv_error_text = (\<lambda>e. ''database error'')\<rparr>"

text \<open>A statement keeps a property of the database when the rows it writes do.\<close>

lemma stmt_inv:
  assumes "P (bump db)" and "\<And>now u x db'. f now u db = Inr (x, db') \<Longrightarrow> P (bump db')"
  shows "P (snd (stmt E f db))"
  using assms by (auto simp: stmt_def split: sum.splits)

lemma query_inv: "P (bump db) \<Longrightarrow> P (snd (query E f db))"
  by (simp add: query_db)

end
