(* ===== verification/Inventory.thy ===== *)
theory Inventory
  imports Database
begin

text \<open>
  The repositories of hosts, jobs, remote commands, agent credentials and enrollment tokens
  (\<open>apps/server/internal/repository\<close>: \<open>host.go\<close>, \<open>job.go\<close>, \<open>command.go\<close>, \<open>credential.go\<close>,
  \<open>enrollment_token.go\<close>). The locale \<open>keyed_table\<close> is the contract of the upserts.
\<close>

section \<open>Hosts\<close>

definition refresh_host :: "host \<Rightarrow> host \<Rightarrow> host" where
  "refresh_host h old = old\<lparr>h_hostname := h_hostname h, h_ip_address := h_ip_address h,
     h_environment := h_environment h, h_tags := h_tags h, h_agent_version := h_agent_version h,
     h_metadata := h_metadata h\<rparr>"

definition new_host :: "time \<Rightarrow> string \<Rightarrow> host \<Rightarrow> host" where
  "new_host now u h = h\<lparr>h_id := u, h_registered_at := now, h_last_heartbeat_at := None, h_status := ''unknown''\<rparr>"

definition host_upsert :: "server_env \<Rightarrow> host \<Rightarrow> pg \<Rightarrow> host repo_result" where
  "host_upsert E h = stmt E (\<lambda>now u db.
     if h_machine_id h \<notin> h_machine_id ` set (t_hosts db) \<and> u \<in> host_ids db then Inl Constraint
     else (case upsert_row h_machine_id (refresh_host h) (new_host now u h) (t_hosts db) of
             (r, rows) \<Rightarrow> Inr (r, db\<lparr>t_hosts := rows\<rparr>)))"

definition host_get_by_id :: "server_env \<Rightarrow> string \<Rightarrow> pg \<Rightarrow> host repo_result" where
  "host_get_by_id E i = query E (\<lambda>now db.
     case sv_pg_uuid E i of None \<Rightarrow> Inl Invalid_Id | Some u \<Rightarrow> select_one (\<lambda>h. h_id h = u) (t_hosts db))"

definition host_get_by_machine_id :: "server_env \<Rightarrow> string \<Rightarrow> pg \<Rightarrow> host repo_result" where
  "host_get_by_machine_id E m = query E (\<lambda>now db. select_one (\<lambda>h. h_machine_id h = m) (t_hosts db))"

definition host_list :: "server_env \<Rightarrow> pg \<Rightarrow> host list repo_result" where
  "host_list E = query E (\<lambda>now db. Inr (order_desc h_registered_at (t_hosts db)))"

definition host_update_heartbeat :: "server_env \<Rightarrow> string \<Rightarrow> string \<Rightarrow> pg \<Rightarrow> unit repo_result" where
  "host_update_heartbeat E i ip = stmt E (\<lambda>now u db.
     case sv_pg_uuid E i of
       None \<Rightarrow> Inl Invalid_Id
     | Some hid \<Rightarrow> Inr ((), db\<lparr>t_hosts := update_where (\<lambda>h. h_id h = hid)
         (\<lambda>h. h\<lparr>h_last_heartbeat_at := Some now, h_status := ''active'', h_ip_address := ip\<rparr>) (t_hosts db)\<rparr>))"

definition host_update_status :: "server_env \<Rightarrow> string \<Rightarrow> string \<Rightarrow> pg \<Rightarrow> unit repo_result" where
  "host_update_status E i status = stmt E (\<lambda>now u db.
     case sv_pg_uuid E i of
       None \<Rightarrow> Inl Invalid_Id
     | Some hid \<Rightarrow>
         if status \<notin> set host_statuses \<and> hid \<in> host_ids db then Inl Constraint
         else Inr ((), db\<lparr>t_hosts := update_where (\<lambda>h. h_id h = hid) (h_status_update (\<lambda>_. status)) (t_hosts db)\<rparr>))"

definition is_overdue :: "time \<Rightarrow> duration \<Rightarrow> host \<Rightarrow> bool" where
  "is_overdue now threshold h \<longleftrightarrow> h_status h = ''active'' \<and>
     (case h_last_heartbeat_at h of None \<Rightarrow> True | Some t \<Rightarrow> t < now - threshold)"

definition mark_stale_hosts :: "server_env \<Rightarrow> duration \<Rightarrow> pg \<Rightarrow> int repo_result" where
  "mark_stale_hosts E threshold = stmt E (\<lambda>now u db.
     Inr (int (length (filter (is_overdue now threshold) (t_hosts db))),
          db\<lparr>t_hosts := update_where (is_overdue now threshold) (h_status_update (\<lambda>_. ''stale'')) (t_hosts db)\<rparr>))"

definition host_upsert_state ::
  "server_env \<Rightarrow> string \<Rightarrow> string \<Rightarrow> time option \<Rightarrow> int \<Rightarrow> pg \<Rightarrow> unit repo_result" where
  "host_upsert_state E i status last_hb active_jobs = stmt E (\<lambda>now u db.
     case sv_pg_uuid E i of
       None \<Rightarrow> Inl Invalid_Id
     | Some hid \<Rightarrow>
         if hid \<notin> host_ids db then Inl Constraint
         else (let new = \<lparr>hs_host_id = hid, hs_status = status, hs_last_heartbeat_at = last_hb,
                          hs_active_jobs = active_jobs, hs_updated_at = now\<rparr>
               in Inr ((), db\<lparr>t_host_states := snd (upsert_row hs_host_id (\<lambda>_. new) new (t_host_states db))\<rparr>)))"

section \<open>Jobs\<close>

definition refresh_job :: "time \<Rightarrow> job \<Rightarrow> job \<Rightarrow> job" where
  "refresh_job now j old = old\<lparr>j_schedule := j_schedule j, j_timezone := j_timezone j, j_user := j_user j,
     j_raw_command := j_raw_command j, j_normalized_command := j_normalized_command j, j_enabled := j_enabled j,
     j_source_file := j_source_file j, j_metadata := j_metadata j, j_updated_at := now\<rparr>"

definition new_job :: "time \<Rightarrow> string \<Rightarrow> string \<Rightarrow> job \<Rightarrow> job" where
  "new_job now u hid j = j\<lparr>j_id := u, j_host_id := hid, j_created_at := now, j_updated_at := now\<rparr>"

text \<open>The CHECK and the foreign key are tested on the row proposed for insertion, also when the key
  is taken and the row is updated; the primary key is tested when the row is inserted.\<close>

definition job_upsert :: "server_env \<Rightarrow> job \<Rightarrow> pg \<Rightarrow> job repo_result" where
  "job_upsert E j db =
     (case sv_parse_uuid E (j_host_id j) of
        None \<Rightarrow> (Inl Invalid_Id, db)
      | Some hid \<Rightarrow> stmt E (\<lambda>now u db.
          let new = new_job now u hid j in
          if j_source_type j \<notin> set job_sources \<or> hid \<notin> host_ids db
             \<or> (job_key new \<notin> job_key ` set (t_jobs db) \<and> u \<in> job_ids db) then Inl Constraint
          else (case upsert_row job_key (refresh_job now j) new (t_jobs db) of
                  (r, rows) \<Rightarrow> Inr (r, db\<lparr>t_jobs := rows\<rparr>))) db)"

definition job_get_by_id :: "server_env \<Rightarrow> string \<Rightarrow> pg \<Rightarrow> job repo_result" where
  "job_get_by_id E i db =
     (case sv_parse_uuid E i of
        None \<Rightarrow> (Inl Invalid_Id, db)
      | Some jid \<Rightarrow> query E (\<lambda>now db. select_one (\<lambda>j. j_id j = jid) (t_jobs db)) db)"

definition job_list :: "server_env \<Rightarrow> pg \<Rightarrow> job list repo_result" where
  "job_list E = query E (\<lambda>now db. Inr (order_desc j_created_at (t_jobs db)))"

definition job_list_by_host :: "server_env \<Rightarrow> string \<Rightarrow> pg \<Rightarrow> job list repo_result" where
  "job_list_by_host E i db =
     (case sv_parse_uuid E i of
        None \<Rightarrow> (Inl Invalid_Id, db)
      | Some hid \<Rightarrow>
          query E (\<lambda>now db. Inr (order_desc j_created_at (filter (\<lambda>j. j_host_id j = hid) (t_jobs db)))) db)"

definition job_get_by_host_and_hash :: "server_env \<Rightarrow> string \<Rightarrow> string \<Rightarrow> pg \<Rightarrow> job repo_result" where
  "job_get_by_host_and_hash E i h db =
     (case sv_parse_uuid E i of
        None \<Rightarrow> (Inl Invalid_Id, db)
      | Some hid \<Rightarrow> query E (\<lambda>now db. select_one (\<lambda>j. job_key j = (hid, h)) (t_jobs db)) db)"

definition job_upsert_state ::
  "server_env \<Rightarrow> string \<Rightarrow> string \<Rightarrow> string \<Rightarrow> time option \<Rightarrow> time option \<Rightarrow> int \<Rightarrow> pg \<Rightarrow> unit repo_result" where
  "job_upsert_state E i hi status last_run next_expected consecutive db =
     (case (sv_parse_uuid E i, sv_parse_uuid E hi) of
        (Some jid, Some hid) \<Rightarrow> stmt E (\<lambda>now u db.
          if jid \<notin> js_job_id ` set (t_job_states db) \<and> (jid \<notin> job_ids db \<or> hid \<notin> host_ids db)
          then Inl Constraint
          else (let new = \<lparr>js_job_id = jid, js_host_id = hid, js_last_status = status, js_last_run_at = last_run,
                           js_next_expected_at = next_expected, js_consecutive_fail = consecutive,
                           js_updated_at = now\<rparr>
                in Inr ((), db\<lparr>t_job_states := snd (upsert_row js_job_id
                     (\<lambda>old. new\<lparr>js_host_id := js_host_id old\<rparr>) new (t_job_states db))\<rparr>))) db
      | _ \<Rightarrow> (Inl Invalid_Id, db))"

section \<open>Remote commands\<close>

definition command_insert :: "server_env \<Rightarrow> agent_command \<Rightarrow> pg \<Rightarrow> agent_command repo_result" where
  "command_insert E c = stmt E (\<lambda>now u db.
     case (sv_pg_uuid E (c_host_id c), sv_pg_uuid E (c_job_id c)) of
       (Some hid, Some jid) \<Rightarrow>
         (let new = c\<lparr>c_id := u, c_host_id := hid, c_job_id := jid, c_exit_code := None, c_requested_at := now,
                     c_dispatched_at := None, c_started_at := None, c_finished_at := None\<rparr>
          in if \<not> command_row_ok (host_ids db) (job_ids db) new \<or> u \<in> c_id ` set (t_commands db) then Inl Constraint
             else Inr (new, db\<lparr>t_commands := t_commands db @ [new]\<rparr>))
     | _ \<Rightarrow> Inl Invalid_Id)"

text \<open>The rows that \<open>picked\<close> selects; rows another transaction has locked do not occur, since
  statements are atomic here. \<open>RETURNING\<close> gives the updated rows in no particular order.\<close>

definition pending_for :: "string \<Rightarrow> agent_command \<Rightarrow> bool" where
  "pending_for hid c \<longleftrightarrow> c_host_id c = hid \<and> c_status c = ''pending''"

definition picked :: "string \<Rightarrow> nat \<Rightarrow> agent_command list \<Rightarrow> agent_command list" where
  "picked hid limit cs = take limit (sort_key c_requested_at (filter (pending_for hid) cs))"

definition dispatch :: "time \<Rightarrow> agent_command \<Rightarrow> agent_command" where
  "dispatch now c = c\<lparr>c_status := ''dispatched'', c_dispatched_at := Some now\<rparr>"

definition command_claim_pending :: "server_env \<Rightarrow> string \<Rightarrow> int \<Rightarrow> pg \<Rightarrow> agent_command list repo_result" where
  "command_claim_pending E i limit = stmt E (\<lambda>now u db.
     case sv_pg_uuid E i of
       None \<Rightarrow> Inl Invalid_Id
     | Some hid \<Rightarrow>
         (let n = (if limit \<le> 0 then 10 else nat limit);
              ids = c_id ` set (picked hid n (t_commands db));
              rows = update_where (\<lambda>c. c_id c \<in> ids) (dispatch now) (t_commands db)
          in Inr (filter (\<lambda>c. c_id c \<in> ids) rows, db\<lparr>t_commands := rows\<rparr>)))"

definition coalesce :: "'a option \<Rightarrow> 'a option \<Rightarrow> 'a option" where
  "coalesce x y = (case x of None \<Rightarrow> y | Some _ \<Rightarrow> x)"

definition command_complete ::
  "server_env \<Rightarrow> string \<Rightarrow> string \<Rightarrow> string \<Rightarrow> time option \<Rightarrow> time option \<Rightarrow> int option \<Rightarrow> pg \<Rightarrow> unit repo_result" where
  "command_complete E i status message started finished code = stmt E (\<lambda>now u db.
     case sv_pg_uuid E i of
       None \<Rightarrow> Inl Invalid_Id
     | Some cid \<Rightarrow>
         if status \<notin> set command_statuses \<and> cid \<in> c_id ` set (t_commands db) then Inl Constraint
         else Inr ((), db\<lparr>t_commands := update_where (\<lambda>c. c_id c = cid)
            (\<lambda>c. c\<lparr>c_status := status, c_message := message, c_started_at := coalesce started (c_started_at c),
                   c_finished_at := coalesce finished (c_finished_at c), c_exit_code := code\<rparr>) (t_commands db)\<rparr>))"

section \<open>Credentials and enrollment tokens\<close>

definition credential_upsert :: "server_env \<Rightarrow> string \<Rightarrow> string \<Rightarrow> pg \<Rightarrow> unit repo_result" where
  "credential_upsert E i h = stmt E (\<lambda>now u db.
     case sv_pg_uuid E i of
       None \<Rightarrow> Inl Invalid_Id
     | Some hid \<Rightarrow>
         if hid \<notin> host_ids db then Inl Constraint
         else Inr ((), db\<lparr>t_credentials := snd (upsert_row cr_host_id
            (\<lambda>old. old\<lparr>cr_token_hash := h, cr_rotated_at := now\<rparr>)
            \<lparr>cr_host_id = hid, cr_token_hash = h, cr_created_at = now, cr_rotated_at = now\<rparr> (t_credentials db))\<rparr>))"

definition credential_validate :: "server_env \<Rightarrow> string \<Rightarrow> string \<Rightarrow> pg \<Rightarrow> bool repo_result" where
  "credential_validate E i h = query E (\<lambda>now db.
     case sv_pg_uuid E i of
       None \<Rightarrow> Inl Invalid_Id
     | Some hid \<Rightarrow>
         Inr (length (filter (\<lambda>c. cr_host_id c = hid \<and> cr_token_hash c = h) (t_credentials db)) = 1))"

definition token_create :: "server_env \<Rightarrow> string \<Rightarrow> string \<Rightarrow> time \<Rightarrow> pg \<Rightarrow> enrollment_token repo_result" where
  "token_create E h label expires = stmt E (\<lambda>now u db.
     let new = \<lparr>et_id = u, et_token_hash = h, et_label = label, et_used = False, et_used_at = None,
                et_expires_at = expires, et_created_at = now\<rparr>
     in if u \<in> et_id ` set (t_tokens db) \<or> h \<in> et_token_hash ` set (t_tokens db) then Inl Constraint
        else Inr (new, db\<lparr>t_tokens := t_tokens db @ [new]\<rparr>))"

definition use_token :: "time \<Rightarrow> enrollment_token \<Rightarrow> enrollment_token" where
  "use_token now t = t\<lparr>et_used := True, et_used_at := Some now\<rparr>"

definition token_lookup :: "server_env \<Rightarrow> string \<Rightarrow> pg \<Rightarrow> enrollment_token repo_result" where
  "token_lookup E h = query E (\<lambda>now db. select_one (\<lambda>t. et_token_hash t = h) (t_tokens db))"

definition token_mark_used :: "server_env \<Rightarrow> string \<Rightarrow> pg \<Rightarrow> unit repo_result" where
  "token_mark_used E h = stmt E (\<lambda>now u db.
     Inr ((), db\<lparr>t_tokens := update_where (\<lambda>t. et_token_hash t = h) (use_token now) (t_tokens db)\<rparr>))"

definition already_used :: repo_error where
  "already_used = Other_Error ''enrollment token has already been used''"

definition token_expired :: repo_error where
  "token_expired = Other_Error ''enrollment token has expired''"

text \<open>\<open>Consume\<close> is two statements with the check between them; the result of the check tells whether
  there is a token to mark.\<close>

definition token_check :: "server_env \<Rightarrow> string \<Rightarrow> pg \<Rightarrow> bool repo_result" where
  "token_check E h db =
     (case token_lookup E h db of
        (Inl No_Rows, db) \<Rightarrow> (Inr False, db)
      | (Inl e, db) \<Rightarrow> (Inl e, db)
      | (Inr t, db) \<Rightarrow>
          if et_used t then (Inl already_used, db)
          else (case server_now E db of
                  (now, db) \<Rightarrow> if et_expires_at t < now then (Inl token_expired, db) else (Inr True, db)))"

definition token_consume :: "server_env \<Rightarrow> string \<Rightarrow> pg \<Rightarrow> unit repo_result" where
  "token_consume E h db =
     (case token_check E h db of
        (Inl e, db) \<Rightarrow> (Inl e, db)
      | (Inr mark, db) \<Rightarrow> if mark then token_mark_used E h db else (Inr (), db))"

definition token_found :: "server_env \<Rightarrow> string \<Rightarrow> pg \<Rightarrow> bool repo_result" where
  "token_found E h = query E (\<lambda>now db. Inr (0 < length (filter (\<lambda>t. et_token_hash t = h) (t_tokens db))))"

definition token_list :: "server_env \<Rightarrow> pg \<Rightarrow> enrollment_token list repo_result" where
  "token_list E = query E (\<lambda>now db. Inr (order_desc et_created_at (t_tokens db)))"

section \<open>Integrity\<close>

lemma table_ok_upsert_new:
  "table_ok key P rs \<Longrightarrow> (\<And>r. key r = key new \<Longrightarrow> key (upd r) = key r) \<Longrightarrow>
     (\<And>r. key r = key new \<Longrightarrow> P r \<Longrightarrow> P (upd r)) \<Longrightarrow> (key new \<notin> key ` set rs \<Longrightarrow> P new) \<Longrightarrow>
     upsert_row key upd new rs = (r, rows) \<Longrightarrow> table_ok key P rows"
  using table_ok_upsert [of key P rs new upd] by simp

text \<open>A unique column that the update leaves alone, next to the key of the upsert.\<close>

lemma table_ok_upsert_other:
  assumes "table_ok k P rs" and "\<And>r. k (upd r) = k r" and "\<And>r. P r \<Longrightarrow> P (upd r)"
    and "key new \<notin> key ` set rs \<Longrightarrow> k new \<notin> k ` set rs \<and> P new"
    and "upsert_row key upd new rs = (r, rows)"
  shows "table_ok k P rows \<and> k ` set rs \<subseteq> k ` set rows"
  using assms
proof (induction rs arbitrary: rows r)
  case (Cons x xs)
  show ?case
  proof (cases "key x = key new")
    case True
    then have "rows = upd x # xs" using Cons.prems(5) by auto
    then show ?thesis using Cons.prems(1-3) by (auto simp: table_ok_def image_iff)
  next
    case False
    then obtain rows' where r: "upsert_row key upd new xs = (r, rows')" "rows = x # rows'"
      using Cons.prems(5) by (auto split: prod.splits)
    have "table_ok k P rows' \<and> k ` set xs \<subseteq> k ` set rows'"
      using Cons.prems False r(1) by (intro Cons.IH) (auto simp: table_ok_def)
    moreover have "k x \<notin> k ` set rows'"
    proof
      assume "k x \<in> k ` set rows'"
      then obtain y where y: "y \<in> set (snd (upsert_row key upd new xs))" "k y = k x" using r(1) by auto
      have "k x \<notin> k ` set xs" using Cons.prems(1) by (simp add: table_ok_def)
      then show False
        using set_upsert_row [OF y(1)] y(2) Cons.prems(2) Cons.prems(4) False by (auto simp: image_iff)
    qed
    ultimately show ?thesis using Cons.prems(1) r(2) by (auto simp: table_ok_def)
  qed
qed (auto simp: table_ok_def)

lemma pg_okD:
  assumes "pg_ok db"
  shows "table_ok h_id (\<lambda>h. h_status h \<in> set host_statuses) (t_hosts db)"
    "table_ok h_machine_id (\<lambda>h. True) (t_hosts db)" "table_ok job_key (\<lambda>j. True) (t_jobs db)"
    "table_ok a_id alert_row_ok (t_alerts db)" "table_ok et_id (\<lambda>t. True) (t_tokens db)"
    "table_ok et_token_hash (\<lambda>t. True) (t_tokens db)"
    "table_ok j_id (job_row_ok (host_ids db)) (t_jobs db)"
    "table_ok e_id (execution_row_ok (host_ids db) (job_ids db)) (t_executions db)"
    "table_ok m_id (metric_row_ok (host_ids db)) (t_metrics db)"
    "table_ok hs_host_id (\<lambda>s. hs_host_id s \<in> host_ids db) (t_host_states db)"
    "table_ok js_job_id (\<lambda>s. js_job_id s \<in> job_ids db \<and> js_host_id s \<in> host_ids db) (t_job_states db)"
    "table_ok c_id (command_row_ok (host_ids db) (job_ids db)) (t_commands db)"
    "table_ok cr_host_id (\<lambda>c. cr_host_id c \<in> host_ids db) (t_credentials db)"
  using assms by (simp_all add: pg_ok_def refs_ok_def)

lemma pg_ok_host_rows:
  assumes "pg_ok db" and "\<And>h. h_id (f h) = h_id h" and "\<And>h. h_machine_id (f h) = h_machine_id h"
    and "\<And>h. h_status (f h) \<in> set host_statuses"
  shows "pg_ok (db\<lparr>t_hosts := update_where p f (t_hosts db)\<rparr>)"
proof (rule pg_ok_hosts [OF assms(1)])
  show "host_ids db \<subseteq> h_id ` set (update_where p f (t_hosts db))"
    by (simp add: host_ids_def flip: set_map) (simp add: map_update_where assms(2))
qed (use assms in \<open>simp_all add: table_ok_update pg_okD\<close>)

lemma host_upsert_ok: "pg_ok db \<Longrightarrow> pg_ok (snd (host_upsert E h db))"
  unfolding host_upsert_def
proof (rule stmt_inv [where P = pg_ok])
  fix now u r db'
  assume ok: "pg_ok db" and f: "(if h_machine_id h \<notin> h_machine_id ` set (t_hosts db) \<and> u \<in> host_ids db then Inl Constraint
     else (case upsert_row h_machine_id (refresh_host h) (new_host now u h) (t_hosts db) of
             (r, rows) \<Rightarrow> Inr (r, db\<lparr>t_hosts := rows\<rparr>))) = Inr (r, db')"
  obtain r0 rows where up: "upsert_row h_machine_id (refresh_host h) (new_host now u h) (t_hosts db) = (r0, rows)"
    by fastforce
  with f have db': "db' = db\<lparr>t_hosts := rows\<rparr>"
    and fresh: "h_machine_id h \<notin> h_machine_id ` set (t_hosts db) \<Longrightarrow> u \<notin> host_ids db"
    by (auto split: if_splits)
  have "table_ok h_id (\<lambda>h. h_status h \<in> set host_statuses) rows \<and> h_id ` set (t_hosts db) \<subseteq> h_id ` set rows"
    using pg_okD(1) [OF ok] fresh
    by (intro table_ok_upsert_other [OF _ _ _ _ up])
      (auto simp: refresh_host_def new_host_def host_ids_def host_statuses_def)
  moreover have "table_ok h_machine_id (\<lambda>h. True) rows"
    using pg_okD(2) [OF ok] by (rule table_ok_upsert_new [OF _ _ _ _ up]) (simp_all add: refresh_host_def)
  ultimately show "pg_ok (bump db')" using ok by (simp add: db' pg_ok_hosts host_ids_def)
qed simp

lemma job_upsert_ok: "pg_ok db \<Longrightarrow> pg_ok (snd (job_upsert E j db))"
proof (cases "sv_parse_uuid E (j_host_id j)")
  case (Some hid)
  assume ok: "pg_ok db"
  show ?thesis unfolding job_upsert_def Some option.case
  proof (rule stmt_inv [where P = pg_ok])
    fix now u r db'
    let ?new = "new_job now u hid j"
    assume f: "(let new = ?new in
          if j_source_type j \<notin> set job_sources \<or> hid \<notin> host_ids db
             \<or> (job_key new \<notin> job_key ` set (t_jobs db) \<and> u \<in> job_ids db) then Inl Constraint
          else (case upsert_row job_key (refresh_job now j) new (t_jobs db) of
                  (r, rows) \<Rightarrow> Inr (r, db\<lparr>t_jobs := rows\<rparr>))) = Inr (r, db')"
    obtain r0 rows where up: "upsert_row job_key (refresh_job now j) ?new (t_jobs db) = (r0, rows)"
      by fastforce
    with f have db': "db' = db\<lparr>t_jobs := rows\<rparr>" and src: "j_source_type j \<in> set job_sources" "hid \<in> host_ids db"
      and fresh: "job_key ?new \<notin> job_key ` set (t_jobs db) \<Longrightarrow> u \<notin> job_ids db"
      by (auto simp: Let_def split: if_splits)
    have "table_ok j_id (job_row_ok (host_ids db)) rows \<and> j_id ` set (t_jobs db) \<subseteq> j_id ` set rows"
      using pg_okD(7) [OF ok] fresh src
      by (intro table_ok_upsert_other [OF _ _ _ _ up])
        (auto simp: refresh_job_def new_job_def job_ids_def job_row_ok_def)
    moreover have "table_ok job_key (\<lambda>j. True) rows"
      using pg_okD(3) [OF ok] by (rule table_ok_upsert_new [OF _ _ _ _ up]) (simp_all add: refresh_job_def job_key_def)
    ultimately show "pg_ok (bump db')" using ok by (simp add: db' pg_ok_jobs job_ids_def)
  qed (use ok in simp)
qed (simp add: job_upsert_def)

text \<open>A statement that writes one table.\<close>

lemma host_update_heartbeat_ok: "pg_ok db \<Longrightarrow> pg_ok (snd (host_update_heartbeat E i ip db))"
  unfolding host_update_heartbeat_def
  by (rule stmt_inv [where P = pg_ok])
    (auto split: option.splits intro!: pg_ok_host_rows simp: host_statuses_def)

lemma host_update_status_ok: "pg_ok db \<Longrightarrow> pg_ok (snd (host_update_status E i status db))"
proof (cases "status \<in> set host_statuses")
  case True
  then show "pg_ok db \<Longrightarrow> ?thesis" unfolding host_update_status_def
    by (intro stmt_inv [where P = pg_ok]) (auto split: option.splits if_splits intro!: pg_ok_host_rows)
next
  case False
  have "update_where (\<lambda>h. h_id h = hid) f (t_hosts db) = t_hosts db" if "hid \<notin> host_ids db" for hid f
    using that by (auto simp: update_where_def host_ids_def intro!: map_idI)
  then show "pg_ok db \<Longrightarrow> ?thesis" using False unfolding host_update_status_def
    by (intro stmt_inv [where P = pg_ok]) (auto split: option.splits if_splits)
qed

lemma mark_stale_hosts_ok: "pg_ok db \<Longrightarrow> pg_ok (snd (mark_stale_hosts E threshold db))"
  unfolding mark_stale_hosts_def
  by (rule stmt_inv [where P = pg_ok]) (auto intro!: pg_ok_host_rows simp: host_statuses_def)

lemma host_upsert_state_ok: "pg_ok db \<Longrightarrow> pg_ok (snd (host_upsert_state E i st hb n db))"
  unfolding host_upsert_state_def
  by (rule stmt_inv [where P = pg_ok])
    (auto simp: Let_def split: option.splits if_splits intro!: pg_ok_tables(4) table_ok_upsert dest: pg_okD(10))

lemma job_upsert_state_ok: "pg_ok db \<Longrightarrow> pg_ok (snd (job_upsert_state E i hi st lr ne n db))"
  unfolding job_upsert_state_def
  by (auto split: option.splits intro!: stmt_inv [where P = pg_ok])
    (auto simp: Let_def split: if_splits intro!: pg_ok_tables(5) table_ok_upsert dest: pg_okD(11))

lemma command_insert_ok: "pg_ok db \<Longrightarrow> pg_ok (snd (command_insert E c db))"
  unfolding command_insert_def
  by (rule stmt_inv [where P = pg_ok])
    (auto simp: Let_def split: option.splits if_splits intro!: pg_ok_tables(6) table_ok_insert dest: pg_okD(12))

lemma command_claim_pending_ok: "pg_ok db \<Longrightarrow> pg_ok (snd (command_claim_pending E i l db))"
  unfolding command_claim_pending_def
  by (rule stmt_inv [where P = pg_ok])
    (auto simp: Let_def dispatch_def command_row_ok_def command_statuses_def split: option.splits
      intro!: pg_ok_tables(6) table_ok_update dest: pg_okD(12))

lemma command_complete_ok: "pg_ok db \<Longrightarrow> pg_ok (snd (command_complete E i st m s f c db))"
proof (cases "st \<in> set command_statuses")
  case True
  then show "pg_ok db \<Longrightarrow> ?thesis" unfolding command_complete_def
    by (intro stmt_inv [where P = pg_ok])
      (auto simp: command_row_ok_def split: option.splits intro!: pg_ok_tables(6) table_ok_update dest: pg_okD(12))
next
  case False
  have "update_where (\<lambda>c. c_id c = cid) g (t_commands db) = t_commands db" if "cid \<notin> c_id ` set (t_commands db)" for cid g
    using that by (auto simp: update_where_def intro!: map_idI)
  then show "pg_ok db \<Longrightarrow> ?thesis" using False unfolding command_complete_def
    by (intro stmt_inv [where P = pg_ok]) (auto split: option.splits if_splits)
qed

lemma credential_upsert_ok: "pg_ok db \<Longrightarrow> pg_ok (snd (credential_upsert E i h db))"
  unfolding credential_upsert_def
  by (rule stmt_inv [where P = pg_ok])
    (auto split: option.splits if_splits intro!: pg_ok_tables(7) table_ok_upsert dest: pg_okD(13))

lemma token_create_ok: "pg_ok db \<Longrightarrow> pg_ok (snd (token_create E h l t db))"
  unfolding token_create_def
  by (rule stmt_inv [where P = pg_ok])
    (auto simp: Let_def split: if_splits intro!: pg_ok_tables(8) table_ok_insert dest: pg_okD(5,6))

lemma token_mark_used_ok: "pg_ok db \<Longrightarrow> pg_ok (snd (token_mark_used E h db))"
  unfolding token_mark_used_def
  by (rule stmt_inv [where P = pg_ok])
    (auto simp: use_token_def intro!: pg_ok_tables(8) table_ok_update dest: pg_okD(5,6))

lemma snd_token_lookup [simp]: "snd (token_lookup E h db) = bump db"
  by (simp add: token_lookup_def query_db)

lemma token_check_tables: "\<exists>n. snd (token_check E h db) = db\<lparr>pg_calls := n\<rparr>"
  using snd_token_lookup [of E h db] unfolding token_check_def
  by (auto simp: server_now_def bump_def simp del: snd_token_lookup split: prod.splits sum.splits repo_error.splits)

lemma pg_ok_calls [simp]: "pg_ok (db\<lparr>pg_calls := n\<rparr>) = pg_ok db"
  by (simp add: pg_ok_def refs_ok_def host_ids_def job_ids_def)

lemma token_consume_ok: "pg_ok db \<Longrightarrow> pg_ok (snd (token_consume E h db))"
  using token_check_tables [of E h db] unfolding token_consume_def
  by (auto simp: token_mark_used_ok split: prod.splits sum.splits)

lemmas inventory_ok = host_upsert_ok host_update_heartbeat_ok host_update_status_ok mark_stale_hosts_ok
  host_upsert_state_ok job_upsert_ok job_upsert_state_ok command_insert_ok command_claim_pending_ok
  command_complete_ok credential_upsert_ok token_create_ok token_mark_used_ok token_consume_ok

section \<open>The contract of the upserts\<close>

text \<open>
  \<open>find k\<close> is the row stored under a key, \<open>save v\<close> writes a value under \<open>key v\<close>, and \<open>fits v old r\<close>
  says which row \<open>r\<close> it leaves there when \<open>old\<close> was there before.
\<close>

locale keyed_table =
  fixes find :: "'k \<Rightarrow> 's \<Rightarrow> 'r option"
    and save :: "'v \<Rightarrow> 's \<Rightarrow> (repo_error + 'x) \<times> 's"
    and key :: "'v \<Rightarrow> 'k"
    and fits :: "'v \<Rightarrow> 'r option \<Rightarrow> 'r \<Rightarrow> bool"
    and inv :: "'s \<Rightarrow> bool"
  assumes save_ok: "save v s = (Inr x, s') \<Longrightarrow> \<exists>r. find (key v) s' = Some r \<and> fits v (find (key v) s) r"
    and save_other: "k \<noteq> key v \<Longrightarrow> find k (snd (save v s)) = find k s"
    and save_err: "save v s = (Inl e, s') \<Longrightarrow> find k s' = find k s"
    and save_inv: "inv s \<Longrightarrow> inv (snd (save v s))"
begin

lemma save_cases:
  "find k (snd (save v s)) = find k s \<or>
     k = key v \<and> (\<exists>r. find k (snd (save v s)) = Some r \<and> fits v (find k s) r)"
proof (cases "k = key v")
  case True
  then show ?thesis using save_ok [of v s] save_err [of v s]
    by (cases "save v s"; cases "fst (save v s)") auto
qed (simp add: save_other)

lemma inv_fold: "inv s \<Longrightarrow> inv (fold (\<lambda>v s. snd (save v s)) vs s)"
  by (induction vs arbitrary: s) (simp_all add: save_inv)

lemma fold_other: "k \<notin> key ` set vs \<Longrightarrow> find k (fold (\<lambda>v s. snd (save v s)) vs s) = find k s"
  by (induction vs arbitrary: s) (simp_all add: save_other)

text \<open>Rows never disappear, and what every save keeps of a row is kept by all of them.\<close>

lemma fold_keeps:
  assumes "\<And>v r r'. fits v (Some r) r' \<Longrightarrow> P r \<Longrightarrow> P r'" and "find k s = Some r" and "P r"
  shows "\<exists>r'. find k (fold (\<lambda>v s. snd (save v s)) vs s) = Some r' \<and> P r'"
  using assms(2,3)
proof (induction vs arbitrary: s r)
  case (Cons v vs)
  obtain r' where "find k (snd (save v s)) = Some r'" "P r'"
    using save_cases [of k v s] Cons.prems assms(1) [of v r] by auto
  then show ?case using Cons.IH by simp
qed simp

lemma fold_domain:
  "find k (fold (\<lambda>v s. snd (save v s)) vs s) \<noteq> None \<Longrightarrow> find k s \<noteq> None \<or> k \<in> key ` set vs"
  using fold_other [of k vs s] by metis

end

definition host_of :: "string \<Rightarrow> pg \<Rightarrow> host option" where
  "host_of m db = List.find (\<lambda>h. h_machine_id h = m) (t_hosts db)"

definition job_of :: "string \<times> string \<Rightarrow> pg \<Rightarrow> job option" where
  "job_of k db = List.find (\<lambda>j. job_key j = k) (t_jobs db)"

definition credential_of :: "string \<Rightarrow> pg \<Rightarrow> credential option" where
  "credential_of hid db = List.find (\<lambda>c. cr_host_id c = hid) (t_credentials db)"

definition parsed_id :: "server_env \<Rightarrow> string \<Rightarrow> string" where
  "parsed_id E i = (case sv_parse_uuid E i of None \<Rightarrow> i | Some u \<Rightarrow> u)"

definition pg_id :: "server_env \<Rightarrow> string \<Rightarrow> string" where
  "pg_id E i = (case sv_pg_uuid E i of None \<Rightarrow> i | Some u \<Rightarrow> u)"

definition host_fits :: "host \<Rightarrow> host option \<Rightarrow> host \<Rightarrow> bool" where
  "host_fits h old r =
     (case old of Some r0 \<Rightarrow> r = refresh_host h r0 | None \<Rightarrow> r = new_host (h_registered_at r) (h_id r) h)"

definition job_fits :: "server_env \<Rightarrow> job \<Rightarrow> job option \<Rightarrow> job \<Rightarrow> bool" where
  "job_fits E j old r =
     (case old of
        Some r0 \<Rightarrow> r = refresh_job (j_updated_at r) j r0
      | None \<Rightarrow> r = new_job (j_created_at r) (j_id r) (parsed_id E (j_host_id j)) j)"

lemma host_upsert_cases:
  assumes "host_upsert E h db = (y, db')"
  shows "(\<exists>e. y = Inl e \<and> t_hosts db' = t_hosts db) \<or>
     (\<exists>now u x. y = Inr x \<and> upsert_row h_machine_id (refresh_host h) (new_host now u h) (t_hosts db) = (x, t_hosts db'))"
  using assms unfolding host_upsert_def stmt_def
  by (auto split: if_splits sum.splits prod.splits simp del: upsert_row.simps)

lemma host_of_upsert:
  assumes "upsert_row h_machine_id (refresh_host h) (new_host now u h) (t_hosts db) = (x, t_hosts db')"
  shows "host_of k db' = (if k = h_machine_id h then Some x else host_of k db)"
    and "host_fits h (host_of (h_machine_id h) db) x"
proof -
  have k: "h_machine_id (new_host now u h) = h_machine_id h" by (simp add: new_host_def)
  show "host_of k db' = (if k = h_machine_id h then Some x else host_of k db)"
    unfolding host_of_def by (subst upsert_row_find(1) [OF assms]) (simp_all add: refresh_host_def k)
  show "host_fits h (host_of (h_machine_id h) db) x"
    using upsert_row_find(2) [OF assms] k
    by (auto simp: host_of_def host_fits_def new_host_def refresh_host_def split: option.splits)
qed

interpretation hosts: keyed_table host_of "host_upsert E" h_machine_id host_fits pg_ok for E
proof
  show "\<exists>r. host_of (h_machine_id v) s' = Some r \<and> host_fits v (host_of (h_machine_id v) s) r"
    if "host_upsert E v s = (Inr x, s')" for v s x s'
    using host_upsert_cases [OF that] by (auto simp: host_of_upsert)
  show "host_of k (snd (host_upsert E v s)) = host_of k s" if "k \<noteq> h_machine_id v" for k v s
    using host_upsert_cases [of E v s "fst (host_upsert E v s)" "snd (host_upsert E v s)"] that
    by (auto simp: host_of_upsert) (simp add: host_of_def)
  show "host_of k s' = host_of k s" if "host_upsert E v s = (Inl e, s')" for v s e s' k
    using host_upsert_cases [OF that] by (auto simp: host_of_def)
qed (rule host_upsert_ok)

lemma job_upsert_cases:
  assumes "job_upsert E j db = (y, db')"
  shows "(\<exists>e. y = Inl e \<and> t_jobs db' = t_jobs db) \<or>
     (\<exists>now u x hid. y = Inr x \<and> sv_parse_uuid E (j_host_id j) = Some hid \<and>
        upsert_row job_key (refresh_job now j) (new_job now u hid j) (t_jobs db) = (x, t_jobs db'))"
  using assms unfolding job_upsert_def stmt_def
  by (auto simp: Let_def split: option.splits if_splits sum.splits prod.splits simp del: upsert_row.simps)

lemma job_of_upsert:
  assumes "upsert_row job_key (refresh_job now j) (new_job now u hid j) (t_jobs db) = (x, t_jobs db')"
    and "sv_parse_uuid E (j_host_id j) = Some hid"
  shows "job_of k db' = (if k = (parsed_id E (j_host_id j), j_command_hash j) then Some x else job_of k db)"
    and "job_fits E j (job_of (parsed_id E (j_host_id j), j_command_hash j) db) x"
proof -
  have k: "job_key (new_job now u hid j) = (parsed_id E (j_host_id j), j_command_hash j)"
    using assms(2) by (simp add: new_job_def job_key_def parsed_id_def)
  show "job_of k db' = (if k = (parsed_id E (j_host_id j), j_command_hash j) then Some x else job_of k db)"
    unfolding job_of_def by (subst upsert_row_find(1) [OF assms(1)]) (simp_all add: refresh_job_def job_key_def k [unfolded job_key_def])
  show "job_fits E j (job_of (parsed_id E (j_host_id j), j_command_hash j) db) x"
    using upsert_row_find(2) [OF assms(1)] k assms(2)
    by (auto simp: job_of_def job_fits_def new_job_def refresh_job_def job_key_def parsed_id_def split: option.splits)
qed

interpretation jobs: keyed_table job_of "job_upsert E" "\<lambda>j. (parsed_id E (j_host_id j), j_command_hash j)"
  "job_fits E" pg_ok for E
proof
  show "\<exists>r. job_of (parsed_id E (j_host_id v), j_command_hash v) s' = Some r \<and>
      job_fits E v (job_of (parsed_id E (j_host_id v), j_command_hash v) s) r"
    if "job_upsert E v s = (Inr x, s')" for v s x s'
    using job_upsert_cases [OF that] by (auto simp: job_of_upsert)
  show "job_of k (snd (job_upsert E v s)) = job_of k s"
    if "k \<noteq> (parsed_id E (j_host_id v), j_command_hash v)" for k v s
    using job_upsert_cases [of E v s "fst (job_upsert E v s)" "snd (job_upsert E v s)"] that
    by (auto simp: job_of_upsert) (simp add: job_of_def)
  show "job_of k s' = job_of k s" if "job_upsert E v s = (Inl e, s')" for v s e s' k
    using job_upsert_cases [OF that] by (auto simp: job_of_def)
qed (rule job_upsert_ok)

text \<open>A credential is saved as a pair of host and token hash.\<close>

definition credential_save :: "server_env \<Rightarrow> string \<times> string \<Rightarrow> pg \<Rightarrow> unit repo_result" where
  "credential_save E c = (case c of (i, h) \<Rightarrow> credential_upsert E i h)"

definition credential_fits :: "string \<times> string \<Rightarrow> credential option \<Rightarrow> credential \<Rightarrow> bool" where
  "credential_fits c old r \<longleftrightarrow> cr_token_hash r = snd c \<and> (\<forall>r0. old = Some r0 \<longrightarrow> cr_created_at r = cr_created_at r0)"

abbreviation credential_row :: "time \<Rightarrow> string \<Rightarrow> string \<Rightarrow> credential" where
  "credential_row now hid h \<equiv> \<lparr>cr_host_id = hid, cr_token_hash = h, cr_created_at = now, cr_rotated_at = now\<rparr>"

lemma credential_upsert_cases:
  assumes "credential_upsert E i h db = (y, db')"
  shows "(\<exists>e. y = Inl e \<and> t_credentials db' = t_credentials db) \<or>
     (\<exists>now. y = Inr () \<and> sv_pg_uuid E i \<noteq> None \<and> t_credentials db' =
        snd (upsert_row cr_host_id (\<lambda>old. old\<lparr>cr_token_hash := h, cr_rotated_at := now\<rparr>)
               (credential_row now (pg_id E i) h) (t_credentials db)))"
  using assms unfolding credential_upsert_def stmt_def
  by (auto simp: pg_id_def split: option.splits if_splits sum.splits)

lemma credential_of_upsert:
  assumes "t_credentials db' =
     snd (upsert_row cr_host_id (\<lambda>old. old\<lparr>cr_token_hash := h, cr_rotated_at := now\<rparr>)
            (credential_row now hid h) (t_credentials db))"
  shows "k \<noteq> hid \<Longrightarrow> credential_of k db' = credential_of k db"
    and "\<exists>r. credential_of hid db' = Some r \<and> credential_fits (i, h) (credential_of hid db) r"
  using assms by (auto simp: credential_of_def credential_fits_def find_upsert_row fst_upsert_row split: option.split)

interpretation credentials: keyed_table credential_of "credential_save E" "\<lambda>c. pg_id E (fst c)" credential_fits pg_ok for E
proof
  show "\<exists>r. credential_of (pg_id E (fst v)) s' = Some r \<and> credential_fits v (credential_of (pg_id E (fst v)) s) r"
    if "credential_save E v s = (Inr x, s')" for v s x s'
    using credential_upsert_cases [of E "fst v" "snd v" s "Inr x" s'] that
    by (cases v) (auto simp: credential_save_def dest: credential_of_upsert(2))
  show "credential_of k (snd (credential_save E v s)) = credential_of k s" if "k \<noteq> pg_id E (fst v)" for k v s
    using credential_upsert_cases [of E "fst v" "snd v" s "fst (credential_save E v s)" "snd (credential_save E v s)"] that
    by (cases v) (auto simp: credential_save_def credential_of_upsert(1) [where k = k], simp add: credential_of_def)
  show "credential_of k s' = credential_of k s" if "credential_save E v s = (Inl e, s')" for v s e s' k
    using credential_upsert_cases [of E "fst v" "snd v" s "Inl e" s'] that
    by (auto simp: credential_of_def credential_save_def split_beta)
qed (simp add: credential_save_def credential_upsert_ok split_beta)

section \<open>Claiming commands\<close>

text \<open>A sequence of polls, each by the agent of some host: the commands given out, poll by poll.\<close>

fun claim_runs :: "server_env \<Rightarrow> (string \<times> int) list \<Rightarrow> pg \<Rightarrow> agent_command list list \<times> pg" where
  "claim_runs E [] db = ([], db)"
| "claim_runs E ((i, l) # polls) db =
     (case command_claim_pending E i l db of
        (Inl e, db) \<Rightarrow> claim_runs E polls db
      | (Inr cs, db) \<Rightarrow> (case claim_runs E polls db of (rest, db) \<Rightarrow> (cs # rest, db)))"

definition pending_ids :: "pg \<Rightarrow> string set" where
  "pending_ids db = c_id ` {c \<in> set (t_commands db). c_status c = ''pending''}"

definition claim_size :: "int \<Rightarrow> nat" where
  "claim_size limit = (if limit \<le> 0 then 10 else nat limit)"

lemma set_picked: "c \<in> set (picked hid n cs) \<Longrightarrow> c \<in> set cs \<and> pending_for hid c"
  unfolding picked_def by (drule in_set_takeD) simp

lemma mset_map_update:
  "distinct (map f rs) \<Longrightarrow> (\<And>r. f (g r) = f r) \<Longrightarrow>
     mset (filter (\<lambda>r. f r \<in> f ` set ps) (update_where (\<lambda>r. f r \<in> f ` set ps) g rs))
       = mset (map g (filter (\<lambda>r. f r \<in> f ` set ps) rs))"
  unfolding update_where_def by (induction rs) (auto simp: image_iff)

lemma distinct_filter_picked:
  assumes "distinct (map f rs)" and "set ps \<subseteq> set rs" and "distinct (map f ps)"
  shows "mset (filter (\<lambda>r. f r \<in> f ` set ps) rs) = mset ps"
proof -
  have inj: "inj_on f (set rs)" and d: "distinct rs" "distinct ps" using assms(1,3) by (auto simp: distinct_map)
  have "set (filter (\<lambda>r. f r \<in> f ` set ps) rs) = set ps" using assms(2) inj by (auto simp: inj_on_def)
  then show ?thesis using d by (metis set_eq_iff_mset_eq_distinct distinct_filter)
qed

lemma distinct_picked: "distinct (map c_id cs) \<Longrightarrow> distinct (map c_id (picked hid n cs))"
proof -
  assume "distinct (map c_id cs)"
  then have "distinct (map c_id (filter (pending_for hid) cs))" by (rule distinct_map_filter)
  then have "distinct (map c_id (sort_key c_requested_at (filter (pending_for hid) cs)))"
    by (simp add: distinct_map)
  then show ?thesis by (simp add: picked_def flip: take_map)
qed

lemma command_claim_cases:
  assumes "command_claim_pending E i l db = (Inr cs, db')"
  obtains hid now where "sv_pg_uuid E i = Some hid"
    and "t_commands db' = update_where (\<lambda>c. c_id c \<in> c_id ` set (picked hid (claim_size l) (t_commands db))) (dispatch now) (t_commands db)"
    and "cs = filter (\<lambda>c. c_id c \<in> c_id ` set (picked hid (claim_size l) (t_commands db))) (t_commands db')"
  using assms unfolding command_claim_pending_def stmt_def claim_size_def
  by (auto simp: Let_def split: if_splits option.splits)

lemma claim_ids:
  assumes "command_claim_pending E i l db = (Inr cs, db')" and "pg_ok db"
  shows "set (map c_id cs) \<subseteq> pending_ids db" and "pending_ids db' = pending_ids db - set (map c_id cs)"
    and "distinct (map c_id cs)"
proof -
  obtain hid now where h: "t_commands db' = update_where (\<lambda>c. c_id c \<in> c_id ` set (picked hid (claim_size l) (t_commands db))) (dispatch now) (t_commands db)"
    and cs: "cs = filter (\<lambda>c. c_id c \<in> c_id ` set (picked hid (claim_size l) (t_commands db))) (t_commands db')"
    using assms(1) by (rule command_claim_cases)
  let ?I = "c_id ` set (picked hid (claim_size l) (t_commands db))"
  have ids: "map c_id (t_commands db') = map c_id (t_commands db)"
    unfolding h by (rule map_update_where) (simp add: dispatch_def)
  have sub: "?I \<subseteq> c_id ` set (t_commands db)" by (auto dest: set_picked)
  have "set (map c_id cs) = set (map c_id (t_commands db')) \<inter> ?I" unfolding cs by auto
  then have I: "set (map c_id cs) = ?I" using sub unfolding ids by auto
  show "set (map c_id cs) \<subseteq> pending_ids db"
    unfolding I by (auto simp: pending_ids_def pending_for_def dest: set_picked)
  show "pending_ids db' = pending_ids db - set (map c_id cs)"
    unfolding I unfolding pending_ids_def h by (auto simp: update_where_def dispatch_def image_iff split: if_splits)
  have "distinct (map c_id (t_commands db'))" using pg_okD(12) [OF assms(2)] by (simp add: ids table_ok_def)
  then show "distinct (map c_id cs)" unfolding cs by (rule distinct_map_filter)
qed

lemma claim_err: "command_claim_pending E i l db = (Inl e, db') \<Longrightarrow> pending_ids db' = pending_ids db"
  unfolding command_claim_pending_def stmt_def pending_ids_def
  by (auto simp: Let_def split: if_splits option.splits)

lemma claim_runs_ids:
  "claim_runs E polls db = (css, db') \<Longrightarrow> pg_ok db \<Longrightarrow>
     distinct (map c_id (concat css)) \<and> set (map c_id (concat css)) \<subseteq> pending_ids db"
proof (induction polls arbitrary: db css)
  case (Cons poll polls)
  obtain i l where poll: "poll = (i, l)" by fastforce
  obtain y db1 where c: "command_claim_pending E i l db = (y, db1)" by fastforce
  have ok: "pg_ok db1" using command_claim_pending_ok [OF Cons.prems(2), of E i l] c by simp
  show ?case
  proof (cases y)
    case (Inl e)
    then show ?thesis using Cons.IH [OF _ ok, of css] Cons.prems(1) c claim_err [of E i l db e db1] poll by simp
  next
    case (Inr cs)
    then obtain rest where r: "claim_runs E polls db1 = (rest, db')" "css = cs # rest"
      using Cons.prems(1) c poll by (auto split: prod.splits)
    note ids = Cons.IH [OF r(1) ok] claim_ids [OF c [unfolded Inr] Cons.prems(2)]
    have "map c_id (concat css) = map c_id cs @ map c_id (concat rest)" using r(2) by simp
    then show ?thesis using ids by (simp only: distinct_append set_append) blast
  qed
qed simp


definition queued :: "string \<Rightarrow> string \<Rightarrow> time \<Rightarrow> agent_command" where
  "queued i h t = \<lparr>c_id = i, c_host_id = h, c_job_id = ''j'', c_command_hash = [], c_raw_command = [], c_schedule = [],
     c_status = ''pending'', c_message = [], c_exit_code = None, c_requested_at = t, c_dispatched_at = None,
     c_started_at = None, c_finished_at = None\<rparr>"

definition host_row :: "string \<Rightarrow> host" where
  "host_row i = \<lparr>h_id = i, h_machine_id = i, h_hostname = i, h_ip_address = [], h_environment = [], h_tags = [],
     h_registered_at = 0, h_last_heartbeat_at = None, h_status = ''unknown'', h_agent_version = [], h_metadata = None\<rparr>"

definition job_row :: "string \<Rightarrow> string \<Rightarrow> string \<Rightarrow> job" where
  "job_row i h hash = \<lparr>j_id = i, j_host_id = h, j_source_type = ''cron'', j_schedule = [], j_timezone = [], j_user = [],
     j_raw_command = [], j_normalized_command = [], j_command_hash = hash, j_enabled = True, j_source_file = [],
     j_metadata = None, j_created_at = 0, j_updated_at = 0\<rparr>"

definition queue_pg :: pg where
  "queue_pg = empty_pg\<lparr>t_hosts := [host_row ''h''], t_jobs := [job_row ''j'' ''h'' []],
     t_commands := [queued ''c3'' ''h'' 3, queued ''c1'' ''h'' 1, queued ''c2'' ''h'' 2]\<rparr>"

lemmas sample_rows = queued_def host_row_def job_row_def

lemma queue_pg_ok: "pg_ok queue_pg"
  by (simp add: queue_pg_def sample_rows pg_ok_def refs_ok_def table_ok_def empty_pg_def host_ids_def job_ids_def
      job_row_ok_def command_row_ok_def host_statuses_def job_sources_def command_statuses_def)


text \<open>C8. Over any sequence of polls by any hosts no command is given out twice, and only commands that
  were pending are given out.\<close>

theorem claimed_once:
  assumes "pg_ok db"
  shows "distinct (map c_id (concat (fst (claim_runs E polls db))))
     \<and> set (map c_id (concat (fst (claim_runs E polls db)))) \<subseteq> pending_ids db"
  using claim_runs_ids [of E polls db "fst (claim_runs E polls db)" "snd (claim_runs E polls db)"] assms by simp

theorem claimed_once_witness:
  "fst (claim_runs calm_server [(''h'', 2), (''h'', 0)] queue_pg)
     = [[dispatch 0 (queued ''c1'' ''h'' 1), dispatch 0 (queued ''c2'' ''h'' 2)], [dispatch (hours 1) (queued ''c3'' ''h'' 3)]]
   \<and> distinct (map c_id (concat (fst (claim_runs calm_server [(''h'', 2), (''h'', 0)] queue_pg))))"
proof
  show "fst (claim_runs calm_server [(''h'', 2), (''h'', 0)] queue_pg)
     = [[dispatch 0 (queued ''c1'' ''h'' 1), dispatch 0 (queued ''c2'' ''h'' 2)], [dispatch (hours 1) (queued ''c3'' ''h'' 3)]]"
    by (simp add: command_claim_pending_def stmt_def calm_server_def queue_pg_def empty_pg_def picked_def pending_for_def
        queued_def dispatch_def update_where_def hours_def minutes_def seconds_def Let_def bump_def)
  show "distinct (map c_id (concat (fst (claim_runs calm_server [(''h'', 2), (''h'', 0)] queue_pg))))"
    using claimed_once [OF queue_pg_ok] by blast
qed

section \<open>Enrollment tokens\<close>

lemma token_check_True:
  assumes "token_check E h db = (Inr True, db')"
  shows "\<exists>t. select_one (\<lambda>t. et_token_hash t = h) (t_tokens db) = Inr t \<and> \<not> et_used t
     \<and> sv_now E (Suc (pg_calls db)) \<le> et_expires_at t \<and> t_tokens db' = t_tokens db"
  using assms unfolding token_check_def token_lookup_def query_def stmt_def server_now_def
  by (auto split: if_splits sum.splits repo_error.splits)

lemma token_check_False:
  assumes "token_check E h db = (Inr False, db')"
  shows "\<forall>t \<in> set (t_tokens db). et_token_hash t \<noteq> h"
  using assms unfolding token_check_def token_lookup_def query_def stmt_def server_now_def
  by (auto dest: select_one_Inl split: if_splits sum.splits repo_error.splits)

lemma mark_used_tokens:
  "token_mark_used E h db = (Inr (), db') \<Longrightarrow>
     \<exists>now. t_tokens db' = update_where (\<lambda>t. et_token_hash t = h) (use_token now) (t_tokens db)"
  unfolding token_mark_used_def stmt_def by (auto split: if_splits)

lemma used_after: "\<forall>t \<in> set (update_where (\<lambda>t. et_token_hash t = h) (use_token now) ts). et_token_hash t = h \<longrightarrow> et_used t"
proof (intro ballI impI)
  fix t assume "t \<in> set (update_where (\<lambda>t. et_token_hash t = h) (use_token now) ts)" and h: "et_token_hash t = h"
  then obtain r where "t = (if et_token_hash r = h then use_token now r else r)"
    unfolding update_where_def set_map by blast
  then show "et_used t" using h by (cases "et_token_hash r = h") (simp_all add: use_token_def)
qed

lemma hashes_after: "et_token_hash ` set (update_where (\<lambda>t. et_token_hash t = h) (use_token now) ts) = et_token_hash ` set ts"
proof -
  have "map et_token_hash (update_where (\<lambda>t. et_token_hash t = h) (use_token now) ts) = map et_token_hash ts"
    by (rule map_update_where) (simp add: use_token_def)
  then show ?thesis by (metis list.set_map)
qed

lemma consume_tokens:
  assumes "token_consume E h db = (Inr (), db')"
  shows "(\<exists>db1 now. token_check E h db = (Inr True, db1) \<and>
      t_tokens db' = update_where (\<lambda>t. et_token_hash t = h) (use_token now) (t_tokens db))
    \<or> h \<notin> et_token_hash ` set (t_tokens db) \<and> t_tokens db' = t_tokens db"
proof -
  obtain mark db1 where c: "token_check E h db = (Inr mark, db1)"
    using assms(1) unfolding token_consume_def by (auto split: prod.splits sum.splits)
  have t: "t_tokens db1 = t_tokens db" using token_check_tables [of E h db] c by auto
  show ?thesis
  proof (cases mark)
    case True
    then have "token_mark_used E h db1 = (Inr (), db')" using assms(1) c by (simp add: token_consume_def)
    from mark_used_tokens [OF this] show ?thesis using c True t by auto
  next
    case False
    then have "token_check E h db = (Inr False, db1)" using c by simp
    from token_check_False [OF this] show ?thesis using assms(1) c False t by (auto simp: token_consume_def)
  qed
qed

lemma consume_used_fails:
  assumes "\<forall>t \<in> set (t_tokens db). et_token_hash t = h \<longrightarrow> et_used t" and "h \<in> et_token_hash ` set (t_tokens db)"
  shows "fst (token_consume E h db) \<noteq> Inr ()"
proof
  assume "fst (token_consume E h db) = Inr ()"
  then have "token_consume E h db = (Inr (), snd (token_consume E h db))" by (metis prod.collapse)
  from consume_tokens [OF this] show False
    using assms token_check_True [of E h db] select_one_Inr [of "\<lambda>t. et_token_hash t = h" "t_tokens db"] by blast
qed

text \<open>A one-time token is accepted only while unused and unexpired, and once one request has consumed
  it no later request can.\<close>

theorem token_single_use:
  assumes "pg_ok db" and "t \<in> set (t_tokens db)" and "et_token_hash t = h"
    and "token_consume E h db = (Inr (), db')"
  shows "\<not> et_used t \<and> sv_now E (Suc (pg_calls db)) \<le> et_expires_at t \<and> fst (token_consume E' h db') \<noteq> Inr ()"
proof -
  have h: "h \<in> et_token_hash ` set (t_tokens db)" using assms(2,3) by blast
  obtain db1 now where c: "token_check E h db = (Inr True, db1)"
    and db': "t_tokens db' = update_where (\<lambda>t. et_token_hash t = h) (use_token now) (t_tokens db)"
    using consume_tokens [OF assms(4)] h by blast
  obtain t' where t': "select_one (\<lambda>t. et_token_hash t = h) (t_tokens db) = Inr t'" "\<not> et_used t'"
      "sv_now E (Suc (pg_calls db)) \<le> et_expires_at t'"
    using token_check_True [OF c] by auto
  have "t = t'" using pg_okD(6) [OF assms(1)] select_one_Inr [OF t'(1)] assms(2,3)
    by (auto simp: table_ok_def distinct_map inj_on_def)
  moreover have "fst (token_consume E' h db') \<noteq> Inr ()"
    unfolding db' by (intro consume_used_fails) (unfold db', rule used_after, simp only: hashes_after h)
  ultimately show ?thesis using t' by blast
qed

definition token_row :: "string \<Rightarrow> time \<Rightarrow> enrollment_token" where
  "token_row h expires = \<lparr>et_id = h, et_token_hash = h, et_label = [], et_used = False, et_used_at = None,
     et_expires_at = expires, et_created_at = 0\<rparr>"

definition token_pg :: pg where
  "token_pg = empty_pg\<lparr>t_tokens := [token_row ''#t'' (hours 24)]\<rparr>"

lemma token_pg_ok: "pg_ok token_pg"
  by (simp add: token_pg_def pg_ok_def refs_ok_def table_ok_def empty_pg_def host_ids_def job_ids_def)

lemmas run_repo = stmt_def query_def calm_server_def empty_pg_def update_where_def select_one_def bump_def Let_def
  hours_def minutes_def seconds_def

theorem token_single_use_witness:
  "fst (token_consume calm_server ''#t'' token_pg) = Inr ()
   \<and> fst (token_consume calm_server ''#t'' (snd (token_consume calm_server ''#t'' token_pg))) \<noteq> Inr ()"
proof -
  have ok: "fst (token_consume calm_server ''#t'' token_pg) = Inr ()"
    by (simp add: token_consume_def token_check_def token_lookup_def token_mark_used_def token_pg_def token_row_def
        server_now_def run_repo)
  have "token_row ''#t'' (hours 24) \<in> set (t_tokens token_pg)" "et_token_hash (token_row ''#t'' (hours 24)) = ''#t''"
    by (simp_all add: token_pg_def token_row_def)
  from token_single_use [OF token_pg_ok this, of calm_server "snd (token_consume calm_server ''#t'' token_pg)" calm_server] ok
  show ?thesis by (metis prod.collapse)
qed

text \<open>The check and the mark are separate statements: two requests that both check an unused token
  before either marks it both succeed, so a single-use token can enroll two agents.\<close>

theorem token_race:
  assumes "\<And>n. sv_up E n" and "select_one (\<lambda>t. et_token_hash t = h) (t_tokens db) = Inr t"
    and "\<not> et_used t" and "\<And>n. sv_now E n \<le> et_expires_at t"
  shows "case token_check E h db of (c1, db1) \<Rightarrow> case token_check E h db1 of (c2, db2) \<Rightarrow>
     case token_mark_used E h db2 of (m1, db3) \<Rightarrow> case token_mark_used E h db3 of (m2, db4) \<Rightarrow>
       c1 = Inr True \<and> c2 = Inr True \<and> m1 = Inr () \<and> m2 = Inr ()"
  using assms by (simp add: token_check_def token_lookup_def token_mark_used_def query_def stmt_def server_now_def not_less)

definition noon_server :: server_env where
  "noon_server = calm_server\<lparr>sv_now := (\<lambda>n. hours 12)\<rparr>"

theorem token_race_witness:
  "case token_check noon_server ''#t'' token_pg of (c1, db1) \<Rightarrow> case token_check noon_server ''#t'' db1 of (c2, db2) \<Rightarrow>
     case token_mark_used noon_server ''#t'' db2 of (m1, db3) \<Rightarrow> case token_mark_used noon_server ''#t'' db3 of (m2, db4) \<Rightarrow>
       c1 = Inr True \<and> c2 = Inr True \<and> m1 = Inr () \<and> m2 = Inr ()"
  using token_race [of noon_server "''#t''" token_pg "token_row ''#t'' (hours 24)"]
  by (simp add: noon_server_def calm_server_def token_pg_def token_row_def select_one_def hours_def minutes_def seconds_def)

end
