(* ===== verification/Events.thy ===== *)
theory Events
  imports Inventory
begin

text \<open>
  The repositories of executions, metrics and alerts (\<open>apps/server/internal/repository\<close>:
  \<open>execution.go\<close>, \<open>metric.go\<close>, \<open>alert.go\<close>). Executions and metrics are append-only; an alert is
  inserted active and resolved at most once.
\<close>

section \<open>Executions\<close>

record execution_filter =
  ef_host_id :: string
  ef_job_id :: string
  ef_status :: string
  ef_since :: "time option"

text \<open>\<open>jobID\<close> of \<open>Insert\<close>: \<open>None\<close> when the identifier does not parse.\<close>

definition parse_job_ref :: "server_env \<Rightarrow> string option \<Rightarrow> string option option" where
  "parse_job_ref E r =
     (case r of None \<Rightarrow> Some None
      | Some i \<Rightarrow> (case sv_parse_uuid E i of None \<Rightarrow> None | Some u \<Rightarrow> Some (Some u)))"

definition execution_insert :: "server_env \<Rightarrow> execution \<Rightarrow> pg \<Rightarrow> execution repo_result" where
  "execution_insert E e db =
     (case (sv_parse_uuid E (e_host_id e), parse_job_ref E (e_job_id e)) of
        (Some hid, Some jid) \<Rightarrow> stmt E (\<lambda>now u db.
          let new = e\<lparr>e_id := u, e_host_id := hid, e_job_id := jid, e_created_at := now\<rparr>
          in if \<not> execution_row_ok (host_ids db) (job_ids db) new \<or> u \<in> e_id ` set (t_executions db)
             then Inl Constraint
             else Inr (new, db\<lparr>t_executions := t_executions db @ [new]\<rparr>)) db
      | _ \<Rightarrow> (Inl Invalid_Id, db))"

definition default_limit :: "int \<Rightarrow> int \<Rightarrow> int" where
  "default_limit d limit = (if limit \<le> 0 then d else limit)"

definition execution_list :: "server_env \<Rightarrow> int \<Rightarrow> int \<Rightarrow> pg \<Rightarrow> execution list repo_result" where
  "execution_list E limit offset = query E (\<lambda>now db.
     limit_offset (default_limit 50 limit) offset (order_desc e_created_at (t_executions db)))"

definition execution_list_by_job :: "server_env \<Rightarrow> string \<Rightarrow> int \<Rightarrow> pg \<Rightarrow> execution list repo_result" where
  "execution_list_by_job E i limit db =
     (case sv_parse_uuid E i of
        None \<Rightarrow> (Inl Invalid_Id, db)
      | Some jid \<Rightarrow> query E (\<lambda>now db.
          limit_offset (default_limit 20 limit) 0
            (order_desc e_created_at (filter (\<lambda>e. e_job_id e = Some jid) (t_executions db)))) db)"

text \<open>A condition of the filter: \<open>None\<close> when the field is empty and no condition is added.\<close>

definition matches_filter :: "string option \<Rightarrow> string option \<Rightarrow> string \<Rightarrow> time option \<Rightarrow> execution \<Rightarrow> bool" where
  "matches_filter hid jid status since e \<longleftrightarrow>
     (case hid of None \<Rightarrow> True | Some h \<Rightarrow> e_host_id e = h) \<and>
     (case jid of None \<Rightarrow> True | Some j \<Rightarrow> e_job_id e = Some j) \<and>
     (status \<noteq> [] \<longrightarrow> e_status e = status) \<and>
     (case since of None \<Rightarrow> True | Some t \<Rightarrow> t \<le> e_created_at e)"

definition filter_id :: "server_env \<Rightarrow> string \<Rightarrow> string option option" where
  "filter_id E i =
     (if i = [] then Some None
      else (case sv_parse_uuid E i of None \<Rightarrow> None | Some u \<Rightarrow> Some (Some u)))"

definition execution_list_filtered ::
  "server_env \<Rightarrow> execution_filter \<Rightarrow> int \<Rightarrow> int \<Rightarrow> pg \<Rightarrow> execution list repo_result" where
  "execution_list_filtered E f limit offset db =
     (case (filter_id E (ef_host_id f), filter_id E (ef_job_id f)) of
        (Some hid, Some jid) \<Rightarrow> query E (\<lambda>now db.
          limit_offset (default_limit 50 limit) offset
            (order_desc e_created_at
              (filter (matches_filter hid jid (ef_status f) (ef_since f)) (t_executions db)))) db
      | _ \<Rightarrow> (Inl Invalid_Id, db))"

definition recent_failure :: "time \<Rightarrow> string \<Rightarrow> execution \<Rightarrow> bool" where
  "recent_failure now jid e \<longleftrightarrow> e_job_id e = Some jid \<and> e_status e \<in> {''failed'', ''unknown''}
     \<and> now - hours 24 < e_created_at e"

definition count_recent_failures :: "server_env \<Rightarrow> string \<Rightarrow> pg \<Rightarrow> int repo_result" where
  "count_recent_failures E i db =
     (case sv_parse_uuid E i of
        None \<Rightarrow> (Inl Invalid_Id, db)
      | Some jid \<Rightarrow> query E (\<lambda>now db. Inr (int (length (filter (recent_failure now jid) (t_executions db))))) db)"

section \<open>Metrics\<close>

definition metric_insert :: "server_env \<Rightarrow> data_metric \<Rightarrow> pg \<Rightarrow> data_metric repo_result" where
  "metric_insert E m db =
     (case sv_parse_uuid E (m_host_id m) of
        None \<Rightarrow> (Inl Invalid_Id, db)
      | Some hid \<Rightarrow> stmt E (\<lambda>now u db.
          let new = m\<lparr>m_id := u, m_host_id := hid, m_created_at := now\<rparr>
          in if \<not> metric_row_ok (host_ids db) new \<or> u \<in> m_id ` set (t_metrics db) then Inl Constraint
             else Inr (new, db\<lparr>t_metrics := t_metrics db @ [new]\<rparr>)) db)"

definition metric_list :: "server_env \<Rightarrow> int \<Rightarrow> int \<Rightarrow> pg \<Rightarrow> data_metric list repo_result" where
  "metric_list E limit offset = query E (\<lambda>now db.
     limit_offset (default_limit 50 limit) offset (order_desc m_measured_at (t_metrics db)))"

section \<open>Alerts\<close>

definition active_on :: "string \<Rightarrow> string \<Rightarrow> string \<Rightarrow> alert \<Rightarrow> bool" where
  "active_on tt tid rule a \<longleftrightarrow> a_target_type a = tt \<and> a_target_id a = tid \<and> a_rule_name a = rule
     \<and> a_status a = ''active''"

definition alert_insert :: "server_env \<Rightarrow> alert \<Rightarrow> pg \<Rightarrow> alert repo_result" where
  "alert_insert E a db =
     (case sv_parse_uuid E (a_target_id a) of
        None \<Rightarrow> (Inl Invalid_Id, db)
      | Some tid \<Rightarrow> stmt E (\<lambda>now u db.
          let new = \<lparr>a_id = u, a_target_type = a_target_type a, a_target_id = tid, a_rule_name = a_rule_name a,
                     a_severity = a_severity a, a_status = ''active'', a_message = a_message a,
                     a_triggered_at = now, a_resolved_at = None\<rparr>
          in if \<not> alert_row_ok new \<or> u \<in> a_id ` set (t_alerts db) then Inl Constraint
             else Inr (new, db\<lparr>t_alerts := t_alerts db @ [new]\<rparr>)) db)"

text \<open>The result is the alert or nil; \<open>pgx.ErrNoRows\<close> is recognised by the text of the error.\<close>

definition alert_get_active :: "server_env \<Rightarrow> string \<Rightarrow> string \<Rightarrow> string \<Rightarrow> pg \<Rightarrow> alert option repo_result" where
  "alert_get_active E tt i rule db =
     (case sv_parse_uuid E i of
        None \<Rightarrow> (Inl Invalid_Id, db)
      | Some tid \<Rightarrow>
          (case query E (\<lambda>now db. select_one (active_on tt tid rule) (t_alerts db)) db of
             (Inl No_Rows, db) \<Rightarrow> (Inr None, db)
           | (Inl e, db) \<Rightarrow> (Inl e, db)
           | (Inr a, db) \<Rightarrow> (Inr (Some a), db)))"

definition resolve_alert :: "time \<Rightarrow> alert \<Rightarrow> alert" where
  "resolve_alert now a = a\<lparr>a_status := ''resolved'', a_resolved_at := Some now\<rparr>"

definition alert_resolve :: "server_env \<Rightarrow> string \<Rightarrow> string \<Rightarrow> string \<Rightarrow> pg \<Rightarrow> unit repo_result" where
  "alert_resolve E tt i rule db =
     (case sv_parse_uuid E i of
        None \<Rightarrow> (Inl Invalid_Id, db)
      | Some tid \<Rightarrow> stmt E (\<lambda>now u db.
          Inr ((), db\<lparr>t_alerts := update_where (active_on tt tid rule) (resolve_alert now) (t_alerts db)\<rparr>)) db)"

definition alert_list_active :: "server_env \<Rightarrow> pg \<Rightarrow> alert list repo_result" where
  "alert_list_active E = query E (\<lambda>now db.
     Inr (order_desc a_triggered_at (filter (\<lambda>a. a_status a = ''active'') (t_alerts db))))"

definition alert_list :: "server_env \<Rightarrow> int \<Rightarrow> int \<Rightarrow> pg \<Rightarrow> alert list repo_result" where
  "alert_list E limit offset = query E (\<lambda>now db.
     limit_offset (default_limit 50 limit) offset (order_desc a_triggered_at (t_alerts db)))"

definition alert_count_active :: "server_env \<Rightarrow> pg \<Rightarrow> int repo_result" where
  "alert_count_active E = query E (\<lambda>now db.
     Inr (int (length (filter (\<lambda>a. a_status a = ''active'') (t_alerts db)))))"

section \<open>Integrity\<close>

lemma execution_insert_ok: "pg_ok db \<Longrightarrow> pg_ok (snd (execution_insert E e db))"
  unfolding execution_insert_def
  by (auto split: option.splits intro!: stmt_inv [where P = pg_ok])
    (auto simp: Let_def split: if_splits intro!: pg_ok_tables(1) table_ok_insert dest: pg_okD(8))

lemma metric_insert_ok: "pg_ok db \<Longrightarrow> pg_ok (snd (metric_insert E m db))"
  unfolding metric_insert_def
  by (auto split: option.splits intro!: stmt_inv [where P = pg_ok])
    (auto simp: Let_def split: if_splits intro!: pg_ok_tables(2) table_ok_insert dest: pg_okD(9))

lemma alert_insert_ok: "pg_ok db \<Longrightarrow> pg_ok (snd (alert_insert E a db))"
  unfolding alert_insert_def
  by (auto split: option.splits intro!: stmt_inv [where P = pg_ok])
    (auto simp: Let_def split: if_splits intro!: pg_ok_tables(3) table_ok_insert dest: pg_okD(4))

lemma alert_resolve_ok: "pg_ok db \<Longrightarrow> pg_ok (snd (alert_resolve E tt i r db))"
  unfolding alert_resolve_def
  by (auto split: option.splits intro!: stmt_inv [where P = pg_ok] pg_ok_tables(3) table_ok_update
      simp: resolve_alert_def alert_row_ok_def alert_statuses_def dest: pg_okD(4))

lemmas events_ok = execution_insert_ok metric_insert_ok alert_insert_ok alert_resolve_ok

lemma execution_insert_cases:
  assumes "execution_insert E e db = (y, db')"
  shows "(\<exists>err n. y = Inl err \<and> db' = db\<lparr>pg_calls := n\<rparr>) \<or>
     (\<exists>hid jid u now. y = Inr (e\<lparr>e_id := u, e_host_id := hid, e_job_id := jid, e_created_at := now\<rparr>) \<and>
        sv_parse_uuid E (e_host_id e) = Some hid \<and> parse_job_ref E (e_job_id e) = Some jid \<and>
        execution_row_ok (host_ids db) (job_ids db) (e\<lparr>e_id := u, e_host_id := hid, e_job_id := jid, e_created_at := now\<rparr>) \<and>
        db' = bump (db\<lparr>t_executions := t_executions db @ [e\<lparr>e_id := u, e_host_id := hid, e_job_id := jid, e_created_at := now\<rparr>]\<rparr>))"
  using assms unfolding execution_insert_def stmt_def
  by (auto simp: Let_def bump_def split: option.splits if_splits) (metis pg.surjective pg.update_convs(11))+

lemma metric_insert_cases:
  assumes "metric_insert E m db = (y, db')"
  shows "(\<exists>err n. y = Inl err \<and> db' = db\<lparr>pg_calls := n\<rparr>) \<or>
     (\<exists>hid u now. y = Inr (m\<lparr>m_id := u, m_host_id := hid, m_created_at := now\<rparr>) \<and>
        sv_parse_uuid E (m_host_id m) = Some hid \<and>
        db' = bump (db\<lparr>t_metrics := t_metrics db @ [m\<lparr>m_id := u, m_host_id := hid, m_created_at := now\<rparr>]\<rparr>))"
  using assms unfolding metric_insert_def stmt_def
  by (auto simp: Let_def bump_def split: option.splits if_splits) (metis pg.surjective pg.update_convs(11))+

section \<open>Listing\<close>

lemma limit_offset_Inr: "limit_offset l off rs = Inr xs \<Longrightarrow> 0 \<le> l \<and> 0 \<le> off \<and> xs = take (nat l) (drop (nat off) rs)"
  by (auto simp: limit_offset_def split: if_splits)

text \<open>Consecutive pages are consecutive pieces of one list.\<close>

lemma take_pages: "take n (drop k xs) @ take m (drop (k + n) xs) = take (n + m) (drop k xs)"
  by (simp add: take_add add.commute [of k n])

end
