(* ===== verification/Alerting.thy ===== *)
theory Alerting
  imports Events
begin

text \<open>
  The alert evaluator of the server (\<open>apps/server/internal/alerting/evaluator.go\<close>): the two rules
  that the server runs every minute. The locale \<open>alert_store\<close> is what they need of the alert
  repository: reading, inserting and resolving the active alerts of a target and rule.
\<close>

section \<open>Definitions\<close>

definition rule_stale_heartbeat :: string where
  "rule_stale_heartbeat = ''stale_heartbeat''"

definition rule_repeated_failures :: string where
  "rule_repeated_failures = ''repeated_failures''"

definition stale_threshold :: duration where
  "stale_threshold = minutes 5"

definition fail_threshold :: int where
  "fail_threshold = 3"

text \<open>The fields that the caller leaves at their zero values are set by the insertion.\<close>

definition new_alert :: "string \<Rightarrow> string \<Rightarrow> string \<Rightarrow> string \<Rightarrow> alert" where
  "new_alert tt tid rule message = \<lparr>a_id = [], a_target_type = tt, a_target_id = tid, a_rule_name = rule,
     a_severity = ''warning'', a_status = [], a_message = message, a_triggered_at = zero_time, a_resolved_at = None\<rparr>"

definition fire_or_update :: "server_env \<Rightarrow> alert \<Rightarrow> pg \<Rightarrow> pg" where
  "fire_or_update E a db =
     (case alert_get_active E (a_target_type a) (a_target_id a) (a_rule_name a) db of
        (Inl e, db) \<Rightarrow> db
      | (Inr (Some x), db) \<Rightarrow> db
      | (Inr None, db) \<Rightarrow> snd (alert_insert E a db))"

definition is_stale :: "server_env \<Rightarrow> host \<Rightarrow> pg \<Rightarrow> bool \<times> pg" where
  "is_stale E h db =
     (if h_status h = ''stale'' then (True, db)
      else (case h_last_heartbeat_at h of
              None \<Rightarrow> (False, db)
            | Some t \<Rightarrow> (case server_now E db of (now, db) \<Rightarrow> (stale_threshold < time_sub now t, db))))"

definition stale_message :: "server_env \<Rightarrow> host \<Rightarrow> string" where
  "stale_message E h = ''Host '' @ sv_quote E (h_hostname h) @ '' has not sent a heartbeat in over 5m0s''"

definition check_host :: "server_env \<Rightarrow> host \<Rightarrow> pg \<Rightarrow> pg" where
  "check_host E h db =
     (case is_stale E h db of
        (stale, db) \<Rightarrow>
          if stale then fire_or_update E (new_alert ''host'' (h_id h) rule_stale_heartbeat (stale_message E h)) db
          else snd (alert_resolve E ''host'' (h_id h) rule_stale_heartbeat db))"

definition check_stale_heartbeats :: "server_env \<Rightarrow> pg \<Rightarrow> pg" where
  "check_stale_heartbeats E db =
     (case mark_stale_hosts E stale_threshold db of
        (Inl e, db) \<Rightarrow> db
      | (Inr n, db) \<Rightarrow>
          (case host_list E db of
             (Inl e, db) \<Rightarrow> db
           | (Inr hosts, db) \<Rightarrow> fold (check_host E) hosts db))"

definition failures_message :: "server_env \<Rightarrow> job \<Rightarrow> int \<Rightarrow> string" where
  "failures_message E j n = ''Job '' @ sv_quote E (j_normalized_command j) @ '' has had '' @ show_int n
     @ '' failed/unknown executions in the past 24 hours''"

definition check_job :: "server_env \<Rightarrow> job \<Rightarrow> pg \<Rightarrow> pg" where
  "check_job E j db =
     (case count_recent_failures E (j_id j) db of
        (Inl e, db) \<Rightarrow> db
      | (Inr n, db) \<Rightarrow>
          if fail_threshold \<le> n
          then fire_or_update E (new_alert ''job'' (j_id j) rule_repeated_failures (failures_message E j n)) db
          else snd (alert_resolve E ''job'' (j_id j) rule_repeated_failures db))"

definition check_repeated_failures :: "server_env \<Rightarrow> pg \<Rightarrow> pg" where
  "check_repeated_failures E db =
     (case job_list E db of
        (Inl e, db) \<Rightarrow> db
      | (Inr jobs, db) \<Rightarrow> fold (check_job E) jobs db)"

definition run_all_rules :: "server_env \<Rightarrow> pg \<Rightarrow> pg" where
  "run_all_rules E db = check_repeated_failures E (check_stale_heartbeats E db)"

text \<open>The background loop: one evaluation per tick, with whatever else the server did in between.\<close>

fun evaluator_loop :: "server_env \<Rightarrow> (pg \<Rightarrow> pg) list \<Rightarrow> pg \<Rightarrow> pg" where
  "evaluator_loop E [] db = db"
| "evaluator_loop E (f # fs) db = evaluator_loop E fs (run_all_rules E (f db))"

section \<open>The interface\<close>

text \<open>\<open>active c s\<close> counts the active alerts of a target and rule; \<open>canon\<close> is the form of a key that
  the store compares.\<close>

locale alert_store =
  fixes get :: "'k \<Rightarrow> 's \<Rightarrow> (repo_error + 'a option) \<times> 's"
    and ins :: "'a \<Rightarrow> 's \<Rightarrow> (repo_error + 'a) \<times> 's"
    and resolve :: "'k \<Rightarrow> 's \<Rightarrow> (repo_error + unit) \<times> 's"
    and key :: "'a \<Rightarrow> 'k"
    and canon :: "'k \<Rightarrow> 'c"
    and active :: "'c \<Rightarrow> 's \<Rightarrow> nat"
  assumes get_state: "active c (snd (get k s)) = active c s"
    and get_none: "get k s = (Inr None, s') \<Longrightarrow> active (canon k) s = 0"
    and get_some: "get k s = (Inr (Some a), s') \<Longrightarrow> 0 < active (canon k) s"
    and ins_ok: "ins a s = (Inr x, s') \<Longrightarrow> active c s' = active c s + (if c = canon (key a) then 1 else 0)"
    and ins_err: "ins a s = (Inl e, s') \<Longrightarrow> active c s' = active c s"
    and resolve_ok: "resolve k s = (Inr (), s') \<Longrightarrow> active c s' = (if c = canon k then 0 else active c s)"
    and resolve_err: "resolve k s = (Inl e, s') \<Longrightarrow> active c s' = active c s"
begin

lemma ins_other: "c \<noteq> canon (key a) \<Longrightarrow> active c (snd (ins a s)) = active c s"
  using ins_ok [of a s _ _ c] ins_err [of a s _ _ c] by (cases "ins a s"; cases "fst (ins a s)") auto

lemma resolve_other: "c \<noteq> canon k \<Longrightarrow> active c (snd (resolve k s)) = active c s"
  using resolve_ok [of k s _ c] resolve_err [of k s _ _ c] by (cases "resolve k s"; cases "fst (resolve k s)") auto

lemma resolve_le: "active c (snd (resolve k s)) \<le> active c s"
  using resolve_ok [of k s _ c] resolve_err [of k s _ _ c] by (cases "resolve k s"; cases "fst (resolve k s)") auto

text \<open>An alert that is inserted only when none is active.\<close>

abbreviation fire :: "'k \<Rightarrow> 'a \<Rightarrow> 's \<Rightarrow> 's" where
  "fire k a s \<equiv> (case get k s of (Inl e, s) \<Rightarrow> s | (Inr (Some x), s) \<Rightarrow> s | (Inr None, s) \<Rightarrow> snd (ins a s))"

lemma fire_other: "c \<noteq> canon (key a) \<Longrightarrow> active c (fire k a s) = active c s"
  using get_state [of c k s] by (auto simp: ins_other split: prod.splits sum.splits option.splits)

lemma fire_le:
  assumes "key a = k"
  shows "active c (fire k a s) \<le> max 1 (active c s)"
proof (cases "c = canon (key a)")
  case True
  then show ?thesis
    using get_state [of c k s] get_none [of k s] assms
      ins_ok [of a "snd (get k s)" _ _ c] ins_err [of a "snd (get k s)" _ _ c]
    by (cases "ins a (snd (get k s))"; cases "fst (ins a (snd (get k s)))")
      (auto split: prod.splits sum.splits option.splits)
qed (simp add: fire_other)

lemma fire_active:
  assumes "key a = k" and "\<exists>r s'. get k s = (Inr r, s')" and "\<exists>x s'. ins a (snd (get k s)) = (Inr x, s')"
  shows "0 < active (canon k) (fire k a s)"
proof -
  obtain r s1 where g: "get k s = (Inr r, s1)" using assms(2) by blast
  obtain x s2 where i: "ins a s1 = (Inr x, s2)" using assms(3) g by auto
  show ?thesis
    using g i get_some [of k s _ s1] get_state [of "canon k" k s] ins_ok [OF i, of "canon k"] assms(1) by (cases r) auto
qed

end

type_synonym alert_key = "string \<times> string \<times> string"

definition active_count :: "alert_key \<Rightarrow> pg \<Rightarrow> nat" where
  "active_count k db = (case k of (tt, tid, rule) \<Rightarrow> length (filter (active_on tt tid rule) (t_alerts db)))"

definition key_of :: "alert \<Rightarrow> alert_key" where
  "key_of a = (a_target_type a, a_target_id a, a_rule_name a)"

definition get_by_key :: "server_env \<Rightarrow> alert_key \<Rightarrow> pg \<Rightarrow> alert option repo_result" where
  "get_by_key E k = (case k of (tt, i, rule) \<Rightarrow> alert_get_active E tt i rule)"

definition resolve_key :: "server_env \<Rightarrow> alert_key \<Rightarrow> pg \<Rightarrow> unit repo_result" where
  "resolve_key E k = (case k of (tt, i, rule) \<Rightarrow> alert_resolve E tt i rule)"

definition canon_key :: "server_env \<Rightarrow> alert_key \<Rightarrow> alert_key" where
  "canon_key E k = (case k of (tt, i, rule) \<Rightarrow> (tt, parsed_id E i, rule))"

lemma active_count_zero: "active_count (tt, tid, rule) db = 0 \<longleftrightarrow> (\<forall>a \<in> set (t_alerts db). \<not> active_on tt tid rule a)"
  by (simp add: active_count_def filter_empty_conv)

lemma active_count_append:
  "t_alerts db' = t_alerts db @ [a] \<Longrightarrow>
     active_count k db' = active_count k db + (if k = key_of a \<and> a_status a = ''active'' then 1 else 0)"
  by (cases k) (auto simp: active_count_def active_on_def key_of_def)

lemma filter_resolved: "filter (active_on tt tid rule) (update_where (active_on tt' tid' rule') (resolve_alert now) as)
    = (if (tt, tid, rule) = (tt', tid', rule') then [] else filter (active_on tt tid rule) as)"
proof -
  define f where "f a = (if active_on tt' tid' rule' a then resolve_alert now a else a)" for a
  have A: "active_on tt tid rule (f a) \<longleftrightarrow> active_on tt tid rule a \<and> (tt, tid, rule) \<noteq> (tt', tid', rule')" for a
    by (cases "active_on tt' tid' rule' a"; cases "(tt, tid, rule) = (tt', tid', rule')")
      (simp_all add: active_on_def resolve_alert_def f_def, metis+)
  have B: "f a = a" if "active_on tt tid rule a" "(tt, tid, rule) \<noteq> (tt', tid', rule')" for a
    using that by (simp add: active_on_def f_def) metis
  have "filter (active_on tt tid rule) (map f as)
      = (if (tt, tid, rule) = (tt', tid', rule') then [] else filter (active_on tt tid rule) as)"
  proof (cases "(tt, tid, rule) = (tt', tid', rule')")
    case False
    then have "filter (active_on tt tid rule) (map f as) = filter (active_on tt tid rule) as"
      using A B by (induction as) simp_all
    then show ?thesis using False by (simp only: if_False)
  next
    case True
    then have "filter (active_on tt tid rule) (map f as) = []" using A by (simp only: filter_empty_conv set_map) blast
    then show ?thesis using True by simp
  qed
  then show ?thesis by (simp only: update_where_def f_def [abs_def])
qed

lemma active_count_calls [simp]: "active_count k (bump db) = active_count k db" "active_count k (db\<lparr>pg_calls := n\<rparr>) = active_count k db"
  by (cases k; simp add: active_count_def)+

interpretation alerts: alert_store "get_by_key E" "alert_insert E" "resolve_key E" key_of "canon_key E" active_count for E
proof
  fix c and k :: alert_key and s s' :: pg and a x :: alert and e
  obtain tt i rule where k: "k = (tt, i, rule)" by (cases k)
  show "active_count c (snd (get_by_key E k s)) = active_count c s"
    by (auto simp: k get_by_key_def alert_get_active_def query_def stmt_def split: option.splits sum.splits repo_error.splits)
  show "get_by_key E k s = (Inr None, s') \<Longrightarrow> active_count (canon_key E k) s = 0"
    unfolding k canon_key_def get_by_key_def alert_get_active_def query_def stmt_def
    by (auto simp: parsed_id_def active_count_zero dest!: select_one_Inl split: option.splits sum.splits repo_error.splits if_splits)
  show "get_by_key E k s = (Inr (Some a), s') \<Longrightarrow> 0 < active_count (canon_key E k) s"
    unfolding k canon_key_def get_by_key_def alert_get_active_def query_def stmt_def
    by (rule ccontr) (auto simp: parsed_id_def active_count_zero dest!: select_one_Inr split: option.splits sum.splits repo_error.splits if_splits)
  show "alert_insert E a s = (Inr x, s') \<Longrightarrow>
      active_count c s' = active_count c s + (if c = canon_key E (key_of a) then 1 else 0)"
    unfolding alert_insert_def stmt_def
    by (auto simp: Let_def parsed_id_def canon_key_def key_of_def active_count_append split: option.splits if_splits)
  show "alert_insert E a s = (Inl e, s') \<Longrightarrow> active_count c s' = active_count c s"
    unfolding alert_insert_def stmt_def by (auto simp: Let_def split: option.splits if_splits)
  show "resolve_key E k s = (Inr (), s') \<Longrightarrow> active_count c s' = (if c = canon_key E k then 0 else active_count c s)"
    unfolding k resolve_key_def alert_resolve_def stmt_def canon_key_def
    by (cases c) (auto simp: parsed_id_def active_count_def filter_resolved split: option.splits if_splits)
  show "resolve_key E k s = (Inl e, s') \<Longrightarrow> active_count c s' = active_count c s"
    unfolding k resolve_key_def alert_resolve_def stmt_def by (auto split: option.splits if_splits)
qed

section \<open>At most one active alert\<close>

definition alerts_unique :: "pg \<Rightarrow> bool" where
  "alerts_unique db \<longleftrightarrow> (\<forall>k. active_count k db \<le> 1)"

lemma fire_or_update_fire: "fire_or_update E a db = alerts.fire E (key_of a) a db"
  by (simp add: fire_or_update_def get_by_key_def key_of_def)

lemma fire_unique:
  assumes "alerts_unique db"
  shows "alerts_unique (fire_or_update E a db)"
  unfolding alerts_unique_def fire_or_update_fire
proof
  fix k
  have "active_count k (alerts.fire E (key_of a) a db) \<le> max 1 (active_count k db)"
    by (rule alerts.fire_le) (rule refl)
  moreover have "active_count k db \<le> 1" using assms by (simp only: alerts_unique_def)
  ultimately show "active_count k (alerts.fire E (key_of a) a db) \<le> 1" by linarith
qed

lemma resolve_unique: "alerts_unique db \<Longrightarrow> alerts_unique (snd (alert_resolve E tt i rule db))"
  using alerts.resolve_le [of _ E "(tt, i, rule)" db] unfolding alerts_unique_def resolve_key_def prod.case
  by (meson le_trans)

lemma same_alerts: "t_alerts db' = t_alerts db \<Longrightarrow> active_count k db' = active_count k db"
  by (cases k) (simp add: active_count_def)

lemma unique_cong: "t_alerts db' = t_alerts db \<Longrightarrow> alerts_unique db \<Longrightarrow> alerts_unique db'"
  unfolding alerts_unique_def using same_alerts [of db' db] by metis

lemma unique_bump [simp]: "alerts_unique (bump db) = alerts_unique db"
  by (simp add: alerts_unique_def)

lemma is_stale_tables: "t_alerts (snd (is_stale E h db)) = t_alerts db" "t_hosts (snd (is_stale E h db)) = t_hosts db"
  by (auto simp: is_stale_def server_now_def split: option.splits)

lemma query_alerts: "query E f db = (y, db') \<Longrightarrow> db' = bump db"
  using query_db [of E f db] by simp

lemma count_recent_db: "count_recent_failures E i db = (y, db') \<Longrightarrow> t_alerts db' = t_alerts db"
  by (auto simp: count_recent_failures_def dest: query_alerts split: option.splits)

lemma check_host_unique: "alerts_unique db \<Longrightarrow> alerts_unique (check_host E h db)"
  using unique_cong [OF is_stale_tables(1) [of E h db]]
  by (auto simp: check_host_def fire_unique resolve_unique split: prod.splits)

lemma check_job_unique: "alerts_unique db \<Longrightarrow> alerts_unique (check_job E j db)"
  unfolding check_job_def
  by (auto intro!: fire_unique resolve_unique split: prod.splits sum.splits dest!: count_recent_db dest: unique_cong)

lemma mark_stale_alerts: "t_alerts (snd (mark_stale_hosts E d db)) = t_alerts db"
  by (simp add: mark_stale_hosts_def stmt_def)

lemma fold_unique:
  "alerts_unique db \<Longrightarrow> alerts_unique (fold (check_host E) hs db)"
  "alerts_unique db \<Longrightarrow> alerts_unique (fold (check_job E) js db)"
  by (induction hs arbitrary: db, simp_all add: check_host_unique)
    (induction js arbitrary: db, simp_all add: check_job_unique)

lemma stale_unique: "alerts_unique db \<Longrightarrow> alerts_unique (check_stale_heartbeats E db)"
  using unique_cong [OF mark_stale_alerts [of E stale_threshold db]]
  unfolding check_stale_heartbeats_def host_list_def
  by (auto split: prod.splits sum.splits dest!: query_alerts intro!: fold_unique)

lemma run_all_unique: "alerts_unique db \<Longrightarrow> alerts_unique (run_all_rules E db)"
  using stale_unique [of db E]
  unfolding run_all_rules_def check_repeated_failures_def job_list_def
  by (auto split: prod.splits sum.splits dest!: query_alerts intro!: fold_unique)

text \<open>C9. Whatever the server does between its ticks, as long as only the evaluator writes alerts, the
  evaluator never leaves two active alerts for one target and rule, also when its statements fail.\<close>

theorem one_active_alert:
  assumes "alerts_unique db" and "\<forall>f \<in> set fs. \<forall>db. t_alerts (f db) = t_alerts db"
  shows "active_count k (evaluator_loop E fs db) \<le> 1"
proof -
  have "alerts_unique (evaluator_loop E fs db)"
    using assms
  proof (induction E fs db rule: evaluator_loop.induct)
    case (2 E f fs db)
    then show ?case using unique_cong [of "f db" db] run_all_unique [of "f db" E] by simp
  qed simp
  then show ?thesis unfolding alerts_unique_def by blast
qed

section \<open>Alerts follow the state\<close>

text \<open>What a run of the evaluator needs of its surroundings: the database answers, its identifiers are
  fresh and the identifiers stored are in canonical form.\<close>

definition evaluator_ready :: "server_env \<Rightarrow> pg \<Rightarrow> bool" where
  "evaluator_ready E db \<longleftrightarrow> (\<forall>n. sv_up E n) \<and> inj (sv_new_uuid E)
     \<and> (\<forall>n \<ge> pg_calls db. sv_new_uuid E n \<notin> a_id ` set (t_alerts db))
     \<and> (\<forall>i \<in> host_ids db \<union> job_ids db. sv_parse_uuid E i = Some i)"

text \<open>What the rules read stays as it is while they run.\<close>

definition same_inputs :: "pg \<Rightarrow> pg \<Rightarrow> bool" where
  "same_inputs db db' \<longleftrightarrow> t_hosts db' = t_hosts db \<and> t_jobs db' = t_jobs db \<and> t_executions db' = t_executions db"

lemma same_inputs_refl [simp]: "same_inputs db db"
  by (simp add: same_inputs_def)

lemma same_inputs_bump [simp]: "same_inputs db (bump db')= same_inputs db db'" "same_inputs (bump db) db' = same_inputs db db'"
  by (simp_all add: same_inputs_def)

lemma same_inputs_alerts [simp]: "same_inputs db (db'\<lparr>t_alerts := as\<rparr>) = same_inputs db db'"
  by (simp add: same_inputs_def)

lemma same_inputs_ids: "same_inputs db db' \<Longrightarrow> host_ids db' = host_ids db \<and> job_ids db' = job_ids db"
  by (simp add: same_inputs_def host_ids_def job_ids_def)

lemma ready_bump: "evaluator_ready E db \<Longrightarrow> evaluator_ready E (bump db)"
  by (simp add: evaluator_ready_def)

lemma ready_alerts:
  assumes "evaluator_ready E db" and sub: "a_id ` set as \<subseteq> insert (sv_new_uuid E (pg_calls db)) (a_id ` set (t_alerts db))"
  shows "evaluator_ready E (bump (db\<lparr>t_alerts := as\<rparr>))"
proof -
  have old: "n \<ge> pg_calls db \<Longrightarrow> sv_new_uuid E n \<notin> a_id ` set (t_alerts db)" and inj: "inj (sv_new_uuid E)" for n
    using assms(1) unfolding evaluator_ready_def by blast+
  have "sv_new_uuid E n \<notin> a_id ` set as" if n: "n \<ge> Suc (pg_calls db)" for n
  proof
    assume "sv_new_uuid E n \<in> a_id ` set as"
    then have "sv_new_uuid E n = sv_new_uuid E (pg_calls db)" using sub old [of n] n by auto
    then show False using injD [OF inj] n by fastforce
  qed
  then show ?thesis using assms(1) unfolding evaluator_ready_def by auto
qed

lemma ready_get:
  assumes "evaluator_ready E db" and "i \<in> host_ids db \<union> job_ids db"
  shows "\<exists>r. alert_get_active E tt i rule db = (Inr r, bump db)"
proof -
  have "sv_up E (pg_calls db)" "sv_parse_uuid E i = Some i" using assms unfolding evaluator_ready_def by blast+
  then show ?thesis
    using select_one_Inl [of "active_on tt i rule" "t_alerts db"]
    by (cases "select_one (active_on tt i rule) (t_alerts db)") (simp_all add: alert_get_active_def query_def stmt_def)
qed

lemma ready_insert:
  assumes "evaluator_ready E db" and "i \<in> host_ids db \<union> job_ids db" and "tt \<in> set alert_targets"
  shows "\<exists>x db'. alert_insert E (new_alert tt i rule m) db = (Inr x, db') \<and> evaluator_ready E db' \<and> same_inputs db db'"
proof -
  let ?u = "sv_new_uuid E (pg_calls db)" and ?a = "new_alert tt i rule m"
  define new where "new = ?a\<lparr>a_id := ?u, a_status := ''active'', a_triggered_at := sv_db_now E (pg_calls db)\<rparr>"
  have r: "sv_up E (pg_calls db)" "sv_parse_uuid E i = Some i" "?u \<notin> a_id ` set (t_alerts db)"
    using assms(1,2) unfolding evaluator_ready_def by blast+
  have ok: "alert_row_ok new" using assms(3)
    by (simp add: new_def alert_row_ok_def new_alert_def alert_severities_def alert_statuses_def)
  have "alert_insert E ?a db = (Inr new, bump (db\<lparr>t_alerts := t_alerts db @ [new]\<rparr>))"
    using r(1-3) ok by (simp add: alert_insert_def stmt_def new_alert_def new_def Let_def)
  moreover have "evaluator_ready E (bump (db\<lparr>t_alerts := t_alerts db @ [new]\<rparr>))"
    by (rule ready_alerts [OF assms(1)]) (auto simp: new_def)
  ultimately show ?thesis by simp
qed

lemma ready_fire:
  assumes "evaluator_ready E db" and "i \<in> host_ids db \<union> job_ids db" and "tt \<in> set alert_targets"
  shows "0 < active_count (tt, i, rule) (fire_or_update E (new_alert tt i rule m) db)
     \<and> evaluator_ready E (fire_or_update E (new_alert tt i rule m) db)
     \<and> same_inputs db (fire_or_update E (new_alert tt i rule m) db)"
proof -
  let ?a = "new_alert tt i rule m"
  have k: "key_of ?a = (tt, i, rule)" "canon_key E (tt, i, rule) = (tt, i, rule)"
    using assms(1,2) by (auto simp: key_of_def new_alert_def canon_key_def parsed_id_def evaluator_ready_def split: option.split)
  obtain r where g: "alert_get_active E tt i rule db = (Inr r, bump db)" using ready_get [OF assms(1,2)] by blast
  obtain x db' where ins: "alert_insert E ?a (bump db) = (Inr x, db')" "evaluator_ready E db'" "same_inputs db db'"
    using ready_insert [OF ready_bump [OF assms(1)], of i tt rule m] assms(2,3) by auto
  have "0 < active_count (canon_key E (tt, i, rule)) (alerts.fire E (tt, i, rule) ?a db)"
    using g ins(1) k(1) by (intro alerts.fire_active) (simp_all add: get_by_key_def)
  moreover have f: "fire_or_update E ?a db = (case r of None \<Rightarrow> db' | Some _ \<Rightarrow> bump db)"
    using g ins(1) by (auto simp: fire_or_update_def new_alert_def split: option.split)
  ultimately show ?thesis
    using k ins(2,3) ready_bump [OF assms(1)] fire_or_update_fire [of E ?a db]
    by (cases r) simp_all
qed

lemma ready_resolve:
  assumes "evaluator_ready E db" and "i \<in> host_ids db \<union> job_ids db"
  shows "active_count (tt, i, rule) (snd (alert_resolve E tt i rule db)) = 0
     \<and> evaluator_ready E (snd (alert_resolve E tt i rule db)) \<and> same_inputs db (snd (alert_resolve E tt i rule db))"
proof -
  have r: "sv_up E (pg_calls db)" "sv_parse_uuid E i = Some i" using assms unfolding evaluator_ready_def by blast+
  have "a_id ` set (update_where p (resolve_alert now) as) = a_id ` set as" for p now and as :: "alert list"
  proof -
    have "map a_id (update_where p (resolve_alert now) as) = map a_id as"
      by (rule map_update_where) (simp add: resolve_alert_def)
    then show ?thesis by (metis list.set_map)
  qed
  then have "evaluator_ready E (bump (db\<lparr>t_alerts := update_where p (resolve_alert now) (t_alerts db)\<rparr>))" for p now
    by (intro ready_alerts [OF assms(1)]) auto
  then show ?thesis using r by (simp add: alert_resolve_def stmt_def active_count_def filter_resolved)
qed

lemma fire_or_update_other:
  assumes "c \<noteq> (tt, i, rule)" and "sv_parse_uuid E i = Some i"
  shows "active_count c (fire_or_update E (new_alert tt i rule m) db) = active_count c db"
proof -
  have "c \<noteq> canon_key E (key_of (new_alert tt i rule m))"
    using assms by (simp add: canon_key_def key_of_def new_alert_def parsed_id_def)
  then show ?thesis unfolding fire_or_update_fire by (rule alerts.fire_other)
qed

lemma alert_resolve_other:
  assumes "c \<noteq> (tt, i, rule)" and "sv_parse_uuid E i = Some i"
  shows "active_count c (snd (alert_resolve E tt i rule db)) = active_count c db"
  using alerts.resolve_other [of c E "(tt, i, rule)" db] assms by (simp add: resolve_key_def canon_key_def parsed_id_def)

lemma only_target_host: "c \<noteq> (''host'', h_id h, rule_stale_heartbeat) \<Longrightarrow> sv_parse_uuid E (h_id h) = Some (h_id h) \<Longrightarrow>
    active_count c (check_host E h db) = active_count c db"
  using same_alerts [OF is_stale_tables(1) [of E h db], of c]
  by (auto simp: check_host_def fire_or_update_other alert_resolve_other split: prod.split)

lemma ready_is_stale:
  "evaluator_ready E db \<Longrightarrow> evaluator_ready E (snd (is_stale E h db)) \<and> same_inputs db (snd (is_stale E h db))"
  by (auto simp: is_stale_def server_now_def ready_bump split: option.splits)

lemma ready_check_host:
  assumes "evaluator_ready E db" and "h_id h \<in> host_ids db"
  shows "evaluator_ready E (check_host E h db) \<and> same_inputs db (check_host E h db) \<and>
     (0 < active_count (''host'', h_id h, rule_stale_heartbeat) (check_host E h db) \<longleftrightarrow> fst (is_stale E h db))"
proof -
  obtain stale db1 where s: "is_stale E h db = (stale, db1)" by fastforce
  have r: "evaluator_ready E db1" "same_inputs db db1" using ready_is_stale [OF assms(1), of h] s by simp_all
  have i: "h_id h \<in> host_ids db1 \<union> job_ids db1" using assms(2) same_inputs_ids [OF r(2)] by simp
  show ?thesis
    using ready_fire [OF r(1) i, of "''host''" rule_stale_heartbeat "stale_message E h"]
      ready_resolve [OF r(1) i, of "''host''" rule_stale_heartbeat] s r(2)
    by (cases stale) (simp_all add: check_host_def alert_targets_def same_inputs_def)
qed

lemma ready_check_job:
  assumes "evaluator_ready E db" and "j_id j \<in> job_ids db"
  shows "evaluator_ready E (check_job E j db) \<and> same_inputs db (check_job E j db) \<and>
     (0 < active_count (''job'', j_id j, rule_repeated_failures) (check_job E j db) \<longleftrightarrow>
       3 \<le> length (filter (recent_failure (sv_db_now E (pg_calls db)) (j_id j)) (t_executions db)))"
proof -
  let ?n = "length (filter (recent_failure (sv_db_now E (pg_calls db)) (j_id j)) (t_executions db))"
  have u: "sv_up E (pg_calls db)" "sv_parse_uuid E (j_id j) = Some (j_id j)"
    using assms unfolding evaluator_ready_def by blast+
  then have c: "count_recent_failures E (j_id j) db = (Inr (int ?n), bump db)"
    by (simp add: count_recent_failures_def query_def stmt_def)
  have r: "evaluator_ready E (bump db)" by (rule ready_bump [OF assms(1)])
  have i: "j_id j \<in> host_ids (bump db) \<union> job_ids (bump db)" using assms(2) by simp
  show ?thesis
    using ready_fire [OF r i, of "''job''" rule_repeated_failures "failures_message E j (int ?n)"]
      ready_resolve [OF r i, of "''job''" rule_repeated_failures] c
    by (cases "3 \<le> ?n") (simp_all add: check_job_def fail_threshold_def alert_targets_def)
qed

lemma only_target_job: "c \<noteq> (''job'', j_id j, rule_repeated_failures) \<Longrightarrow> sv_parse_uuid E (j_id j) = Some (j_id j) \<Longrightarrow>
    active_count c (check_job E j db) = active_count c db"
  using same_alerts [OF count_recent_db [of E "j_id j" db], of _ _ c]
  by (auto simp: check_job_def fire_or_update_other alert_resolve_other split: prod.split sum.split)

lemma ready_canonical:
  "evaluator_ready E db \<Longrightarrow> i \<in> host_ids db \<or> i \<in> job_ids db \<Longrightarrow> sv_parse_uuid E i = Some i"
  unfolding evaluator_ready_def by blast

lemma marked_hosts:
  assumes "sv_up E (pg_calls db)"
  shows "mark_stale_hosts E d db = (Inr (int (length (filter (is_overdue (sv_db_now E (pg_calls db)) d) (t_hosts db)))),
     bump (db\<lparr>t_hosts := update_where (is_overdue (sv_db_now E (pg_calls db)) d) (h_status_update (\<lambda>_. ''stale'')) (t_hosts db)\<rparr>))"
  using assms by (simp add: mark_stale_hosts_def stmt_def)

text \<open>C17. When the database answers, a run of the heartbeat rule leaves exactly one active alert on every
  host that is stale, that is, marked before or with its last heartbeat more than five minutes ago by
  the clock of the database, and none on any other host whose last heartbeat the server's clock sees
  within five minutes.\<close>

theorem stale_alerts_exact:
  assumes "pg_ok db" and "alerts_unique db" and "evaluator_ready E db" and "h \<in> set (t_hosts db)"
    and "marked \<longleftrightarrow> h_status h = ''stale'' \<or> is_overdue (sv_db_now E (pg_calls db)) stale_threshold h"
    and "n = active_count (''host'', h_id h, rule_stale_heartbeat) (check_stale_heartbeats E db)"
  shows "(marked \<longrightarrow> n = 1) \<and>
     (\<not> marked \<and> (\<forall>k t. h_last_heartbeat_at h = Some t \<longrightarrow> time_sub (sv_now E k) t \<le> stale_threshold) \<longrightarrow> n = 0)"
proof -
  let ?over = "is_overdue (sv_db_now E (pg_calls db)) stale_threshold"
  let ?k = "\<lambda>h. (''host'', h_id h, rule_stale_heartbeat)"
  define h1 where "h1 = (if ?over h then h\<lparr>h_status := ''stale''\<rparr> else h)"
  define db1 where "db1 = bump (db\<lparr>t_hosts := update_where ?over (h_status_update (\<lambda>_. ''stale'')) (t_hosts db)\<rparr>)"
  have up: "sv_up E m" for m using assms(3) by (simp add: evaluator_ready_def)
  have ids: "map h_id (t_hosts db1) = map h_id (t_hosts db)"
    unfolding db1_def bump_sel by (simp add: map_update_where)
  then have ids': "host_ids (bump db1) = host_ids db" "job_ids (bump db1) = job_ids db"
    by (simp_all add: host_ids_def flip: set_map) (simp add: db1_def)
  have ready: "evaluator_ready E (bump db1)" using assms(3) ids' unfolding evaluator_ready_def
    by (auto simp: db1_def)
  have run: "check_stale_heartbeats E db = fold (check_host E) (order_desc h_registered_at (t_hosts db1)) (bump db1)"
    using up by (simp add: check_stale_heartbeats_def marked_hosts host_list_def query_def stmt_def db1_def [symmetric])
  have "distinct (map h_id (t_hosts db))" using pg_okD(1) [OF assms(1)] by (simp add: table_ok_def)
  then have "distinct (map h_id (order_desc h_registered_at (t_hosts db1)))"
    using ids by (metis mset_order_desc mset_map mset_eq_imp_distinct_iff)
  then have d: "distinct (map ?k (order_desc h_registered_at (t_hosts db1)))"
    by (simp add: distinct_map inj_on_def)
  have h1: "h1 \<in> set (order_desc h_registered_at (t_hosts db1))" "h_id h1 = h_id h"
    using assms(4) by (auto simp: h1_def db1_def update_where_def)
  let ?P = "\<lambda>s. evaluator_ready E s \<and> same_inputs (bump db1) s"
  have canon: "sv_parse_uuid E (h_id i) = Some (h_id i)" "h_id i \<in> host_ids s"
    if "i \<in> set (order_desc h_registered_at (t_hosts db1))" "?P s" for i s
    using that ready_canonical [of E s "h_id i"] same_inputs_ids [of "bump db1" s] by (auto simp: host_ids_def same_inputs_def)
  have "\<exists>s'. ?P s' \<and> active_count (?k h1) (fold (check_host E) (order_desc h_registered_at (t_hosts db1)) (bump db1))
      = active_count (?k h1) (check_host E h1 s')"
  proof (rule fold_independent [OF _ _ d h1(1)])
    show "?P (bump db1)" using ready by simp
    fix i s c assume i: "i \<in> set (order_desc h_registered_at (t_hosts db1))"
    then show "c \<noteq> ?k i \<Longrightarrow> active_count c (check_host E i s) = active_count c s"
      using only_target_host canon(1) [OF i, of "bump db1"] ready by simp
    show "?P s \<Longrightarrow> ?P (check_host E i s)"
      using ready_check_host [of E s i] canon(2) [OF i, of s] by (auto simp: same_inputs_def)
  qed
  then obtain s' where s': "?P s'" and eq: "n = active_count (?k h1) (check_host E h1 s')"
    using run assms(6) h1(2) by auto
  have "0 < n \<longleftrightarrow> fst (is_stale E h1 s')"
    using ready_check_host [of E s' h1] s' canon(2) [OF h1(1) s'] eq by simp
  moreover have "n \<le> 1" using stale_unique [OF assms(2), of E] assms(6) unfolding alerts_unique_def by blast
  moreover have "marked \<Longrightarrow> fst (is_stale E h1 s')" using assms(5) by (auto simp: h1_def is_stale_def is_overdue_def)
  moreover have "\<not> marked \<Longrightarrow> \<forall>k t. h_last_heartbeat_at h = Some t \<longrightarrow> time_sub (sv_now E k) t \<le> stale_threshold \<Longrightarrow>
      \<not> fst (is_stale E h1 s')"
    using assms(5) by (auto simp: h1_def is_stale_def server_now_def not_less split: option.splits)
  ultimately show ?thesis by auto
qed

text \<open>C18. When the database answers, a run of the failure rule leaves exactly one active alert on a job
  with three or more failed or unknown executions recorded in the last 24 hours, whenever during the
  run it is counted, and none on a job with fewer.\<close>

theorem failure_alerts_exact:
  assumes "pg_ok db" and "alerts_unique db" and "evaluator_ready E db" and "j \<in> set (t_jobs db)"
    and "\<And>k. fails k = length (filter (recent_failure (sv_db_now E k) (j_id j)) (t_executions db))"
    and "n = active_count (''job'', j_id j, rule_repeated_failures) (check_repeated_failures E db)"
  shows "((\<forall>k. 3 \<le> fails k) \<longrightarrow> n = 1) \<and> ((\<forall>k. fails k < 3) \<longrightarrow> n = 0)"
proof -
  let ?k = "\<lambda>j. (''job'', j_id j, rule_repeated_failures)"
  let ?js = "order_desc j_created_at (t_jobs db)"
  have run: "check_repeated_failures E db = fold (check_job E) ?js (bump db)"
    using assms(3) by (simp add: check_repeated_failures_def job_list_def query_def stmt_def evaluator_ready_def)
  have "distinct (map j_id (t_jobs db))" using pg_okD(7) [OF assms(1)] by (simp add: table_ok_def)
  then have "distinct (map j_id ?js)"
    by (metis mset_order_desc mset_map mset_eq_imp_distinct_iff)
  then have d: "distinct (map ?k ?js)" by (simp add: distinct_map inj_on_def)
  let ?P = "\<lambda>s. evaluator_ready E s \<and> same_inputs (bump db) s"
  have canon: "sv_parse_uuid E (j_id i) = Some (j_id i)" "j_id i \<in> job_ids s"
    if "i \<in> set ?js" "?P s" for i s
    using that ready_canonical [of E s "j_id i"] same_inputs_ids [of "bump db" s] by (auto simp: job_ids_def same_inputs_def)
  have "\<exists>s'. ?P s' \<and> active_count (?k j) (fold (check_job E) ?js (bump db)) = active_count (?k j) (check_job E j s')"
  proof (rule fold_independent [OF _ _ d])
    show "?P (bump db)" using ready_bump [OF assms(3)] by simp
    show "j \<in> set ?js" using assms(4) by simp
    fix i s c assume i: "i \<in> set ?js"
    then show "c \<noteq> ?k i \<Longrightarrow> active_count c (check_job E i s) = active_count c s"
      using only_target_job canon(1) [OF i, of "bump db"] ready_bump [OF assms(3)] by simp
    show "?P s \<Longrightarrow> ?P (check_job E i s)"
      using ready_check_job [of E s i] canon(2) [OF i, of s] by (auto simp: same_inputs_def)
  qed
  then obtain s' where s': "?P s'" and eq: "n = active_count (?k j) (check_job E j s')"
    using run assms(6) by auto
  have "j_id j \<in> job_ids s'" using canon(2) [OF _ s', of j] assms(4) by simp
  then have "0 < n \<longleftrightarrow> 3 \<le> fails (pg_calls s')"
    using ready_check_job [of E s' j] s' eq assms(5) by (simp add: same_inputs_def)
  moreover have "alerts_unique (check_repeated_failures E db)"
    using assms(2) fold_unique(2) run by simp
  then have "n \<le> 1" using assms(6) unfolding alerts_unique_def by blast
  ultimately show ?thesis by (auto simp: not_less dest: spec [of _ "pg_calls s'"])
qed

section \<open>A run\<close>

definition quiet_pg :: pg where
  "quiet_pg = empty_pg\<lparr>t_hosts := [(host_row ''h1'')\<lparr>h_status := ''active'', h_last_heartbeat_at := Some (- hours 1)\<rparr>,
     (host_row ''h2'')\<lparr>h_status := ''active'', h_last_heartbeat_at := Some 0\<rparr>]\<rparr>"

definition noon :: server_env where
  "noon = calm_server\<lparr>sv_now := (\<lambda>n. 0), sv_db_now := (\<lambda>n. 0)\<rparr>"

lemma quiet_pg_ok: "pg_ok quiet_pg" "alerts_unique quiet_pg"
  by (simp_all add: quiet_pg_def pg_ok_def refs_ok_def table_ok_def host_row_def host_statuses_def empty_pg_def
      host_ids_def job_ids_def alerts_unique_def active_count_def)

lemma show_nat_inj: "show_nat m = show_nat n \<Longrightarrow> m = n"
  by (metis digits_value_show)

lemma quiet_ready: "t_alerts db = [] \<Longrightarrow> evaluator_ready noon db"
  by (auto simp: evaluator_ready_def noon_def calm_server_def intro!: injI dest: show_nat_inj)

theorem stale_alerts_exact_witness:
  "active_count (''host'', ''h1'', rule_stale_heartbeat) (check_stale_heartbeats noon quiet_pg) = 1 \<and>
   active_count (''host'', ''h2'', rule_stale_heartbeat) (check_stale_heartbeats noon quiet_pg) = 0"
proof
  have r: "evaluator_ready noon quiet_pg" by (rule quiet_ready) (simp add: quiet_pg_def empty_pg_def)
  show "active_count (''host'', ''h1'', rule_stale_heartbeat) (check_stale_heartbeats noon quiet_pg) = 1"
    using stale_alerts_exact [OF quiet_pg_ok r, of "(host_row ''h1'')\<lparr>h_status := ''active'', h_last_heartbeat_at := Some (- hours 1)\<rparr>" True]
    by (simp add: quiet_pg_def empty_pg_def host_row_def is_overdue_def noon_def stale_threshold_def duration_defs)
  show "active_count (''host'', ''h2'', rule_stale_heartbeat) (check_stale_heartbeats noon quiet_pg) = 0"
    using stale_alerts_exact [OF quiet_pg_ok r, of "(host_row ''h2'')\<lparr>h_status := ''active'', h_last_heartbeat_at := Some 0\<rparr>" False]
    by (simp add: quiet_pg_def empty_pg_def host_row_def is_overdue_def noon_def stale_threshold_def duration_defs time_sub_def)
qed

definition failed_run :: "string \<Rightarrow> time \<Rightarrow> execution" where
  "failed_run i t = \<lparr>e_id = i, e_host_id = ''h1'', e_job_id = Some ''j'', e_scheduled_at = None, e_started_at = None,
     e_finished_at = None, e_duration_seconds = None, e_status = ''failed'', e_confidence = 0, e_sources = [],
     e_output_text = None, e_evidence = None, e_created_at = t\<rparr>"

definition failing_pg :: pg where
  "failing_pg = quiet_pg\<lparr>t_jobs := [job_row ''j'' ''h1'' []],
     t_executions := [failed_run ''e1'' 0, failed_run ''e2'' (- hours 23), failed_run ''e3'' (- hours 1)]\<rparr>"

lemma failing_pg_ok: "pg_ok failing_pg" "alerts_unique failing_pg"
  by (simp_all add: failing_pg_def failed_run_def quiet_pg_def pg_ok_def refs_ok_def table_ok_def host_row_def host_statuses_def
      empty_pg_def host_ids_def job_ids_def alerts_unique_def active_count_def job_row_def job_row_ok_def job_sources_def
      execution_row_ok_def execution_statuses_def)

theorem failure_alerts_exact_witness:
  "active_count (''job'', ''j'', rule_repeated_failures) (check_repeated_failures noon failing_pg) = 1"
proof -
  have r: "evaluator_ready noon failing_pg" by (rule quiet_ready) (simp add: failing_pg_def quiet_pg_def empty_pg_def)
  show ?thesis
    using failure_alerts_exact [OF failing_pg_ok r, of "job_row ''j'' ''h1'' []" "\<lambda>k. 3"]
    by (simp add: failing_pg_def quiet_pg_def empty_pg_def job_row_def recent_failure_def failed_run_def noon_def duration_defs)
qed

theorem one_active_alert_witness:
  "active_count (''host'', ''h1'', rule_stale_heartbeat) (evaluator_loop noon [bump, bump] quiet_pg) \<le> 1"
  by (rule one_active_alert [OF quiet_pg_ok(2)]) simp

end
