(* ===== verification/Services.thy ===== *)
theory Services
  imports Events
begin

text \<open>
  The services of the server (\<open>apps/server/internal/service\<close>): registration, enrollment and
  heartbeats (\<open>agent.go\<close>), remote commands (\<open>command.go\<close>), job discovery (\<open>discovery.go\<close>) and the
  batches of executions (\<open>execution.go\<close>) and metrics (\<open>metric.go\<close>).
\<close>

section \<open>Agents\<close>

definition error_text :: "server_env \<Rightarrow> repo_error \<Rightarrow> string" where
  "error_text E e = (case e of Other_Error s \<Rightarrow> s | _ \<Rightarrow> sv_error_text E e)"

definition wrap_error :: "server_env \<Rightarrow> string \<Rightarrow> repo_error \<Rightarrow> repo_error" where
  "wrap_error E prefix e = Other_Error (prefix @ '': '' @ error_text E e)"

record enrollment_result =
  er_host :: host
  er_agent_token :: string
  er_environment :: string
  er_tags :: "string list"

definition register :: "server_env \<Rightarrow> host \<Rightarrow> pg \<Rightarrow> host repo_result" where
  "register E h db =
     (case host_upsert E h db of
        (Inl e, db) \<Rightarrow> (Inl (wrap_error E ''register host'' e), db)
      | (Inr host, db) \<Rightarrow>
          (case server_now E db of
             (now, db) \<Rightarrow> (Inr host, snd (host_upsert_state E (h_id host) ''active'' (Some now) 0 db))))"

text \<open>32 random bytes in hexadecimal, or the error of the random source.\<close>

definition new_token :: "server_env \<Rightarrow> pg \<Rightarrow> string option \<times> pg" where
  "new_token E db = (sv_random E (pg_calls db), bump db)"

definition default_environment :: "string \<Rightarrow> string" where
  "default_environment v = (if v = [] \<or> v = ''unknown'' then ''production'' else v)"

definition token_required :: repo_error where
  "token_required = Other_Error ''enrollment token is required''"

definition token_invalid :: repo_error where
  "token_invalid = Other_Error ''invalid enrollment token''"

definition consume_enrollment_token :: "server_env \<Rightarrow> string \<Rightarrow> string \<Rightarrow> pg \<Rightarrow> unit repo_result" where
  "consume_enrollment_token E static token db =
     (if token = [] then (Inl token_required, db)
      else (case token_found E (sv_sha_hex E token) db of
              (Inl e, db) \<Rightarrow> (Inl (wrap_error E ''lookup enrollment token'' e), db)
            | (Inr True, db) \<Rightarrow> token_consume E (sv_sha_hex E token) db
            | (Inr False, db) \<Rightarrow> (if token \<noteq> static then Inl token_invalid else Inr (), db)))"

definition token_failure :: repo_error where
  "token_failure = Other_Error ''random source failed''"

definition enroll_agent :: "server_env \<Rightarrow> string \<Rightarrow> string \<Rightarrow> host \<Rightarrow> pg \<Rightarrow> enrollment_result repo_result" where
  "enroll_agent E static token h db =
     (case consume_enrollment_token E static token db of
        (Inl e, db) \<Rightarrow> (Inl e, db)
      | (Inr _, db) \<Rightarrow>
          (case register E h db of
             (Inl e, db) \<Rightarrow> (Inl e, db)
           | (Inr host, db) \<Rightarrow>
               (case new_token E db of
                  (None, db) \<Rightarrow> (Inl (wrap_error E ''generate agent credential'' token_failure), db)
                | (Some t, db) \<Rightarrow>
                    (case credential_upsert E (h_id host) (sv_sha_hex E t) db of
                       (Inl e, db) \<Rightarrow> (Inl (wrap_error E ''store agent credential'' e), db)
                     | (Inr _, db) \<Rightarrow>
                         (Inr \<lparr>er_host = host, er_agent_token = t,
                               er_environment = default_environment (h_environment host),
                               er_tags = h_tags host\<rparr>, db)))))"

definition generate_enrollment_token ::
  "server_env \<Rightarrow> string \<Rightarrow> pg \<Rightarrow> (string \<times> enrollment_token) repo_result" where
  "generate_enrollment_token E label db =
     (case new_token E db of
        (None, db) \<Rightarrow> (Inl (wrap_error E ''generate enrollment token'' token_failure), db)
      | (Some t, db) \<Rightarrow>
          (case server_now E db of
             (now, db) \<Rightarrow>
               (case token_create E (sv_sha_hex E t) label (now + hours 24) db of
                  (Inl e, db) \<Rightarrow> (Inl e, db)
                | (Inr record, db) \<Rightarrow> (Inr (t, record), db))))"

definition list_enrollment_tokens :: "server_env \<Rightarrow> pg \<Rightarrow> enrollment_token list repo_result" where
  "list_enrollment_tokens E = token_list E"

definition agent_heartbeat :: "server_env \<Rightarrow> string \<Rightarrow> string \<Rightarrow> pg \<Rightarrow> unit repo_result" where
  "agent_heartbeat E i ip db =
     (case host_update_heartbeat E i ip db of
        (Inl e, db) \<Rightarrow> (Inl (wrap_error E ''heartbeat update'' e), db)
      | (Inr _, db) \<Rightarrow>
          (case server_now E db of (now, db) \<Rightarrow> host_upsert_state E i ''active'' (Some now) 0 db))"

definition validate_credential :: "server_env \<Rightarrow> string \<Rightarrow> string \<Rightarrow> pg \<Rightarrow> bool \<times> pg" where
  "validate_credential E i token db =
     (case credential_validate E i (sv_sha_hex E token) db of
        (Inl e, db) \<Rightarrow> (False, db)
      | (Inr ok, db) \<Rightarrow> (ok, db))"

section \<open>Commands\<close>

definition run_request :: "string \<Rightarrow> job \<Rightarrow> agent_command" where
  "run_request host_id j = \<lparr>c_id = [], c_host_id = host_id, c_job_id = j_id j, c_command_hash = j_command_hash j,
     c_raw_command = j_raw_command j, c_schedule = j_schedule j, c_status = ''pending'',
     c_message = ''queued by server'', c_exit_code = None, c_requested_at = zero_time, c_dispatched_at = None,
     c_started_at = None, c_finished_at = None\<rparr>"

definition foreign_job :: "string \<Rightarrow> string \<Rightarrow> repo_error" where
  "foreign_job jid hid = Other_Error (''job '' @ jid @ '' does not belong to host '' @ hid)"

fun enqueue_loop ::
  "server_env \<Rightarrow> string \<Rightarrow> string list \<Rightarrow> agent_command list \<Rightarrow> pg \<Rightarrow> agent_command list repo_result" where
  "enqueue_loop E host_id [] result db = (Inr result, db)"
| "enqueue_loop E host_id (jid # jids) result db =
     (case job_get_by_id E jid db of
        (Inl e, db) \<Rightarrow> (Inl (wrap_error E (''get job '' @ jid) e), db)
      | (Inr j, db) \<Rightarrow>
          if j_host_id j \<noteq> host_id then (Inl (foreign_job jid host_id), db)
          else (case command_insert E (run_request host_id j) db of
                  (Inl e, db) \<Rightarrow> (Inl e, db)
                | (Inr c, db) \<Rightarrow> enqueue_loop E host_id jids (result @ [c]) db))"

definition enqueue_runs :: "server_env \<Rightarrow> string \<Rightarrow> string list \<Rightarrow> pg \<Rightarrow> agent_command list repo_result" where
  "enqueue_runs E host_id jids = enqueue_loop E host_id jids []"

definition complete_command ::
  "server_env \<Rightarrow> string \<Rightarrow> string \<Rightarrow> string \<Rightarrow> time option \<Rightarrow> time option \<Rightarrow> int option \<Rightarrow> pg \<Rightarrow> unit repo_result" where
  "complete_command E i status message started finished code db =
     (if status \<noteq> ''success'' \<and> status \<noteq> ''failed''
      then (Inl (Other_Error (''invalid command status '' @ sv_quote E status)), db)
      else command_complete E i status message started finished code db)"

section \<open>Discovery\<close>

fun discovery_loop :: "server_env \<Rightarrow> string \<Rightarrow> job list \<Rightarrow> job list \<Rightarrow> pg \<Rightarrow> job list \<times> pg" where
  "discovery_loop E host_id [] result db = (result, db)"
| "discovery_loop E host_id (j # js) result db =
     (case job_upsert E (j\<lparr>j_host_id := host_id\<rparr>) db of
        (Inl e, db) \<Rightarrow> discovery_loop E host_id js result db
      | (Inr saved, db) \<Rightarrow> discovery_loop E host_id js (result @ [saved]) db)"

definition process_discovery :: "server_env \<Rightarrow> string \<Rightarrow> job list \<Rightarrow> pg \<Rightarrow> job list \<times> pg" where
  "process_discovery E host_id discovered = discovery_loop E host_id discovered []"

definition get_job :: "server_env \<Rightarrow> string \<Rightarrow> pg \<Rightarrow> job repo_result" where
  "get_job E i db =
     (case job_get_by_id E i db of
        (Inl e, db) \<Rightarrow> (Inl (wrap_error E (''get job '' @ sv_quote E i) e), db)
      | (Inr j, db) \<Rightarrow> (Inr j, db))"

section \<open>Executions and metrics\<close>

definition command_hash_from_evidence :: "json option \<Rightarrow> string" where
  "command_hash_from_evidence raw =
     (case raw of
        None \<Rightarrow> []
      | Some j \<Rightarrow> (case json_field j ''command_hash'' of Some (JStr h) \<Rightarrow> h | _ \<Rightarrow> []))"

definition last_run_at :: "execution \<Rightarrow> time option" where
  "last_run_at e = (case e_started_at e of Some t \<Rightarrow> Some t | None \<Rightarrow> e_scheduled_at e)"

definition update_job_state :: "server_env \<Rightarrow> execution \<Rightarrow> pg \<Rightarrow> unit repo_result" where
  "update_job_state E e db =
     (case e_job_id e of
        None \<Rightarrow> (Inr (), db)
      | Some jid \<Rightarrow>
          (case count_recent_failures E jid db of
             (Inl err, db) \<Rightarrow> (Inl (wrap_error E ''count failures'' err), db)
           | (Inr n, db) \<Rightarrow> job_upsert_state E jid (e_host_id e) (e_status e) (last_run_at e) None n db))"

definition link_job :: "server_env \<Rightarrow> string \<Rightarrow> execution \<Rightarrow> pg \<Rightarrow> execution \<times> pg" where
  "link_job E host_id e db =
     (let h = command_hash_from_evidence (e_evidence e) in
      if e_job_id e = None \<and> h \<noteq> []
      then (case job_get_by_host_and_hash E host_id h db of
              (Inl err, db) \<Rightarrow> (e, db)
            | (Inr j, db) \<Rightarrow> (e\<lparr>e_job_id := Some (j_id j)\<rparr>, db))
      else (e, db))"

fun execution_loop :: "server_env \<Rightarrow> string \<Rightarrow> execution list \<Rightarrow> execution list \<Rightarrow> pg \<Rightarrow> execution list \<times> pg" where
  "execution_loop E host_id [] result db = (result, db)"
| "execution_loop E host_id (e # es) result db =
     (case link_job E host_id (e\<lparr>e_host_id := host_id\<rparr>) db of
        (e, db) \<Rightarrow>
          (case execution_insert E e db of
             (Inl err, db) \<Rightarrow> execution_loop E host_id es result db
           | (Inr saved, db) \<Rightarrow>
               execution_loop E host_id es (result @ [saved])
                 (if e_job_id saved = None then db else snd (update_job_state E saved db))))"

definition execution_batch :: "server_env \<Rightarrow> string \<Rightarrow> execution list \<Rightarrow> pg \<Rightarrow> execution list \<times> pg" where
  "execution_batch E host_id events = execution_loop E host_id events []"

fun metric_loop :: "server_env \<Rightarrow> string \<Rightarrow> data_metric list \<Rightarrow> data_metric list \<Rightarrow> pg \<Rightarrow> data_metric list \<times> pg" where
  "metric_loop E host_id [] result db = (result, db)"
| "metric_loop E host_id (m # ms) result db =
     (case metric_insert E (m\<lparr>m_host_id := host_id\<rparr>) db of
        (Inl err, db) \<Rightarrow> metric_loop E host_id ms result db
      | (Inr saved, db) \<Rightarrow> metric_loop E host_id ms (result @ [saved]) db)"

definition metric_batch :: "server_env \<Rightarrow> string \<Rightarrow> data_metric list \<Rightarrow> pg \<Rightarrow> data_metric list \<times> pg" where
  "metric_batch E host_id metrics = metric_loop E host_id metrics []"

section \<open>Integrity\<close>

text \<open>The queries the services make leave the tables alone.\<close>

lemma query_bumps:
  "job_get_by_id E i db = (y, db') \<Longrightarrow> \<exists>n. db' = db\<lparr>pg_calls := n\<rparr>"
  "job_get_by_host_and_hash E i h db = (y', db') \<Longrightarrow> \<exists>n. db' = db\<lparr>pg_calls := n\<rparr>"
  "count_recent_failures E i db = (z, db') \<Longrightarrow> \<exists>n. db' = db\<lparr>pg_calls := n\<rparr>"
  "token_found E h db = (b, db') \<Longrightarrow> \<exists>n. db' = db\<lparr>pg_calls := n\<rparr>"
  "credential_validate E i h db = (b, db') \<Longrightarrow> \<exists>n. db' = db\<lparr>pg_calls := n\<rparr>"
  "server_now E db = (t, db') \<Longrightarrow> \<exists>n. db' = db\<lparr>pg_calls := n\<rparr>"
  "new_token E db = (t', db') \<Longrightarrow> \<exists>n. db' = db\<lparr>pg_calls := n\<rparr>"
proof -
  have same: "\<exists>n. db = db\<lparr>pg_calls := n\<rparr>" by (rule exI [of _ "pg_calls db"]) simp
  have q: "query E f db = (x, db') \<Longrightarrow> \<exists>n. db' = db\<lparr>pg_calls := n\<rparr>" for f and x :: "repo_error + 'z"
    using query_db [of E f db] by (auto simp: bump_def)
  show "job_get_by_id E i db = (y, db') \<Longrightarrow> \<exists>n. db' = db\<lparr>pg_calls := n\<rparr>"
    using same by (auto simp: job_get_by_id_def query_def stmt_def bump_def split: option.splits sum.splits if_splits)
  show "job_get_by_host_and_hash E i h db = (y', db') \<Longrightarrow> \<exists>n. db' = db\<lparr>pg_calls := n\<rparr>"
    using same by (auto simp: job_get_by_host_and_hash_def query_def stmt_def bump_def split: option.splits sum.splits if_splits)
  show "count_recent_failures E i db = (z, db') \<Longrightarrow> \<exists>n. db' = db\<lparr>pg_calls := n\<rparr>"
    using same by (auto simp: count_recent_failures_def query_def stmt_def bump_def split: option.splits sum.splits if_splits)
  show "token_found E h db = (b, db') \<Longrightarrow> \<exists>n. db' = db\<lparr>pg_calls := n\<rparr>"
    by (auto simp: token_found_def query_def stmt_def bump_def split: if_splits)
  show "credential_validate E i h db = (b, db') \<Longrightarrow> \<exists>n. db' = db\<lparr>pg_calls := n\<rparr>"
    by (auto simp: credential_validate_def query_def stmt_def bump_def split: if_splits option.splits)
  show "server_now E db = (t, db') \<Longrightarrow> \<exists>n. db' = db\<lparr>pg_calls := n\<rparr>"
    "new_token E db = (t', db') \<Longrightarrow> \<exists>n. db' = db\<lparr>pg_calls := n\<rparr>"
    by (auto simp: server_now_def new_token_def bump_def)
qed

lemma ok_after:
  "f db = (x, db') \<Longrightarrow> pg_ok (snd (f db)) \<Longrightarrow> pg_ok db'"
  by simp

lemma register_ok: "pg_ok db \<Longrightarrow> pg_ok (snd (register E h db))"
  using host_upsert_ok [of db E h]
  by (auto simp: register_def server_now_def host_upsert_state_ok split: prod.splits sum.splits)

lemma consume_enrollment_token_ok: "pg_ok db \<Longrightarrow> pg_ok (snd (consume_enrollment_token E st t db))"
  unfolding consume_enrollment_token_def
  by (auto dest!: query_bumps(4) intro!: token_consume_ok split: prod.splits sum.splits bool.splits)

lemma new_token_ok [simp]: "pg_ok (snd (new_token E db)) = pg_ok db"
  by (simp add: new_token_def)

lemma enroll_agent_ok: "pg_ok db \<Longrightarrow> pg_ok (snd (enroll_agent E st t h db))"
  using consume_enrollment_token_ok [of db E st t]
  unfolding enroll_agent_def
  by (auto dest!: query_bumps(7) split: prod.split sum.split option.split)
    (metis ok_after register_ok credential_upsert_ok pg_ok_calls)+

lemma generate_token_ok: "pg_ok db \<Longrightarrow> pg_ok (snd (generate_enrollment_token E l db))"
  unfolding generate_enrollment_token_def server_now_def new_token_def
  by (auto simp: token_create_ok split: prod.split sum.split option.split) (metis ok_after token_create_ok pg_ok_bump)+

lemma agent_heartbeat_ok: "pg_ok db \<Longrightarrow> pg_ok (snd (agent_heartbeat E i ip db))"
  using host_update_heartbeat_ok [of db E i ip]
  by (auto simp: agent_heartbeat_def server_now_def host_upsert_state_ok split: prod.splits sum.splits)

lemma enqueue_loop_ok: "pg_ok db \<Longrightarrow> pg_ok (snd (enqueue_loop E h js res db))"
proof (induction E h js res db rule: enqueue_loop.induct)
  case (2 E h jid jids res db)
  obtain y db1 where g: "job_get_by_id E jid db = (y, db1)" by fastforce
  have ok: "pg_ok db1" using query_bumps(1) [OF g] "2.prems" by auto
  show ?case
  proof (cases y)
    case (Inr j)
    obtain z db2 where i: "command_insert E (run_request h j) db1 = (z, db2)" by fastforce
    have "pg_ok db2" using command_insert_ok [OF ok, of E "run_request h j"] i by simp
    then show ?thesis using 2 g i ok Inr by (auto split: sum.split)
  qed (use g ok in simp)
qed simp

lemma complete_command_ok: "pg_ok db \<Longrightarrow> pg_ok (snd (complete_command E i st m s f c db))"
  by (simp add: complete_command_def command_complete_ok)

section \<open>Discovery\<close>

text \<open>The loop is a sequence of saves of the job table.\<close>

lemma discovery_loop_fold:
  "snd (discovery_loop E h js res db) =
     fold (\<lambda>j db. snd (job_upsert E j db)) (map (\<lambda>j. j\<lparr>j_host_id := h\<rparr>) js) db"
  by (induction js arbitrary: res db) (auto split: prod.split sum.split)

lemma process_discovery_ok: "pg_ok db \<Longrightarrow> pg_ok (snd (process_discovery E h js db))"
  unfolding process_discovery_def discovery_loop_fold by (rule jobs.inv_fold)

definition same_job :: "job \<Rightarrow> job \<Rightarrow> bool" where
  "same_job r r' \<longleftrightarrow> j_id r' = j_id r \<and> j_host_id r' = j_host_id r \<and> j_command_hash r' = j_command_hash r
     \<and> j_created_at r' = j_created_at r \<and> j_source_type r' = j_source_type r"

lemma discovery_keeps:
  assumes "job_of k db = Some r"
  shows "\<exists>r'. job_of k (snd (process_discovery E h js db)) = Some r' \<and> same_job r r'
     \<and> (k \<notin> (\<lambda>j. (parsed_id E h, j_command_hash j)) ` set js \<longrightarrow> r' = r)"
proof (cases "k \<in> (\<lambda>j. (parsed_id E h, j_command_hash j)) ` set js")
  case True
  have "\<exists>r'. job_of k (snd (process_discovery E h js db)) = Some r' \<and> same_job r r'"
    unfolding process_discovery_def discovery_loop_fold
    by (rule jobs.fold_keeps [OF _ assms])
      (auto simp: job_fits_def same_job_def refresh_job_def split: option.splits dest: arg_cong [where f = j_id]
        arg_cong [where f = j_host_id] arg_cong [where f = j_command_hash] arg_cong [where f = j_created_at]
        arg_cong [where f = j_source_type])
  then show ?thesis using True by blast
next
  case False
  then have "job_of k (snd (process_discovery E h js db)) = job_of k db"
    unfolding process_discovery_def discovery_loop_fold by (intro jobs.fold_other) auto
  then show ?thesis using assms by (simp add: same_job_def)
qed

text \<open>C22. Discovery never loses or renames a job: a job that the host reports again keeps its identifier,
  its creation time and its source type, and a job that is no longer in the crontab stays as it was,
  enabled or not.\<close>

theorem discovery_keeps_jobs:
  assumes "job_of k db = Some r"
  shows "\<exists>r'. job_of k (snd (process_discovery E h js db)) = Some r' \<and> same_job r r'
     \<and> (k \<notin> (\<lambda>j. (parsed_id E h, j_command_hash j)) ` set js \<longrightarrow> r' = r)"
  using assms by (rule discovery_keeps)

lemma job_upsert_saved:
  assumes "job_upsert E j db = (Inr s, db')"
  shows "job_of (parsed_id E (j_host_id j), j_command_hash j) db' = Some s \<and> j_schedule s = j_schedule j
     \<and> j_raw_command s = j_raw_command j \<and> j_enabled s = j_enabled j
     \<and> job_key s = (parsed_id E (j_host_id j), j_command_hash j)"
proof -
  obtain now u hid where up: "upsert_row job_key (refresh_job now j) (new_job now u hid j) (t_jobs db) = (s, t_jobs db')"
    and hid: "sv_parse_uuid E (j_host_id j) = Some hid"
    using job_upsert_cases [OF assms] by auto
  have row: "job_of (parsed_id E (j_host_id j), j_command_hash j) db' = Some s"
    using job_of_upsert(1) [OF up hid, of "(parsed_id E (j_host_id j), j_command_hash j)"] by simp
  then have "job_key s = (parsed_id E (j_host_id j), j_command_hash j)"
    by (auto simp: job_of_def find_Some_iff)
  moreover have "j_schedule s = j_schedule j \<and> j_raw_command s = j_raw_command j \<and> j_enabled s = j_enabled j"
    using upsert_row_find(2) [OF up] by (auto simp: refresh_job_def new_job_def job_key_def split: option.splits)
  ultimately show ?thesis using row by blast
qed

lemma discovery_loop_saved:
  "s \<in> set (fst (discovery_loop E h js res db)) \<Longrightarrow> s \<in> set res \<or>
     ((\<exists>j \<in> set js. job_key s = (parsed_id E h, j_command_hash j) \<and> j_schedule s = j_schedule j
        \<and> j_raw_command s = j_raw_command j \<and> j_enabled s = j_enabled j)
      \<and> (\<exists>r. job_of (job_key s) (snd (discovery_loop E h js res db)) = Some r \<and> same_job s r))"
proof (induction E h js res db rule: discovery_loop.induct)
  case (2 E h j js res db)
  let ?j = "j\<lparr>j_host_id := h\<rparr>"
  obtain y db1 where u: "job_upsert E ?j db = (y, db1)" by fastforce
  show ?case
  proof (cases y)
    case (Inr saved)
    note sv = job_upsert_saved [OF u [unfolded Inr]]
    consider "s \<in> set res" | "s = saved" | "s \<notin> set (res @ [saved])" by auto
    then show ?thesis
    proof cases
      case 2
      have key: "job_key saved = (parsed_id E h, j_command_hash j)" using sv by simp
      have "\<exists>r. job_of (job_key saved) (snd (discovery_loop E h js (res @ [saved]) db1)) = Some r \<and> same_job saved r"
        using discovery_keeps [of "job_key saved" db1 saved E h js] sv key
        by (auto simp: process_discovery_def discovery_loop_fold)
      then show ?thesis using 2 sv u Inr by auto
    qed (use 2 u Inr in auto)
  qed (use 2 u in auto)
qed simp

text \<open>Every job that discovery reports as saved is one the agent sent, stored under the host and the
  hash of its command with the schedule and command it was sent with, and is in the table afterwards.\<close>

theorem discovery_saves:
  assumes "s \<in> set (fst (process_discovery E h js db))"
  shows "(\<exists>j \<in> set js. job_key s = (parsed_id E h, j_command_hash j) \<and> j_schedule s = j_schedule j
        \<and> j_raw_command s = j_raw_command j \<and> j_enabled s = j_enabled j)
      \<and> (\<exists>r. job_of (job_key s) (snd (process_discovery E h js db)) = Some r \<and> same_job s r)"
  using assms discovery_loop_saved [of s E h js "[]" db] unfolding process_discovery_def by simp

definition crontab_pg :: pg where
  "crontab_pg = empty_pg\<lparr>t_hosts := [host_row ''h''], t_jobs := [job_row ''j'' ''h'' ''old'', job_row ''k'' ''h'' ''new'']\<rparr>"

definition reported :: job where
  "reported = (job_row [] [] ''new'')\<lparr>j_schedule := ''@daily'', j_source_type := ''manual'', j_raw_command := ''run''\<rparr>"

lemmas run_job = process_discovery_def crontab_pg_def reported_def job_upsert_def job_of_def job_key_def new_job_def
  refresh_job_def job_row_def host_row_def host_ids_def job_ids_def job_sources_def

theorem discovery_keeps_jobs_witness:
  "job_of (''h'', ''old'') (snd (process_discovery calm_server ''h'' [reported] crontab_pg)) = Some (job_row ''j'' ''h'' ''old'')
   \<and> (\<exists>r. job_of (''h'', ''new'') (snd (process_discovery calm_server ''h'' [reported] crontab_pg)) = Some r \<and> j_id r = ''k'')"
proof -
  have "job_of (''h'', ''old'') crontab_pg = Some (job_row ''j'' ''h'' ''old'')"
    "job_of (''h'', ''new'') crontab_pg = Some (job_row ''k'' ''h'' ''new'')"
    by (simp_all add: crontab_pg_def job_of_def job_key_def job_row_def)
  from this [THEN discovery_keeps_jobs, where E = calm_server and h = "''h''" and js = "[reported]"]
  show ?thesis by (auto simp: parsed_id_def calm_server_def same_job_def reported_def job_row_def)
qed

theorem discovery_saves_witness:
  "\<exists>s. fst (process_discovery calm_server ''h'' [reported] crontab_pg) = [s] \<and> j_schedule s = ''@daily''
     \<and> j_source_type s = ''cron'' \<and> job_key s = (''h'', ''new'')"
proof -
  have "\<exists>s. fst (process_discovery calm_server ''h'' [reported] crontab_pg) = [s] \<and> j_source_type s = ''cron''"
    by (simp add: run_job run_repo)
  then obtain s where s: "fst (process_discovery calm_server ''h'' [reported] crontab_pg) = [s]" "j_source_type s = ''cron''"
    by blast
  with discovery_saves [of s calm_server "''h''" "[reported]" crontab_pg]
  show ?thesis by (auto simp: parsed_id_def calm_server_def reported_def job_row_def)
qed

section \<open>Batches\<close>

text \<open>A batch appends to its table and leaves hosts and jobs alone.\<close>

lemma link_job_pg:
  assumes "link_job E h e db = (e', db')"
  shows "\<exists>n. db' = db\<lparr>pg_calls := n\<rparr>" and "\<exists>j. e' = e\<lparr>e_job_id := j\<rparr>"
proof -
  have "\<exists>n. db = db\<lparr>pg_calls := n\<rparr>" "\<exists>j. e = e\<lparr>e_job_id := j\<rparr>"
    by (rule exI [of _ "pg_calls db"], simp) (rule exI [of _ "e_job_id e"], simp)
  then show "\<exists>n. db' = db\<lparr>pg_calls := n\<rparr>" "\<exists>j. e' = e\<lparr>e_job_id := j\<rparr>"
    using assms by (auto simp: link_job_def Let_def dest: query_bumps(2) split: prod.splits sum.splits if_splits)
qed

lemma job_state_tables:
  assumes "update_job_state E e db = (y, db')"
  shows "t_executions db' = t_executions db" "t_jobs db' = t_jobs db" "t_hosts db' = t_hosts db"
  using assms unfolding update_job_state_def
  by (auto dest!: query_bumps(3) simp: job_upsert_state_def stmt_def Let_def
      split: option.splits prod.splits sum.splits if_splits)

definition execution_step :: "server_env \<Rightarrow> string \<Rightarrow> execution \<Rightarrow> pg \<Rightarrow> execution list \<times> pg" where
  "execution_step E h e db =
     (case link_job E h (e\<lparr>e_host_id := h\<rparr>) db of
        (e, db) \<Rightarrow>
          (case execution_insert E e db of
             (Inl err, db) \<Rightarrow> ([], db)
           | (Inr saved, db) \<Rightarrow> ([saved], if e_job_id saved = None then db else snd (update_job_state E saved db))))"

lemma execution_loop_step:
  "execution_loop E h (e # es) res db =
     (case execution_step E h e db of (new, db) \<Rightarrow> execution_loop E h es (res @ new) db)"
  by (simp add: execution_step_def split: prod.split sum.split)

lemma execution_step_appends:
  assumes "execution_step E h e db = (new, db')"
  shows "t_executions db' = t_executions db @ new \<and> length new \<le> 1 \<and> t_jobs db' = t_jobs db \<and> t_hosts db' = t_hosts db
    \<and> (\<forall>s \<in> set new. sv_parse_uuid E h = Some (e_host_id s) \<and> execution_row_ok (host_ids db) (job_ids db) s)"
proof -
  obtain e1 db1 where l: "link_job E h (e\<lparr>e_host_id := h\<rparr>) db = (e1, db1)" by fastforce
  obtain n where n: "db1 = db\<lparr>pg_calls := n\<rparr>" using link_job_pg(1) [OF l] by blast
  have h: "e_host_id e1 = h" using link_job_pg(2) [OF l] by auto
  obtain y db2 where i: "execution_insert E e1 db1 = (y, db2)" by fastforce
  show ?thesis
  proof (cases y)
    case (Inl err)
    then obtain m where "db2 = db1\<lparr>pg_calls := m\<rparr>" using execution_insert_cases [OF i] by auto
    then show ?thesis using assms l i n Inl by (auto simp: execution_step_def)
  next
    case (Inr s)
    have s: "t_executions db2 = t_executions db @ [s]" "t_jobs db2 = t_jobs db" "t_hosts db2 = t_hosts db"
      "sv_parse_uuid E h = Some (e_host_id s)" "execution_row_ok (host_ids db) (job_ids db) s"
      using execution_insert_cases [OF i] n Inr h by (auto simp: host_ids_def job_ids_def)
    then show ?thesis
      using assms l i Inr job_state_tables [of E s db2] by (auto simp: execution_step_def split: if_splits)
        (metis prod.collapse)+
  qed
qed

lemma execution_loop_appends:
  "\<exists>saved. fst (execution_loop E h es res db) = res @ saved
     \<and> t_executions (snd (execution_loop E h es res db)) = t_executions db @ saved \<and> length saved \<le> length es
     \<and> (\<forall>s \<in> set saved. sv_parse_uuid E h = Some (e_host_id s) \<and> execution_row_ok (host_ids db) (job_ids db) s)"
proof (induction es arbitrary: res db)
  case (Cons e es)
  obtain new db1 where st: "execution_step E h e db = (new, db1)" by fastforce
  note a = execution_step_appends [OF st]
  then have ids: "host_ids db1 = host_ids db" "job_ids db1 = job_ids db" by (auto simp: host_ids_def job_ids_def)
  obtain saved where "fst (execution_loop E h es (res @ new) db1) = (res @ new) @ saved
     \<and> t_executions (snd (execution_loop E h es (res @ new) db1)) = t_executions db1 @ saved \<and> length saved \<le> length es
     \<and> (\<forall>s \<in> set saved. sv_parse_uuid E h = Some (e_host_id s) \<and> execution_row_ok (host_ids db1) (job_ids db1) s)"
    using Cons.IH by blast
  then show ?case
    using a ids by (intro exI [of _ "new @ saved"]) (auto simp: execution_loop_step st simp del: execution_loop.simps)
qed simp

end
