(* ===== verification/Intake.thy ===== *)
theory Intake
  imports Services
begin

text \<open>
  What the services of the server promise for the three requests that feed the inventory: queueing
  commands, enrolling an agent and reporting a batch of executions.
\<close>

section \<open>Queueing commands\<close>

lemma select_one_in: "query E (\<lambda>now db. select_one p (f db)) db = (Inr r, db') \<Longrightarrow> r \<in> set (f db) \<and> p r"
  unfolding query_def stmt_def by (auto split: if_splits sum.splits dest: select_one_Inr)

lemma job_get_by_id_row: "job_get_by_id E i db = (Inr j, db') \<Longrightarrow> j \<in> set (t_jobs db)"
  unfolding job_get_by_id_def by (auto split: option.splits dest: select_one_in [where f = t_jobs])

text \<open>A command that asks for a run of a job: pending, with the command line of the job.\<close>

definition runs_job :: "string \<Rightarrow> job \<Rightarrow> agent_command \<Rightarrow> bool" where
  "runs_job hid j c \<longleftrightarrow> c_host_id c = hid \<and> c_status c = ''pending'' \<and> c_command_hash c = j_command_hash j
     \<and> c_raw_command c = j_raw_command j \<and> c_schedule c = j_schedule j \<and> c_exit_code c = None
     \<and> c_dispatched_at c = None"

lemma command_insert_appends:
  assumes "command_insert E (run_request h j) db = (y, db')"
  shows "(\<exists>e. y = Inl e \<and> t_commands db' = t_commands db) \<or>
    (\<exists>c hid. y = Inr c \<and> sv_pg_uuid E h = Some hid \<and> runs_job hid j c \<and> t_commands db' = t_commands db @ [c])"
    and "t_jobs db' = t_jobs db"
  using assms unfolding command_insert_def stmt_def
  by (auto simp: Let_def runs_job_def run_request_def split: if_splits option.splits)

lemma enqueue_loop_appends:
  "\<exists>new. t_commands (snd (enqueue_loop E h jids res db)) = t_commands db @ new
     \<and> (\<forall>c \<in> set new. \<exists>hid. sv_pg_uuid E h = Some hid \<and> (\<exists>j \<in> set (t_jobs db). j_host_id j = h \<and> runs_job hid j c))
     \<and> (\<forall>cs. fst (enqueue_loop E h jids res db) = Inr cs \<longrightarrow> cs = res @ new \<and> length new = length jids)"
proof (induction jids arbitrary: res db)
  case (Cons jid jids)
  obtain y db1 where g: "job_get_by_id E jid db = (y, db1)" by fastforce
  obtain n where n: "db1 = db\<lparr>pg_calls := n\<rparr>" using query_bumps(1) [OF g] by blast
  show ?case
  proof (cases y)
    case (Inr j)
    have j: "j \<in> set (t_jobs db)" using job_get_by_id_row g Inr by blast
    obtain z db2 where i: "command_insert E (run_request h j) db1 = (z, db2)" by fastforce
    note a = command_insert_appends [OF i]
    show ?thesis
    proof (cases "j_host_id j = h \<and> (\<exists>c. z = Inr c)")
      case True
      then obtain c where z: "z = Inr c" by blast
      obtain hid where c: "sv_pg_uuid E h = Some hid" "runs_job hid j c" "t_commands db2 = t_commands db @ [c]"
        using a(1) z n by auto
      obtain new where new: "t_commands (snd (enqueue_loop E h jids (res @ [c]) db2)) = t_commands db2 @ new"
        "\<forall>c \<in> set new. \<exists>hid. sv_pg_uuid E h = Some hid \<and> (\<exists>j \<in> set (t_jobs db2). j_host_id j = h \<and> runs_job hid j c)"
        "\<forall>cs. fst (enqueue_loop E h jids (res @ [c]) db2) = Inr cs \<longrightarrow> cs = (res @ [c]) @ new \<and> length new = length jids"
        using Cons.IH [of "res @ [c]" db2] by blast
      show ?thesis
        using True z g Inr i c j new a(2) n by (intro exI [of _ "c # new"]) auto
    next
      case False
      then show ?thesis using g Inr i a n
        by (intro exI [of _ "[]"]) (auto split: sum.split)
    qed
  qed (use g n in auto)
qed simp



section \<open>Enrolling an agent\<close>

lemma credential_validate_of:
  assumes "pg_ok db" and "sv_up E (pg_calls db)" and "sv_pg_uuid E i = Some hid"
  shows "validate_credential E i t db = (map_option cr_token_hash (credential_of hid db) = Some (sv_sha_hex E t), bump db)"
proof -
  have d: "distinct (map cr_host_id (t_credentials db))" using pg_okD(13) [OF assms(1)] by (simp add: table_ok_def)
  have "(length (filter (\<lambda>c. cr_host_id c = hid \<and> cr_token_hash c = h) cs) = 1)
      = (map_option cr_token_hash (List.find (\<lambda>c. cr_host_id c = hid) cs) = Some h)"
    if "distinct (map cr_host_id cs)" for h cs
    using that
  proof (induction cs)
    case (Cons c cs)
    show ?case
    proof (cases "cr_host_id c = hid")
      case True
      then have "filter (\<lambda>c. cr_host_id c = hid \<and> cr_token_hash c = h) cs = []"
        using Cons.prems by (auto simp: filter_empty_conv image_iff)
      then show ?thesis using True by simp
    qed (use Cons in simp)
  qed simp
  from this [OF d] show ?thesis
    using assms(2,3) by (simp add: validate_credential_def credential_validate_def query_def stmt_def credential_of_def)
qed

lemma credential_saved:
  assumes "credential_upsert E i h db = (Inr (), db')"
  shows "\<exists>hid r. sv_pg_uuid E i = Some hid \<and> credential_of hid db' = Some r \<and> cr_token_hash r = h"
proof -
  have "sv_pg_uuid E i \<noteq> None" using credential_upsert_cases [OF assms] by auto
  moreover have "credential_save E (i, h) db = (Inr (), db')" using assms by (simp add: credential_save_def)
  from credentials.save_ok [OF this] obtain r where "credential_of (pg_id E i) db' = Some r" "cr_token_hash r = h"
    by (auto simp: credential_fits_def)
  ultimately show ?thesis by (auto simp: pg_id_def)
qed

lemma enroll_agent_cases:
  assumes "enroll_agent E st t h db = (Inr r, db')"
  obtains db1 db2 db3 where "consume_enrollment_token E st t db = (Inr (), db1)"
    and "register E h db1 = (Inr (er_host r), db2)" and "new_token E db2 = (Some (er_agent_token r), db3)"
    and "credential_upsert E (h_id (er_host r)) (sv_sha_hex E (er_agent_token r)) db3 = (Inr (), db')"
  using assms unfolding enroll_agent_def by (auto split: prod.splits sum.splits option.splits)

lemma enroll_authenticates:
  assumes "pg_ok db" and "enroll_agent E st t h db = (Inr r, db')" and "sv_up E (pg_calls db')"
  shows "fst (validate_credential E (h_id (er_host r)) token db')
      \<longleftrightarrow> sv_sha_hex E token = sv_sha_hex E (er_agent_token r)"
proof -
  obtain db3 where c: "credential_upsert E (h_id (er_host r)) (sv_sha_hex E (er_agent_token r)) db3 = (Inr (), db')"
    using assms(2) by (rule enroll_agent_cases)
  obtain hid cr where "sv_pg_uuid E (h_id (er_host r)) = Some hid" "credential_of hid db' = Some cr"
    "cr_token_hash cr = sv_sha_hex E (er_agent_token r)"
    using credential_saved [OF c] by blast
  moreover have "pg_ok db'" using enroll_agent_ok [OF assms(1), of E st t h] assms(2) by simp
  ultimately show ?thesis using assms(3) by (auto simp: credential_validate_of)
qed


lemma result_by_value: "map_sum (\<lambda>e. ()) g (fst x) = Inr v \<Longrightarrow> \<exists>r db'. x = (Inr r, db') \<and> g r = v"
  by (cases x; cases "fst x") auto

lemma enroll_sample:
  "\<exists>r db'. enroll_agent calm_server ''s'' ''s'' (host_row ''m'') empty_pg = (Inr r, db') \<and> er_agent_token r = ''r4''"
  by (rule result_by_value) code_simp


section \<open>Reporting executions\<close>

definition job_state_of :: "string \<Rightarrow> pg \<Rightarrow> current_job_state option" where
  "job_state_of i db = List.find (\<lambda>s. js_job_id s = i) (t_job_states db)"


lemma job_of_row:
  assumes "pg_ok db" and "job_of k db = Some j"
  shows "job_key j = k" and "j_host_id j \<in> host_ids db" and "j_id j \<in> job_ids db"
proof -
  have "job_key j = k" "j \<in> set (t_jobs db)" using assms(2) by (auto simp: job_of_def find_Some_iff)
  then show "job_key j = k" "j_host_id j \<in> host_ids db" "j_id j \<in> job_ids db"
    using pg_okD(7) [OF assms(1)] by (auto simp: table_ok_def job_row_ok_def job_ids_def)
qed

lemma link_job_linked:
  assumes "sv_up E (pg_calls db)" and "sv_parse_uuid E h = Some h" and "job_of (h, c) db = Some j"
    and "e_job_id e = None" and "command_hash_from_evidence (e_evidence e) = c" and "c \<noteq> []"
  shows "link_job E h e db = (e\<lparr>e_job_id := Some (j_id j)\<rparr>, bump db)"
  using assms by (simp add: link_job_def job_get_by_host_and_hash_def query_def stmt_def select_one_def job_of_def)

lemma execution_insert_saved:
  assumes "sv_up E (pg_calls db)" and "sv_parse_uuid E (e_host_id e) = Some hid" and "parse_job_ref E (e_job_id e) = Some jid"
    and "execution_row_ok (host_ids db) (job_ids db) (e\<lparr>e_host_id := hid, e_job_id := jid\<rparr>)"
    and "sv_new_uuid E (pg_calls db) \<notin> e_id ` set (t_executions db)"
  shows "\<exists>s. execution_insert E e db = (Inr s, bump (db\<lparr>t_executions := t_executions db @ [s]\<rparr>))
     \<and> e_host_id s = hid \<and> e_job_id s = jid \<and> e_status s = e_status e \<and> last_run_at s = last_run_at e"
  using assms by (simp add: execution_insert_def stmt_def Let_def execution_row_ok_def last_run_at_def cong: option.case_cong)

lemma update_job_state_saved:
  assumes "\<And>n. sv_up E n" and "e_job_id e = Some jid" and "sv_parse_uuid E jid = Some jid"
    and "sv_parse_uuid E (e_host_id e) = Some (e_host_id e)" and "jid \<in> job_ids db" and "e_host_id e \<in> host_ids db"
  shows "\<exists>db' st. update_job_state E e db = (Inr (), db') \<and> t_executions db' = t_executions db
     \<and> job_state_of jid db' = Some st \<and> js_last_status st = e_status e \<and> js_last_run_at st = last_run_at e
     \<and> js_consecutive_fail st = int (length (filter (recent_failure (sv_db_now E (pg_calls db)) jid) (t_executions db)))"
  using assms
  by (simp add: update_job_state_def count_recent_failures_def job_upsert_state_def query_def stmt_def Let_def
      job_state_of_def find_upsert_row fst_upsert_row split: option.split)


definition reported_run :: execution where
  "reported_run = \<lparr>e_id = [], e_host_id = [], e_job_id = None, e_scheduled_at = None, e_started_at = Some 5,
     e_finished_at = None, e_duration_seconds = None, e_status = ''failed'', e_confidence = 1, e_sources = [],
     e_output_text = None, e_evidence = Some (JObj [(''command_hash'', JStr ''new'')]), e_created_at = 0\<rparr>"

lemma crontab_pg_ok: "pg_ok crontab_pg"
  by (simp add: crontab_pg_def sample_rows pg_ok_def refs_ok_def table_ok_def empty_pg_def host_ids_def
      job_row_ok_def host_statuses_def job_sources_def job_key_def)

lemma crontab_job: "job_of (''h'', ''new'') crontab_pg = Some (job_row ''k'' ''h'' ''new'')"
  by (simp add: crontab_pg_def job_of_def job_key_def job_row_def)



end
