(* ===== verification/Stats.thy ===== *)
theory Stats
  imports Services
begin

text \<open>
  The aggregate queries over execution history (\<open>apps/server/internal/repository/stats.go\<close>): counts
  in a window, time buckets, rates per job and host, and the failure episodes of the jobs, which the code
  finds with window functions and the model compares with maximal runs of failures. Rows that the order
  of a query leaves tied come in the order of their insertion.
\<close>

lemma shorter_dropWhile [termination_simp]: "length (dropWhile P xs) < Suc (length xs)"
  by (simp add: less_Suc_eq_le length_dropWhile_le)

section \<open>Windows and groups\<close>

record window_stats =
  ws_window :: string
  ws_since :: json
  ws_total :: int
  ws_success :: int
  ws_failed :: int
  ws_partial :: int
  ws_unknown :: int
  ws_missed :: int
  ws_success_rate :: real

record trend_point =
  tp_bucket :: time
  tp_total :: int
  tp_success :: int
  tp_failed :: int
  tp_unknown :: int

record job_success_rate =
  jr_job_id :: string
  jr_host_id :: string
  jr_total :: int
  jr_success :: int
  jr_failed :: int
  jr_success_rate :: real
  jr_consecutive_fail :: int
  jr_last_run_at :: "time option"

record host_failure_count =
  hf_host_id :: string
  hf_total :: int
  hf_failed :: int
  hf_failure_rate :: real

definition count_where :: "('r \<Rightarrow> bool) \<Rightarrow> 'r list \<Rightarrow> int" where
  "count_where p rs = int (length (filter p rs))"

text \<open>\<open>GROUP BY f\<close>: every value of \<open>f\<close> with its rows.\<close>

definition group_by :: "('r \<Rightarrow> 'k) \<Rightarrow> 'r list \<Rightarrow> ('k \<times> 'r list) list" where
  "group_by f rs = map (\<lambda>k. (k, filter (\<lambda>r. f r = k) rs)) (remdups (map f rs))"

definition has_status :: "string list \<Rightarrow> execution \<Rightarrow> bool" where
  "has_status ss e \<longleftrightarrow> e_status e \<in> set ss"

definition finished_since :: "time \<Rightarrow> execution \<Rightarrow> bool" where
  "finished_since since e \<longleftrightarrow> since \<le> e_created_at e \<and> e_status e \<noteq> ''running''"

definition percent :: "int \<Rightarrow> int \<Rightarrow> real" where
  "percent part whole = (if whole > 0 then real_of_int part / real_of_int whole * 100 else 0)"

definition wrap_result :: "server_env \<Rightarrow> string \<Rightarrow> 'a repo_result \<Rightarrow> 'a repo_result" where
  "wrap_result E prefix r = (case r of (Inl e, db) \<Rightarrow> (Inl (wrap_error E prefix e), db) | (Inr x, db) \<Rightarrow> (Inr x, db))"

definition window_counts :: "time \<Rightarrow> string \<Rightarrow> execution list \<Rightarrow> window_stats" where
  "window_counts since label es =
     (let rs = filter (finished_since since) es;
          total = count_where (\<lambda>e. True) rs;
          success = count_where (has_status [''success'']) rs
      in \<lparr>ws_window = label, ws_since = rfc3339 since, ws_total = total, ws_success = success,
          ws_failed = count_where (has_status [''failed'']) rs,
          ws_partial = count_where (has_status [''partial'']) rs,
          ws_unknown = count_where (has_status [''unknown'']) rs,
          ws_missed = count_where (has_status [''missed'']) rs,
          ws_success_rate = percent success total\<rparr>)"

definition get_window_stats :: "server_env \<Rightarrow> time \<Rightarrow> string \<Rightarrow> pg \<Rightarrow> window_stats repo_result" where
  "get_window_stats E since label db =
     wrap_result E ''window stats'' (query E (\<lambda>now db. Inr (window_counts since label (t_executions db))) db)"

text \<open>The start of the bucket of a time, \<open>floor(epoch / w) * w\<close> seconds.\<close>

definition bucket_start :: "int \<Rightarrow> time \<Rightarrow> time" where
  "bucket_start w t = t div seconds w * seconds w"

definition trend_points :: "time \<Rightarrow> int \<Rightarrow> execution list \<Rightarrow> trend_point list" where
  "trend_points since w es =
     map (\<lambda>(b, rs). \<lparr>tp_bucket = b, tp_total = count_where (\<lambda>e. True) rs,
                     tp_success = count_where (has_status [''success'']) rs,
                     tp_failed = count_where (has_status [''failed'']) rs,
                     tp_unknown = count_where (has_status [''unknown'', ''partial'']) rs\<rparr>)
       (sort_key fst (group_by (\<lambda>e. bucket_start w (e_created_at e)) (filter (finished_since since) es)))"

text \<open>A bucket width of zero divides by zero as soon as there is a row.\<close>

definition get_failure_trend :: "server_env \<Rightarrow> time \<Rightarrow> int \<Rightarrow> pg \<Rightarrow> trend_point list repo_result" where
  "get_failure_trend E since w db =
     wrap_result E ''failure trend'' (query E (\<lambda>now db.
       if w = 0 \<and> filter (finished_since since) (t_executions db) \<noteq> [] then Inl Db_Error
       else Inr (trend_points since w (t_executions db))) db)"

definition failures_first :: "('a \<Rightarrow> int) \<Rightarrow> ('a \<Rightarrow> int) \<Rightarrow> 'a list \<Rightarrow> 'a list" where
  "failures_first failed whole xs = sort_key (\<lambda>x. - failed x) (sort_key (\<lambda>x. - whole x) xs)"

definition job_rate :: "pg \<Rightarrow> job \<Rightarrow> execution list \<Rightarrow> job_success_rate" where
  "job_rate db j rs =
     (let total = count_where (\<lambda>e. True) rs;
          success = count_where (has_status [''success'']) rs
      in \<lparr>jr_job_id = j_id j, jr_host_id = j_host_id j, jr_total = total, jr_success = success,
          jr_failed = count_where (has_status [''failed'']) rs, jr_success_rate = percent success total,
          jr_consecutive_fail = (case List.find (\<lambda>s. js_job_id s = j_id j) (t_job_states db) of
                                   None \<Rightarrow> 0 | Some s \<Rightarrow> js_consecutive_fail s),
          jr_last_run_at = (case map e_created_at rs of [] \<Rightarrow> None | t # ts \<Rightarrow> Some (fold max ts t))\<rparr>)"

definition job_rates :: "time \<Rightarrow> pg \<Rightarrow> job_success_rate list" where
  "job_rates since db =
     failures_first jr_failed jr_total
       (concat (map (\<lambda>(jid, rs). map (\<lambda>j. job_rate db j rs) (filter (\<lambda>j. Some (j_id j) = jid) (t_jobs db)))
         (group_by e_job_id (filter (\<lambda>e. finished_since since e \<and> e_job_id e \<noteq> None) (t_executions db)))))"

definition get_job_success_rates :: "server_env \<Rightarrow> time \<Rightarrow> pg \<Rightarrow> job_success_rate list repo_result" where
  "get_job_success_rates E since db =
     wrap_result E ''job success rates'' (query E (\<lambda>now db. Inr (job_rates since db)) db)"

definition host_counts :: "time \<Rightarrow> execution list \<Rightarrow> host_failure_count list" where
  "host_counts since es =
     failures_first hf_failed hf_total
       (map (\<lambda>(hid, rs).
           let total = count_where (\<lambda>e. True) rs;
               failed = count_where (has_status [''failed'']) rs
           in \<lparr>hf_host_id = hid, hf_total = total, hf_failed = failed, hf_failure_rate = percent failed total\<rparr>)
         (group_by e_host_id (filter (finished_since since) es)))"

definition get_host_failure_counts :: "server_env \<Rightarrow> time \<Rightarrow> pg \<Rightarrow> host_failure_count list repo_result" where
  "get_host_failure_counts E since db =
     wrap_result E ''host failure counts'' (query E (\<lambda>now db. Inr (host_counts since (t_executions db))) db)"

section \<open>Failure episodes\<close>

record recovery_episode =
  ep_start :: time
  ep_end :: time
  ep_failure_count :: int
  ep_recovered_at :: "time option"
  ep_recovery_seconds :: "real option"

record job_recovery_summary =
  rs_job_id :: string
  rs_host_id :: string
  rs_is_currently_failing :: bool
  rs_current_episode_since :: "time option"
  rs_current_episode_fails :: int
  rs_last_recovered_at :: "time option"
  rs_avg_recovery_seconds :: "real option"
  rs_episodes :: "recovery_episode list"

definition is_bad :: "execution \<Rightarrow> bool" where
  "is_bad e \<longleftrightarrow> has_status [''failed'', ''unknown'', ''missed''] e"

text \<open>\<open>ordered_execs\<close> of one job: its executions with their number among all of them (\<open>rn\<close>) and among
  those of their class (\<open>type_rn\<close>).\<close>

fun number_rows :: "int \<Rightarrow> int \<Rightarrow> int \<Rightarrow> execution list \<Rightarrow> (execution \<times> int \<times> int) list" where
  "number_rows rn bad good [] = []"
| "number_rows rn bad good (e # es) =
     (if is_bad e then (e, rn + 1, bad + 1) # number_rows (rn + 1) (bad + 1) good es
      else (e, rn + 1, good + 1) # number_rows (rn + 1) bad (good + 1) es)"

definition ordered_execs :: "execution list \<Rightarrow> (execution \<times> int \<times> int) list" where
  "ordered_execs = number_rows 0 0 0"

text \<open>\<open>islands\<close> and \<open>failure_islands\<close>: the bad rows with \<open>rn - type_rn\<close>, grouped by it.\<close>

definition islands :: "execution list \<Rightarrow> (execution \<times> int) list" where
  "islands es = map (\<lambda>(e, rn, type_rn). (e, rn - type_rn)) (filter (\<lambda>(e, _). is_bad e) (ordered_execs es))"

definition island_row :: "execution list \<Rightarrow> time \<times> time \<times> int" where
  "island_row es = (Min (set (map e_created_at es)), Max (set (map e_created_at es)), int (length es))"

definition failure_islands :: "execution list \<Rightarrow> (time \<times> time \<times> int) list" where
  "failure_islands es = map (\<lambda>(_, rs). island_row (map fst rs)) (group_by snd (islands es))"

text \<open>\<open>recovery\<close>: the first success after the end of the island, and no more than one row for a start.\<close>

definition recovered_at :: "execution list \<Rightarrow> time \<Rightarrow> time option" where
  "recovered_at es t =
     (case sort_key e_created_at (filter (\<lambda>e. t < e_created_at e \<and> has_status [''success''] e) es) of
        [] \<Rightarrow> None | e # _ \<Rightarrow> Some (e_created_at e))"

definition recovery_row :: "execution list \<Rightarrow> time \<times> time \<times> int \<Rightarrow> recovery_episode" where
  "recovery_row es r =
     (case r of (start, till, n) \<Rightarrow>
        let rec = recovered_at es till
        in \<lparr>ep_start = start, ep_end = till, ep_failure_count = n, ep_recovered_at = rec,
            ep_recovery_seconds = map_option (\<lambda>t. real_of_int (t - start) / 1000000000) rec\<rparr>)"

text \<open>\<open>DISTINCT ON\<close> keeps the first row of every start in the order of the recovery, null last.\<close>

fun first_of_start :: "recovery_episode list \<Rightarrow> recovery_episode list" where
  "first_of_start [] = []"
| "first_of_start (r # rs) = r # first_of_start (dropWhile (\<lambda>s. ep_start s = ep_start r) rs)"

definition nulls_last :: "recovery_episode list \<Rightarrow> recovery_episode list" where
  "nulls_last rs = sort_key (\<lambda>r. the (ep_recovered_at r)) (filter (\<lambda>r. ep_recovered_at r \<noteq> None) rs)
     @ filter (\<lambda>r. ep_recovered_at r = None) rs"

definition recovery :: "execution list \<Rightarrow> recovery_episode list" where
  "recovery es =
     first_of_start (sort_key ep_start (nulls_last
       (map (recovery_row es) (failure_islands (sort_key e_created_at es)))))"

definition job_executions :: "pg \<Rightarrow> job \<Rightarrow> execution list" where
  "job_executions db j = filter (\<lambda>e. e_job_id e = Some (j_id j)) (t_executions db)"

definition recovery_rows :: "pg \<Rightarrow> (string \<times> string \<times> recovery_episode) list" where
  "recovery_rows db =
     concat (map (\<lambda>j. map (\<lambda>ep. (j_id j, j_host_id j, ep)) (rev (recovery (job_executions db j))))
       (sort_key j_id (t_jobs db)))"

fun add_episode :: "string \<times> string \<times> recovery_episode \<Rightarrow> job_recovery_summary list \<Rightarrow> job_recovery_summary list" where
  "add_episode (jid, hid, ep) [] =
     [\<lparr>rs_job_id = jid, rs_host_id = hid, rs_is_currently_failing = False, rs_current_episode_since = None,
       rs_current_episode_fails = 0, rs_last_recovered_at = None, rs_avg_recovery_seconds = None, rs_episodes = [ep]\<rparr>]"
| "add_episode (jid, hid, ep) (s # ss) =
     (if rs_job_id s = jid then s\<lparr>rs_episodes := rs_episodes s @ [ep]\<rparr> # ss
      else s # add_episode (jid, hid, ep) ss)"

definition recovery_seconds :: "job_recovery_summary \<Rightarrow> real list" where
  "recovery_seconds s = map the (filter (\<lambda>x. x \<noteq> None) (map ep_recovery_seconds (rs_episodes s)))"

definition current_episode :: "job_recovery_summary \<Rightarrow> job_recovery_summary" where
  "current_episode s =
     (case rs_episodes s of
        [] \<Rightarrow> s
      | latest # _ \<Rightarrow>
          (case ep_recovered_at latest of
             None \<Rightarrow> s\<lparr>rs_is_currently_failing := True, rs_current_episode_since := Some (ep_start latest),
                       rs_current_episode_fails := ep_failure_count latest\<rparr>
           | Some t \<Rightarrow> s\<lparr>rs_last_recovered_at := Some t\<rparr>))"

definition average_recovery :: "job_recovery_summary \<Rightarrow> job_recovery_summary" where
  "average_recovery s =
     (let ts = recovery_seconds s
      in if ts = [] then s else s\<lparr>rs_avg_recovery_seconds := Some (fold (\<lambda>x acc. acc + x) ts 0 / real (length ts))\<rparr>)"

definition recovery_summaries :: "(string \<times> string \<times> recovery_episode) list \<Rightarrow> job_recovery_summary list" where
  "recovery_summaries rows = map (average_recovery \<circ> current_episode) (fold add_episode rows [])"

definition get_job_recovery_stats :: "server_env \<Rightarrow> pg \<Rightarrow> job_recovery_summary list repo_result" where
  "get_job_recovery_stats E db =
     wrap_result E ''job recovery stats'' (query E (\<lambda>now db. Inr (recovery_summaries (recovery_rows db))) db)"

section \<open>Episodes are maximal runs\<close>

text \<open>The reference: the maximal runs of bad executions, found by scanning.\<close>

fun bad_runs :: "execution list \<Rightarrow> execution list list" where
  "bad_runs [] = []"
| "bad_runs (e # es) =
     (if is_bad e then (e # takeWhile is_bad es) # bad_runs (dropWhile is_bad es) else bad_runs es)"

fun tag_runs :: "int \<Rightarrow> execution list \<Rightarrow> (execution \<times> int) list" where
  "tag_runs good [] = []"
| "tag_runs good (e # es) = (if is_bad e then (e, good) # tag_runs good es else tag_runs (good + 1) es)"

lemma islands_tag_runs:
  "map (\<lambda>(e, rn, type_rn). (e, rn - type_rn)) (filter (\<lambda>(e, _). is_bad e) (number_rows (bad + good) bad good es))
     = tag_runs good es"
proof (induction es arbitrary: bad good)
  case (Cons e es)
  have "number_rows (bad + good + 1) (bad + 1) good es = number_rows ((bad + 1) + good) (bad + 1) good es"
    "number_rows (bad + good + 1) bad (good + 1) es = number_rows (bad + (good + 1)) bad (good + 1) es"
    by (simp_all add: algebra_simps)
  then show ?case by (simp add: Cons.IH)
qed simp

lemma islands_eq: "islands es = tag_runs 0 es"
  using islands_tag_runs [of 0 0 es] by (simp add: islands_def ordered_execs_def)

lemma tag_runs_from: "p \<in> set (tag_runs good es) \<Longrightarrow> good \<le> snd p"
  by (induction good es rule: tag_runs.induct) (auto split: if_splits)

lemma tag_runs_bad: "tag_runs good es = map (\<lambda>e. (e, good)) (takeWhile is_bad es) @ tag_runs good (dropWhile is_bad es)"
  by (induction es) auto

lemma tag_runs_after: "p \<in> set (tag_runs good (dropWhile is_bad es)) \<Longrightarrow> good < snd p"
proof (induction es)
  case (Cons e es)
  then show ?case using tag_runs_from [of p "good + 1" es] by (auto split: if_splits)
qed simp

lemma group_by_append:
  assumes "xs \<noteq> []" and "\<And>x. x \<in> set xs \<Longrightarrow> f x = k" and "\<And>y. y \<in> set ys \<Longrightarrow> f y \<noteq> k"
  shows "group_by f (xs @ ys) = (k, xs) # group_by f ys"
proof -
  have k: "remdups (map f xs @ zs) = k # remdups zs" if "k \<notin> set zs" for zs
    using assms(1,2) that
  proof (induction xs)
    case (Cons x xs)
    then show ?case by (cases xs) auto
  qed simp
  have "k \<notin> set (map f ys)" using assms(3) by auto
  moreover have "filter (\<lambda>r. f r = k) xs = xs" "filter (\<lambda>r. f r = k) ys = []"
    using assms(2,3) by (auto simp: filter_empty_conv intro: filter_True)
  moreover have "filter (\<lambda>r. f r = f y) xs = []" if "y \<in> set ys" for y
    using assms(2,3) that by (auto simp: filter_empty_conv)
  ultimately show ?thesis by (auto simp: group_by_def k)
qed

lemma group_tag_runs: "map (\<lambda>(_, rs). map fst rs) (group_by snd (tag_runs good es)) = bad_runs es"
proof (induction es arbitrary: good rule: bad_runs.induct)
  case (2 e es)
  show ?case
  proof (cases "is_bad e")
    case True
    let ?run = "map (\<lambda>x. (x, good)) (e # takeWhile is_bad es)"
    have "tag_runs good (e # es) = ?run @ tag_runs good (dropWhile is_bad es)"
      using True tag_runs_bad [of good es] by simp
    moreover have "group_by snd (?run @ tag_runs good (dropWhile is_bad es)) = (good, ?run) # group_by snd (tag_runs good (dropWhile is_bad es))"
      by (rule group_by_append) (auto dest: tag_runs_after)
    ultimately show ?thesis using True "2.IH"(1) by (simp add: comp_def)
  qed (use 2 in simp)
qed (simp add: group_by_def)

lemma failure_islands_runs: "failure_islands es = map island_row (bad_runs es)"
proof -
  have "failure_islands es = map island_row (map (\<lambda>(_, rs). map fst rs) (group_by snd (islands es)))"
    by (simp add: failure_islands_def split_beta comp_def)
  then show ?thesis by (simp add: islands_eq group_tag_runs)
qed

text \<open>C13. The window functions of the query find exactly the maximal runs of bad executions.\<close>

theorem islands_are_runs: "failure_islands es = map island_row (bad_runs es)"
  by (rule failure_islands_runs)

text \<open>Every other statistic leaves the rows with status \<open>running\<close> out; this query counts them as good. A run
  that the agent saw in progress has such a row before the row of its end, so consecutive failures that were
  all seen in progress are one episode each.\<close>

definition run_rows :: "(execution \<times> execution) list \<Rightarrow> execution list" where
  "run_rows ps = concat (map (\<lambda>(b, f). [b, f]) ps)"

lemma running_splits_episodes:
  assumes "\<forall>p \<in> set ps. e_status (fst p) = ''running'' \<and> is_bad (snd p)"
  shows "failure_islands (run_rows ps) = map (\<lambda>p. (e_created_at (snd p), e_created_at (snd p), 1)) ps"
proof -
  have "bad_runs (run_rows ps) = map (\<lambda>p. [snd p]) ps"
    using assms
  proof (induction ps)
    case (Cons p ps)
    then show ?case by (cases p; cases ps) (auto simp: run_rows_def is_bad_def has_status_def)
  qed (simp add: run_rows_def)
  then show ?thesis by (simp add: failure_islands_runs island_row_def comp_def)
qed

section \<open>Counts add up\<close>

lemma count_where_split:
  "distinct ks \<Longrightarrow> set (map f rs) \<subseteq> set ks \<Longrightarrow> (\<Sum>k\<leftarrow>ks. count_where p (filter (\<lambda>r. f r = k) rs)) = count_where p rs"
proof (induction rs)
  case (Cons r rs)
  have "(\<Sum>k\<leftarrow>ks. count_where p (filter (\<lambda>x. f x = k) (r # rs)))
      = (\<Sum>k\<leftarrow>ks. (if f r = k \<and> p r then 1 else 0) + count_where p (filter (\<lambda>x. f x = k) rs))"
    by (rule arg_cong [where f = sum_list], rule map_cong) (auto simp: count_where_def)
  also have "\<dots> = (\<Sum>k\<leftarrow>ks. if f r = k \<and> p r then 1 else 0) + count_where p rs"
    using Cons by (simp add: sum_list_addf)
  also have "(\<Sum>k\<leftarrow>ks. if f r = k \<and> p r then 1 else 0) = (if p r then 1 else (0::int))"
    using Cons.prems by (simp add: sum_list_distinct_conv_sum_set sum.delta')
  finally show ?case by (simp add: count_where_def)
qed (simp add: count_where_def)

lemma sum_group_by: "(\<Sum>g\<leftarrow>group_by f es. count_where p (snd g)) = count_where p es"
  using count_where_split [of "remdups (map f es)" f es p] by (simp add: group_by_def comp_def)

lemma sum_sort_key: "(\<Sum>x\<leftarrow>sort_key g xs. h x) = (\<Sum>x\<leftarrow>xs. (h x :: int))"
  by (metis mset_map mset_sort sum_mset_sum_list)

text \<open>The three views of one window agree: the buckets of the trend and the rows of the hosts add up to the
  totals of the window, for every width of the buckets.\<close>

theorem views_agree:
  "(\<Sum>p\<leftarrow>trend_points since w es. tp_total p) = ws_total (window_counts since label es)
   \<and> (\<Sum>p\<leftarrow>trend_points since w es. tp_success p) = ws_success (window_counts since label es)
   \<and> (\<Sum>p\<leftarrow>trend_points since w es. tp_failed p) = ws_failed (window_counts since label es)
   \<and> (\<Sum>h\<leftarrow>host_counts since es. hf_total h) = ws_total (window_counts since label es)
   \<and> (\<Sum>h\<leftarrow>host_counts since es. hf_failed h) = ws_failed (window_counts since label es)"
  by (simp add: sum_group_by trend_points_def host_counts_def failures_first_def window_counts_def Let_def sum_sort_key comp_def
      split_beta)

lemma count_outcomes:
  "(\<And>e. e \<in> set rs \<Longrightarrow> e_status e \<in> {''success'', ''failed'', ''partial'', ''unknown'', ''missed''}) \<Longrightarrow>
     count_where (\<lambda>e. True) rs = count_where (has_status [''success'']) rs + count_where (has_status [''failed'']) rs
       + count_where (has_status [''partial'']) rs + count_where (has_status [''unknown'']) rs
       + count_where (has_status [''missed'']) rs"
  by (induction rs) (auto simp: count_where_def has_status_def)

lemma count_where_le: "(\<And>r. p r \<Longrightarrow> q r) \<Longrightarrow> count_where p rs \<le> count_where q rs"
  unfolding count_where_def by (induction rs) auto

lemma percent_bounds: "0 \<le> part \<Longrightarrow> part \<le> whole \<Longrightarrow> 0 \<le> percent part whole \<and> percent part whole \<le> 100"
  by (auto simp: percent_def divide_le_eq)

text \<open>In a well-formed database the five outcomes of a window add up to its total and the success rate is a
  percentage; executions that still run are not counted.\<close>

theorem window_adds_up:
  assumes "pg_ok db"
  shows "let s = window_counts since label (t_executions db)
     in ws_total s = ws_success s + ws_failed s + ws_partial s + ws_unknown s + ws_missed s
        \<and> 0 \<le> ws_success_rate s \<and> ws_success_rate s \<le> 100"
proof -
  let ?rs = "filter (finished_since since) (t_executions db)"
  have "e_status e \<in> set execution_statuses" if "e \<in> set (t_executions db)" for e
    using pg_okD(8) [OF assms] that by (auto simp: table_ok_def execution_row_ok_def)
  then have st: "e_status e \<in> {''success'', ''failed'', ''partial'', ''unknown'', ''missed''}" if "e \<in> set ?rs" for e
    using that by (auto simp: finished_since_def execution_statuses_def)
  have "0 \<le> count_where (has_status [''success'']) ?rs" by (simp add: count_where_def)
  with count_outcomes [of ?rs, OF st] show ?thesis
    using percent_bounds [of "count_where (has_status [''success'']) ?rs" "count_where (\<lambda>e. True) ?rs"]
      count_where_le [of "has_status [''success'']" "\<lambda>e. True" ?rs]
    by (simp add: window_counts_def Let_def del: filter_filter)
qed

text \<open>A history for the witnesses: job \<open>k\<close> fails twice, recovers, and is failing again.\<close>

definition run_row :: "string \<Rightarrow> time \<Rightarrow> string \<Rightarrow> execution" where
  "run_row i t status = \<lparr>e_id = i, e_host_id = ''h'', e_job_id = Some ''k'', e_scheduled_at = None, e_started_at = None,
     e_finished_at = None, e_duration_seconds = None, e_status = status, e_confidence = 1, e_sources = [],
     e_output_text = None, e_evidence = None, e_created_at = t\<rparr>"

definition history_pg :: pg where
  "history_pg = crontab_pg\<lparr>t_executions := [run_row ''1'' 10 ''failed'', run_row ''2'' 20 ''missed'', run_row ''3'' 30 ''success'',
     run_row ''4'' 40 ''running'', run_row ''5'' 50 ''failed'']\<rparr>"

lemma history_pg_ok: "pg_ok history_pg"
  by (simp add: history_pg_def crontab_pg_def sample_rows run_row_def pg_ok_def refs_ok_def table_ok_def empty_pg_def
      host_ids_def job_ids_def job_row_ok_def execution_row_ok_def host_statuses_def job_sources_def execution_statuses_def
      job_key_def)

theorem window_adds_up_witness:
  "ws_total (window_counts 20 ''24h'' (t_executions history_pg)) = 3
   \<and> ws_success_rate (window_counts 20 ''24h'' (t_executions history_pg)) \<le> 100"
proof
  show "ws_total (window_counts 20 ''24h'' (t_executions history_pg)) = 3"
    by (simp add: window_counts_def history_pg_def run_row_def finished_since_def count_where_def Let_def)
  show "ws_success_rate (window_counts 20 ''24h'' (t_executions history_pg)) \<le> 100"
    using window_adds_up [OF history_pg_ok, of 20 "''24h''"] by (simp add: Let_def)
qed

section \<open>Recovery\<close>

abbreviation in_order :: "execution list \<Rightarrow> bool" where
  "in_order es \<equiv> sorted_wrt (<) (map e_created_at es)"

lemma concat_bad_runs: "concat (bad_runs es) = filter is_bad es"
proof (induction es rule: bad_runs.induct)
  case (2 e es)
  have "filter is_bad es = takeWhile is_bad es @ filter is_bad (dropWhile is_bad es)"
    by (induction es) auto
  then show ?case using 2 by simp
qed simp

lemma bad_runs_nonempty: "r \<in> set (bad_runs es) \<Longrightarrow> r \<noteq> []"
  by (induction es rule: bad_runs.induct) (auto split: if_splits)

lemma in_order_ends:
  "in_order r \<Longrightarrow> r \<noteq> [] \<Longrightarrow> island_row r = (e_created_at (hd r), e_created_at (last r), int (length r))"
proof -
  assume o: "in_order r" and n: "r \<noteq> []"
  have "Min (set (map e_created_at r)) = e_created_at (hd r)"
    using o n by (cases r) (auto intro!: Min_eqI simp: less_imp_le)
  moreover have "Max (set (map e_created_at r)) = e_created_at (last r)"
    using o n by (cases r rule: rev_cases) (auto intro!: Max_eqI simp: sorted_wrt_append less_imp_le)
  ultimately show ?thesis by (simp add: island_row_def)
qed

lemma in_order_parts: "in_order (concat rs) \<Longrightarrow> r \<in> set rs \<Longrightarrow> in_order r"
  by (induction rs) (auto simp: sorted_wrt_append)

lemma in_order_heads:
  "in_order (concat rs) \<Longrightarrow> (\<And>r. r \<in> set rs \<Longrightarrow> r \<noteq> []) \<Longrightarrow> sorted_wrt (<) (map (e_created_at \<circ> hd) rs)"
  by (induction rs) (auto simp: sorted_wrt_append)

lemma mset_nulls_last [simp]: "mset (nulls_last rs) = mset rs"
  by (induction rs) (auto simp: nulls_last_def)

lemma sort_strict:
  fixes f :: "'a \<Rightarrow> 'k::linorder"
  assumes "sorted_wrt (<) (map f xs)" and "mset ys = mset xs"
  shows "sort_key f ys = xs"
proof (rule sort_key_inj_key_eq [OF assms(2)])
  have "distinct (map f xs)" using assms(1) by (simp add: strict_sorted_iff)
  then show "inj_on f (set ys)" using mset_eq_setD [OF assms(2)] by (simp add: distinct_map)
  show "sorted (map f xs)" using assms(1) by (simp add: strict_sorted_iff)
qed

lemma first_of_start_strict: "sorted_wrt (<) (map ep_start rs) \<Longrightarrow> first_of_start rs = rs"
proof (induction rs rule: first_of_start.induct)
  case (2 r rs)
  then have "dropWhile (\<lambda>s. ep_start s = ep_start r) rs = rs" by (cases rs) auto
  with 2 show ?case by simp
qed simp

definition episodes :: "execution list \<Rightarrow> recovery_episode list" where
  "episodes es = map (recovery_row es \<circ> island_row) (bad_runs (sort_key e_created_at es))"

lemma in_order_bad: "distinct (map e_created_at es) \<Longrightarrow> in_order (filter is_bad (sort_key e_created_at es))"
proof -
  assume "distinct (map e_created_at es)"
  then have "in_order (sort_key e_created_at es)" by (simp add: strict_sorted_iff distinct_map)
  then show ?thesis by (simp add: sorted_wrt_map sorted_wrt_filter)
qed

lemma recovery_eq_episodes:
  assumes "distinct (map e_created_at es)"
  shows "recovery es = episodes es"
proof -
  let ?s = "sort_key e_created_at es"
  have "in_order (concat (bad_runs ?s))" unfolding concat_bad_runs using assms by (rule in_order_bad)
  then have "sorted_wrt (<) (map (e_created_at \<circ> hd) (bad_runs ?s))"
    and r: "\<And>r. r \<in> set (bad_runs ?s) \<Longrightarrow> in_order r"
    by (auto intro: in_order_heads in_order_parts dest: bad_runs_nonempty)
  moreover have "map ep_start (episodes es) = map (e_created_at \<circ> hd) (bad_runs ?s)"
    using r by (auto simp: episodes_def recovery_row_def Let_def in_order_ends bad_runs_nonempty)
  ultimately have s: "sorted_wrt (<) (map ep_start (episodes es))" by simp
  have "recovery es = first_of_start (sort_key ep_start (nulls_last (episodes es)))"
    by (simp add: recovery_def episodes_def islands_are_runs)
  also have "\<dots> = episodes es" using s by (simp add: sort_strict first_of_start_strict)
  finally show ?thesis .
qed

text \<open>The rows of a job are consecutive, so that the map of the code collects one summary for each job.\<close>

definition collected :: "string \<Rightarrow> string \<Rightarrow> recovery_episode list \<Rightarrow> job_recovery_summary" where
  "collected jid hid eps = \<lparr>rs_job_id = jid, rs_host_id = hid, rs_is_currently_failing = False,
     rs_current_episode_since = None, rs_current_episode_fails = 0, rs_last_recovered_at = None,
     rs_avg_recovery_seconds = None, rs_episodes = eps\<rparr>"

lemma add_episode_new:
  "jid \<notin> rs_job_id ` set ss \<Longrightarrow> add_episode (jid, hid, ep) ss = ss @ [collected jid hid [ep]]"
  by (induction ss) (auto simp: collected_def)

lemma add_episode_known:
  "jid \<notin> rs_job_id ` set ss \<Longrightarrow>
     add_episode (jid, hid, ep) (ss @ [collected jid hid eps]) = ss @ [collected jid hid (eps @ [ep])]"
  by (induction ss) (auto simp: collected_def)

lemma fold_known:
  "jid \<notin> rs_job_id ` set ss \<Longrightarrow>
     fold add_episode (map (\<lambda>ep. (jid, hid, ep)) eps) (ss @ [collected jid hid eps0]) = ss @ [collected jid hid (eps0 @ eps)]"
  by (induction eps arbitrary: eps0) (simp_all add: add_episode_known)

lemma fold_block:
  "jid \<notin> rs_job_id ` set ss \<Longrightarrow>
     fold add_episode (map (\<lambda>ep. (jid, hid, ep)) eps) ss = ss @ (if eps = [] then [] else [collected jid hid eps])"
  by (cases eps) (simp_all add: add_episode_new fold_known)

lemma fold_blocks:
  assumes "distinct (map j_id js)" and "\<forall>j \<in> set js. j_id j \<notin> rs_job_id ` set ss"
  shows "fold add_episode (concat (map (\<lambda>j. map (\<lambda>ep. (j_id j, j_host_id j, ep)) (g j)) js)) ss
     = ss @ map (\<lambda>j. collected (j_id j) (j_host_id j) (g j)) (filter (\<lambda>j. g j \<noteq> []) js)"
  using assms
proof (induction js arbitrary: ss)
  case (Cons j js)
  let ?ss = "ss @ (if g j = [] then [] else [collected (j_id j) (j_host_id j) (g j)])"
  have "\<forall>i \<in> set js. j_id i \<notin> rs_job_id ` set ?ss"
    using Cons.prems by (auto simp: collected_def image_iff)
  then show ?case using Cons.IH [of ?ss] Cons.prems fold_block [of "j_id j" ss "j_host_id j" "g j"] by simp
qed simp

lemma recovery_summaries_eq:
  assumes "pg_ok db"
  shows "recovery_summaries (recovery_rows db) =
     map (\<lambda>j. average_recovery (current_episode (collected (j_id j) (j_host_id j) (rev (recovery (job_executions db j))))))
       (filter (\<lambda>j. recovery (job_executions db j) \<noteq> []) (sort_key j_id (t_jobs db)))"
proof -
  have "distinct (map j_id (sort_key j_id (t_jobs db)))"
    using pg_okD(7) [OF assms] by (simp add: table_ok_def distinct_map)
  from fold_blocks [OF this, of "[]" "\<lambda>j. rev (recovery (job_executions db j))"] show ?thesis
    by (simp add: recovery_summaries_def recovery_rows_def comp_def)
qed

lemma average_recovery_sel [simp]:
  "rs_is_currently_failing (average_recovery s) = rs_is_currently_failing s" "rs_job_id (average_recovery s) = rs_job_id s"
  "rs_current_episode_fails (average_recovery s) = rs_current_episode_fails s"
  by (simp_all add: average_recovery_def Let_def)

lemma current_episode_sel:
  "rs_job_id (current_episode (collected jid hid eps)) = jid"
  "rs_is_currently_failing (current_episode (collected jid hid eps)) \<longleftrightarrow> eps \<noteq> [] \<and> ep_recovered_at (hd eps) = None"
  by (auto simp: current_episode_def collected_def split: list.split option.split)

lemma sort_key_Nil: "sort_key f xs = [] \<longleftrightarrow> xs = []"
proof -
  have "length (sort_key f xs) = length xs" by simp
  then show ?thesis by (simp only: flip: length_0_conv)
qed

lemma recovered_at_None: "recovered_at es t = None \<longleftrightarrow> (\<forall>x \<in> set es. has_status [''success''] x \<longrightarrow> e_created_at x \<le> t)"
proof -
  let ?f = "filter (\<lambda>e. t < e_created_at e \<and> has_status [''success''] e) es"
  have "recovered_at es t = None \<longleftrightarrow> sort_key e_created_at ?f = []"
    by (simp add: recovered_at_def split: list.split)
  also have "\<dots> \<longleftrightarrow> ?f = []" by (rule sort_key_Nil)
  finally show ?thesis by (auto simp: filter_empty_conv not_less)
qed

lemma last_episode:
  assumes "distinct (map e_created_at es)" and "filter is_bad es \<noteq> []"
  shows "ep_end (last (episodes es)) = Max (e_created_at ` set (filter is_bad es))"
    and "ep_recovered_at (last (episodes es)) = recovered_at es (ep_end (last (episodes es)))"
proof -
  let ?s = "sort_key e_created_at es" and ?r = "last (bad_runs (sort_key e_created_at es))"
  have bad: "set (filter is_bad ?s) = set (filter is_bad es)" by simp
  then have n: "bad_runs ?s \<noteq> []" using assms(2) concat_bad_runs [of ?s] by (metis concat.simps(1) set_empty2)
  note o = in_order_bad [OF assms(1)]
  have r: "?r \<in> set (bad_runs ?s)" using n by simp
  then have "in_order ?r" "?r \<noteq> []" using o in_order_parts [of "bad_runs ?s"] by (auto simp: concat_bad_runs dest: bad_runs_nonempty)
  then have e: "ep_end (last (episodes es)) = e_created_at (last ?r)"
    using n by (simp add: episodes_def last_map recovery_row_def in_order_ends Let_def)
  have "last ?r = last (filter is_bad ?s)"
  proof -
    have "bad_runs ?s = butlast (bad_runs ?s) @ [?r]" using n by simp
    then have "filter is_bad ?s = concat (butlast (bad_runs ?s)) @ ?r"
      using concat_bad_runs [of ?s] concat_append [of "butlast (bad_runs ?s)" "[?r]"] by simp
    then show ?thesis using \<open>?r \<noteq> []\<close> by simp
  qed
  moreover have "e_created_at (last (filter is_bad ?s)) = Max (e_created_at ` set (filter is_bad ?s))"
  proof -
    have "filter is_bad ?s \<noteq> []" using assms(2) bad by (metis set_empty2)
    then show ?thesis using o
      by (cases "filter is_bad ?s" rule: rev_cases) (auto intro!: Max_eqI [symmetric] simp: sorted_wrt_append less_imp_le)
  qed
  ultimately show "ep_end (last (episodes es)) = Max (e_created_at ` set (filter is_bad es))" using e bad by simp
  show "ep_recovered_at (last (episodes es)) = recovered_at es (ep_end (last (episodes es)))"
    using n by (simp add: episodes_def last_map recovery_row_def Let_def split_beta)
qed

lemma failing_eq:
  assumes "distinct (map e_created_at es)"
  shows "episodes es \<noteq> [] \<and> ep_recovered_at (last (episodes es)) = None \<longleftrightarrow>
    (\<exists>e \<in> set es. is_bad e \<and> (\<forall>x \<in> set es. e_status x = ''success'' \<longrightarrow> e_created_at x < e_created_at e))" (is "?l \<longleftrightarrow> ?r")
proof (cases "filter is_bad es = []")
  case True
  then have "concat (bad_runs (sort_key e_created_at es)) = []" unfolding concat_bad_runs by (simp add: filter_empty_conv)
  then have "bad_runs (sort_key e_created_at es) = []" using bad_runs_nonempty [of _ "sort_key e_created_at es"]
    by (cases "bad_runs (sort_key e_created_at es)") force+
  then show ?thesis using True by (auto simp: episodes_def filter_empty_conv)
next
  case False
  let ?B = "e_created_at ` set (filter is_bad es)"
  have "concat (bad_runs (sort_key e_created_at es)) \<noteq> []" unfolding concat_bad_runs using False by (simp add: filter_empty_conv)
  then have "episodes es \<noteq> []" by (auto simp: episodes_def)
  then have l: "?l \<longleftrightarrow> (\<forall>x \<in> set es. has_status [''success''] x \<longrightarrow> e_created_at x \<le> Max ?B)"
    using last_episode [OF assms False] recovered_at_None [of es "Max ?B"] by simp
  have "Max ?B \<in> ?B" using False by (intro Max_in) (auto simp: filter_empty_conv)
  then obtain e where e: "e \<in> set es" "is_bad e" "e_created_at e = Max ?B" by auto
  have "e_created_at x \<noteq> e_created_at e" if "x \<in> set es" "has_status [''success''] x" for x
    using that e(1,2) assms by (auto simp: distinct_map inj_on_def is_bad_def has_status_def)
  then have "?l \<Longrightarrow> ?r" using e unfolding l by (intro bexI [of _ e]) (force simp: has_status_def)+
  moreover have "?r \<Longrightarrow> ?l"
  proof -
    assume ?r
    then obtain e where e: "e \<in> set es" "is_bad e" "\<forall>x \<in> set es. e_status x = ''success'' \<longrightarrow> e_created_at x < e_created_at e" by blast
    then have "e_created_at e \<le> Max ?B" by (intro Max_ge) auto
    then show ?l using e(3) unfolding l by (auto simp: has_status_def intro: less_imp_le order.trans)
  qed
  ultimately show ?thesis by blast
qed

text \<open>C23. The recovery statistics report a job as currently failing if and only if one of its executions failed, was
  missed or is unknown, and no success came after it; \<open>running\<close> and \<open>partial\<close> executions decide nothing.\<close>

theorem currently_failing_iff:
  assumes "pg_ok db" and "sv_up E (pg_calls db)" and "j \<in> set (t_jobs db)"
    and "distinct (map e_created_at (job_executions db j))"
  shows "(\<exists>rs s. fst (get_job_recovery_stats E db) = Inr rs \<and> s \<in> set rs \<and> rs_job_id s = j_id j \<and> rs_is_currently_failing s)
    \<longleftrightarrow> (\<exists>e \<in> set (job_executions db j). is_bad e
          \<and> (\<forall>x \<in> set (job_executions db j). e_status x = ''success'' \<longrightarrow> e_created_at x < e_created_at e))"
proof -
  have one: "i = j" if "i \<in> set (t_jobs db)" "j_id i = j_id j" for i
    using pg_okD(7) [OF assms(1)] that assms(3) by (auto simp: table_ok_def distinct_map inj_on_def)
  have "fst (get_job_recovery_stats E db) = Inr (recovery_summaries (recovery_rows db))"
    using assms(2) by (simp add: get_job_recovery_stats_def wrap_result_def query_def stmt_def)
  moreover have "(\<exists>s \<in> set (recovery_summaries (recovery_rows db)). rs_job_id s = j_id j \<and> rs_is_currently_failing s)
      \<longleftrightarrow> recovery (job_executions db j) \<noteq> [] \<and> ep_recovered_at (last (recovery (job_executions db j))) = None"
    unfolding recovery_summaries_eq [OF assms(1)] using one assms(3)
    by (auto simp: current_episode_sel hd_rev image_iff)
  ultimately show ?thesis
    using failing_eq [OF assms(4)] unfolding recovery_eq_episodes [OF assms(4)] by auto
qed

theorem currently_failing_iff_witness:
  "\<exists>rs s. fst (get_job_recovery_stats calm_server history_pg) = Inr rs \<and> s \<in> set rs \<and> rs_job_id s = ''k''
     \<and> rs_is_currently_failing s"
proof -
  have j: "job_row ''k'' ''h'' ''new'' \<in> set (t_jobs history_pg)" by (simp add: history_pg_def crontab_pg_def)
  have e: "job_executions history_pg (job_row ''k'' ''h'' ''new'') = t_executions history_pg"
    by (simp add: job_executions_def history_pg_def run_row_def job_row_def)
  have d: "distinct (map e_created_at (job_executions history_pg (job_row ''k'' ''h'' ''new'')))"
    unfolding e by (simp add: history_pg_def run_row_def)
  have "\<exists>e \<in> set (t_executions history_pg). is_bad e
          \<and> (\<forall>x \<in> set (t_executions history_pg). e_status x = ''success'' \<longrightarrow> e_created_at x < e_created_at e)"
    by (rule bexI [of _ "run_row ''5'' 50 ''failed''"]) (simp_all add: history_pg_def run_row_def is_bad_def has_status_def)
  then show ?thesis
    using currently_failing_iff [OF history_pg_ok _ j d, of calm_server] unfolding e by (simp add: calm_server_def job_row_def)
qed

end
