(* ===== verification/Auth.thy ===== *)
theory Auth
  imports Services "HOL-Library.Word"
begin

text \<open>
  Dashboard sessions and API authentication (\<open>apps/server/internal/api/auth.go\<close>). The two maps of the
  manager are key-value maps; the locks make every operation atomic. \<open>time.Since\<close> and \<open>time.Now\<close>
  read a clock that is an argument of each operation. The locale \<open>credential_validator\<close> is the contract of
  the interface that the middleware calls, and the service of the agents fulfils it.
\<close>

section \<open>Constants and state\<close>

definition session_ttl :: duration where
  "session_ttl = hours 24"

definition login_max_attempts :: int where
  "login_max_attempts = 5"

definition login_lockout :: duration where
  "login_lockout = minutes 5"

record session_entry =
  se_username :: string
  se_created_at :: time

record login_attempt =
  la_failures :: int
  la_locked_at :: time

record auth_config =
  ac_legacy_agent_token :: string
  ac_login_username :: string
  ac_login_password :: string

record auth =
  au_sessions :: "(string \<times> session_entry) list"
  au_attempts :: "(string \<times> login_attempt) list"

definition new_auth :: auth where
  "new_auth = \<lparr>au_sessions = [], au_attempts = []\<rparr>"

section \<open>Comparison\<close>

definition constant_time_eq :: "32 word \<Rightarrow> 32 word \<Rightarrow> 32 word" where
  "constant_time_eq x y = (if x = y then 1 else 0)"

definition constant_time_compare :: "string \<Rightarrow> string \<Rightarrow> 32 word" where
  "constant_time_compare x y = (if x = y then 1 else 0)"

definition pad_to :: "nat \<Rightarrow> string \<Rightarrow> string" where
  "pad_to n s = s @ replicate (n - length s) (CHR 0x00)"

definition secure_equal :: "string \<Rightarrow> string \<Rightarrow> bool" where
  "secure_equal got want =
     (let len_ok = constant_time_eq (of_nat (length got)) (of_nat (length want));
          g = (if length got < length want then pad_to (length want) got else got);
          w = (if length want < length got then pad_to (length got) want else want);
          content_ok = constant_time_compare g w
      in constant_time_eq (len_ok + content_ok) 2 = 1)"

section \<open>Lockout\<close>

definition is_locked_out :: "time \<Rightarrow> string \<Rightarrow> auth \<Rightarrow> bool \<times> auth" where
  "is_locked_out now ip a =
     (case kv_get (au_attempts a) ip of
        None \<Rightarrow> (False, a)
      | Some att \<Rightarrow>
          if login_max_attempts \<le> la_failures att
          then (if time_sub now (la_locked_at att) < login_lockout then (True, a)
                else (False, a\<lparr>au_attempts := kv_del ip (au_attempts a)\<rparr>))
          else (False, a))"

definition record_failure :: "time \<Rightarrow> string \<Rightarrow> auth \<Rightarrow> auth" where
  "record_failure now ip a =
     (let att = (case kv_get (au_attempts a) ip of None \<Rightarrow> \<lparr>la_failures = 0, la_locked_at = zero_time\<rparr> | Some att \<Rightarrow> att);
          att = att\<lparr>la_failures := la_failures att + 1\<rparr>;
          att = (if login_max_attempts \<le> la_failures att then att\<lparr>la_locked_at := now\<rparr> else att)
      in a\<lparr>au_attempts := kv_put ip att (au_attempts a)\<rparr>)"

definition clear_failures :: "string \<Rightarrow> auth \<Rightarrow> auth" where
  "clear_failures ip a = a\<lparr>au_attempts := kv_del ip (au_attempts a)\<rparr>"

section \<open>Sessions\<close>

text \<open>The token that \<open>newSessionToken\<close> returns, \<open>None\<close> when the random source fails.\<close>

definition login ::
  "auth_config \<Rightarrow> time \<Rightarrow> time \<Rightarrow> string option \<Rightarrow> string \<Rightarrow> string \<Rightarrow> string \<Rightarrow> auth \<Rightarrow> (string \<times> string) option \<times> auth" where
  "login C t t' random ip username password a =
     (case is_locked_out t ip a of
        (True, a) \<Rightarrow> (None, a)
      | (False, a) \<Rightarrow>
          (let user_ok = secure_equal username (ac_login_username C);
               pass_ok = secure_equal password (ac_login_password C)
           in if \<not> user_ok \<or> \<not> pass_ok then (None, record_failure t' ip a)
              else (let a = clear_failures ip a
                    in case random of
                         None \<Rightarrow> (None, a)
                       | Some token \<Rightarrow>
                           (Some (token, username),
                            a\<lparr>au_sessions := kv_put token \<lparr>se_username = username, se_created_at = t'\<rparr> (au_sessions a)\<rparr>))))"

definition logout :: "string \<Rightarrow> auth \<Rightarrow> auth" where
  "logout token a = (if token = [] then a else a\<lparr>au_sessions := kv_del token (au_sessions a)\<rparr>)"

definition is_session_token :: "time \<Rightarrow> string \<Rightarrow> auth \<Rightarrow> bool \<times> auth" where
  "is_session_token now token a =
     (case kv_get (au_sessions a) token of
        None \<Rightarrow> (False, a)
      | Some entry \<Rightarrow>
          if session_ttl < time_sub now (se_created_at entry)
          then (False, a\<lparr>au_sessions := kv_del token (au_sessions a)\<rparr>)
          else (True, a))"

definition stale_attempt :: "time \<Rightarrow> login_attempt \<Rightarrow> bool" where
  "stale_attempt now att \<longleftrightarrow>
     (login_max_attempts \<le> la_failures att \<and> login_lockout \<le> time_sub now (la_locked_at att))
     \<or> (la_failures att < login_max_attempts \<and> login_lockout < time_sub now (la_locked_at att))"

definition cleanup :: "time \<Rightarrow> auth \<Rightarrow> auth" where
  "cleanup now a =
     \<lparr>au_sessions = filter (\<lambda>(tok, entry). \<not> session_ttl < time_sub now (se_created_at entry)) (au_sessions a),
      au_attempts = filter (\<lambda>(ip, att). \<not> stale_attempt now att) (au_attempts a)\<rparr>"

section \<open>Middleware\<close>

definition bearer_token :: "string \<Rightarrow> string" where
  "bearer_token header =
     (if \<not> has_prefix ''Bearer '' header then [] else trim_space (trim_prefix ''Bearer '' header))"

text \<open>Whether the request reaches the next handler; \<open>validate\<close> is the validator, \<open>None\<close> when there is none.\<close>

definition api_auth ::
  "auth_config \<Rightarrow> (string \<Rightarrow> string \<Rightarrow> 's \<Rightarrow> bool \<times> 's) option \<Rightarrow> time \<Rightarrow> string \<Rightarrow> string \<Rightarrow> auth \<Rightarrow> 's \<Rightarrow> bool \<times> auth \<times> 's" where
  "api_auth C validate now authorization host_header a s =
     (let token = bearer_token authorization in
      if token = [] then (False, a, s)
      else (case is_session_token now token a of
              (True, a) \<Rightarrow> (True, a, s)
            | (False, a) \<Rightarrow>
                if ac_legacy_agent_token C \<noteq> [] \<and> secure_equal token (ac_legacy_agent_token C) then (True, a, s)
                else (case validate of
                        None \<Rightarrow> (False, a, s)
                      | Some v \<Rightarrow>
                          if host_header = [] then (False, a, s)
                          else (case v host_header token s of (ok, s) \<Rightarrow> (ok, a, s)))))"

section \<open>The comparison decides equality\<close>

lemma word_length_eq:
  "length x < 2 ^ 32 \<Longrightarrow> length y < 2 ^ 32 \<Longrightarrow> (of_nat (length x) = (of_nat (length y) :: 32 word)) = (length x = length y)"
  by (simp add: word_of_nat_eq_iff take_bit_nat_eq_self)

text \<open>The padded comparison accepts exactly equal strings, as long as both are shorter than 4 GiB: beyond that
  their lengths are compared modulo \<open>2 ^ 32\<close>.\<close>

theorem secure_equal_iff:
  assumes "length got < 2 ^ 32" and "length want < 2 ^ 32"
  shows "secure_equal got want \<longleftrightarrow> got = want"
proof (cases "length got = length want")
  case True
  then show ?thesis by (simp add: secure_equal_def constant_time_eq_def constant_time_compare_def)
next
  case False
  then have "(of_nat (length got) :: 32 word) \<noteq> of_nat (length want)" using word_length_eq [OF assms] by simp
  then have "\<not> secure_equal got want"
    by (simp add: secure_equal_def constant_time_eq_def constant_time_compare_def Let_def)
  then show ?thesis using False by auto
qed

theorem secure_equal_iff_witness:
  "secure_equal ''secret'' ''secret'' \<and> \<not> secure_equal (''secret'' @ [CHR 0x00]) ''secret''"
  using secure_equal_iff [of "''secret''" "''secret''"] secure_equal_iff [of "''secret'' @ [CHR 0x00]" "''secret''"] by simp

section \<open>Runs\<close>

text \<open>The events of the manager with the clocks they read; a login reads the clock before the comparison
  and after it.\<close>

datatype auth_event =
    Login_Event time time "string option" string string string
  | Logout_Event string
  | Check_Event time string
  | Cleanup_Event time

inductive auth_step :: "auth_config \<Rightarrow> auth \<Rightarrow> auth_event \<Rightarrow> auth \<Rightarrow> bool" for C where
  step_login: "login C t t' r ip u p a = (x, a') \<Longrightarrow> auth_step C a (Login_Event t t' r ip u p) a'"
| step_logout: "auth_step C a (Logout_Event tok) (logout tok a)"
| step_check: "auth_step C a (Check_Event t tok) (snd (is_session_token t tok a))"
| step_cleanup: "auth_step C a (Cleanup_Event t) (cleanup t a)"

inductive_cases auth_stepE: "auth_step C a ev a'"

inductive_simps auth_step_simps:
  "auth_step C a (Login_Event t t' r ip u p) a'" "auth_step C a (Logout_Event tok) a'"
  "auth_step C a (Check_Event t tok) a'" "auth_step C a (Cleanup_Event t) a'"

inductive auth_run :: "auth_config \<Rightarrow> auth \<Rightarrow> auth_event list \<Rightarrow> auth \<Rightarrow> bool" for C a where
  run_start: "auth_run C a [] a"
| run_step: "auth_run C a evs a' \<Longrightarrow> auth_step C a' ev a'' \<Longrightarrow> auth_run C a (evs @ [ev]) a''"

definition auth_ok :: "auth \<Rightarrow> bool" where
  "auth_ok a \<longleftrightarrow> kv_inv (au_sessions a) \<and> kv_inv (au_attempts a)"

lemma kv_get_entry_filter:
  "kv_inv kvs \<Longrightarrow> kv_get (filter P kvs) k = (case kv_get kvs k of None \<Rightarrow> None | Some v \<Rightarrow> if P (k, v) then Some v else None)"
proof -
  assume i: "kv_inv kvs"
  have "kv_get (filter P kvs) k = Some v \<longleftrightarrow> kv_get kvs k = Some v \<and> P (k, v)" for v
    using kv_get_entries [OF i, of k v] kv_get_entries [OF kv_inv_filter [OF i], of k v P] by simp
  then have e: "(kv_get (filter P kvs) k = Some v) = (kv_get kvs k = Some v \<and> P (k, v))" for v .
  show ?thesis
  proof (cases "kv_get (filter P kvs) k")
    case None
    then show ?thesis using e [of "the (kv_get kvs k)"] by (cases "kv_get kvs k") simp_all
  next
    case (Some v)
    then show ?thesis using e [of v] by simp
  qed
qed

lemma record_failure_sel [simp]: "au_sessions (record_failure t ip a) = au_sessions a"
  by (simp add: record_failure_def Let_def)

lemma auth_ok_step: "auth_step C a ev a' \<Longrightarrow> auth_ok a \<Longrightarrow> auth_ok a'"
  by (erule auth_step.cases) (auto simp: auth_ok_def login_def is_locked_out_def record_failure_def clear_failures_def logout_def
      is_session_token_def cleanup_def Let_def kv_inv_filter split: option.splits if_splits prod.splits bool.splits)

lemma auth_ok_run: "auth_run C a evs a' \<Longrightarrow> auth_ok a \<Longrightarrow> auth_ok a'"
  by (induction rule: auth_run.induct) (auto dest: auth_ok_step)

lemma new_auth_ok [simp]: "auth_ok new_auth"
  by (simp add: auth_ok_def new_auth_def)

section \<open>Sessions come from logins\<close>

definition right_login :: "auth_config \<Rightarrow> string \<Rightarrow> string \<Rightarrow> bool" where
  "right_login C u p \<longleftrightarrow> secure_equal u (ac_login_username C) \<and> secure_equal p (ac_login_password C)"

text \<open>The session \<open>tok\<close> was issued at \<open>created\<close> by a login with the right password and not logged out since.\<close>

definition issued :: "auth_config \<Rightarrow> auth_event list \<Rightarrow> string \<Rightarrow> time \<Rightarrow> bool" where
  "issued C evs tok created \<longleftrightarrow>
     (\<exists>before t ip u p after. evs = before @ Login_Event t created (Some tok) ip u p # after
        \<and> right_login C u p \<and> Logout_Event tok \<notin> set after)"

lemma issued_snoc: "issued C evs tok created \<Longrightarrow> ev \<noteq> Logout_Event tok \<Longrightarrow> issued C (evs @ [ev]) tok created"
proof -
  assume "issued C evs tok created" and ev: "ev \<noteq> Logout_Event tok"
  then obtain before t ip u p after where evs: "evs = before @ Login_Event t created (Some tok) ip u p # after"
    and "right_login C u p" "Logout_Event tok \<notin> set after"
    unfolding issued_def by blast
  then show ?thesis unfolding issued_def
    by (intro exI [of _ before] exI [of _ t] exI [of _ ip] exI [of _ u] exI [of _ p] exI [of _ "after @ [ev]"])
      (use ev in auto)
qed

lemma login_cases:
  assumes "login C t t' r ip u p a = (x, a')"
  shows "(x = None \<and> au_sessions a' = au_sessions a) \<or>
    (\<exists>tok. x = Some (tok, u) \<and> r = Some tok \<and> right_login C u p \<and> \<not> fst (is_locked_out t ip a)
       \<and> au_sessions a' = kv_put tok \<lparr>se_username = u, se_created_at = t'\<rparr> (au_sessions a))"
proof -
  obtain l a1 where l: "is_locked_out t ip a = (l, a1)" by fastforce
  have s: "au_sessions a1 = au_sessions a" using l by (auto simp: is_locked_out_def split: option.splits if_splits)
  show ?thesis
  proof (cases "\<not> l \<and> right_login C u p")
    case True
    then show ?thesis using assms l s
      by (cases r) (auto simp: login_def Let_def right_login_def clear_failures_def)
  next
    case False
    then show ?thesis using assms l s by (cases l) (auto simp: login_def Let_def right_login_def)
  qed
qed

lemma sessions_step:
  assumes "auth_step C a ev a'" and "auth_ok a" and "kv_get (au_sessions a') tok = Some e" and "tok \<noteq> []"
  shows "(kv_get (au_sessions a) tok = Some e \<and> ev \<noteq> Logout_Event tok) \<or>
    (\<exists>t ip u p. ev = Login_Event t (se_created_at e) (Some tok) ip u p \<and> right_login C u p)"
  using assms
proof (cases ev)
  case (Login_Event t t' r ip u p)
  then obtain x where "login C t t' r ip u p a = (x, a')" using assms(1) by (auto simp: auth_step_simps)
  from login_cases [OF this] show ?thesis using assms(3) Login_Event by (auto split: if_splits)
qed (auto simp: auth_step_simps auth_ok_def logout_def is_session_token_def cleanup_def kv_get_entry_filter split: option.splits if_splits)

lemma sessions_issued:
  assumes "auth_run C new_auth evs a" and "kv_get (au_sessions a) tok = Some e" and "tok \<noteq> []"
  shows "issued C evs tok (se_created_at e)"
  using assms
proof (induction arbitrary: e rule: auth_run.induct)
  case (run_step evs a' ev a'')
  have "auth_ok a'" using auth_ok_run [OF run_step(1)] by simp
  from sessions_step [OF run_step(2) this run_step(4,5)] show ?case
  proof
    assume "kv_get (au_sessions a') tok = Some e \<and> ev \<noteq> Logout_Event tok"
    then show ?thesis using run_step(3) [of e] run_step(5) by (auto intro: issued_snoc)
  next
    assume "\<exists>t ip u p. ev = Login_Event t (se_created_at e) (Some tok) ip u p \<and> right_login C u p"
    then show ?thesis unfolding issued_def by (metis empty_iff empty_set)
  qed
qed (simp add: new_auth_def kv_get_def)

text \<open>C10. A session token that the middleware accepts was issued by a login with the right user name and
  password at most 24 hours ago and has not been logged out since.\<close>

theorem session_authentic:
  assumes "auth_run C new_auth evs a" and "tok \<noteq> []" and "fst (is_session_token now tok a)"
  shows "\<exists>created. issued C evs tok created \<and> time_sub now created \<le> session_ttl"
  using assms sessions_issued [OF assms(1)]
  by (auto simp: is_session_token_def not_less split: option.splits if_splits)

definition dash :: auth_config where
  "dash = \<lparr>ac_legacy_agent_token = [], ac_login_username = ''admin'', ac_login_password = ''pw''\<rparr>"

lemmas run_auth = login_def is_locked_out_def record_failure_def clear_failures_def logout_def is_session_token_def
  cleanup_def stale_attempt_def new_auth_def kv_get_def kv_del_def dash_def secure_equal_def constant_time_eq_def
  constant_time_compare_def pad_to_def login_max_attempts_def login_lockout_def session_ttl_def time_sub_def
  zero_time_def hours_def minutes_def seconds_def Let_def

lemma auth_run_one: "auth_step C a ev a' \<Longrightarrow> auth_run C a [ev] a'"
  using auth_run.run_step [OF auth_run.run_start] by fastforce

theorem session_authentic_witness:
  "\<exists>a. auth_run dash new_auth [Login_Event 1 2 (Some ''s'') ''ip'' ''admin'' ''pw''] a \<and> fst (is_session_token 9 ''s'' a)
     \<and> issued dash [Login_Event 1 2 (Some ''s'') ''ip'' ''admin'' ''pw''] ''s'' 2"
proof -
  let ?a = "snd (login dash 1 2 (Some ''s'') ''ip'' ''admin'' ''pw'' new_auth)"
  let ?evs = "[Login_Event 1 2 (Some ''s'') ''ip'' ''admin'' ''pw'']"
  have r: "auth_run dash new_auth ?evs ?a"
    by (rule auth_run_one) (auto simp: auth_step_simps intro: prod.collapse [symmetric])
  have v: "fst (is_session_token 9 ''s'' ?a)" by (simp add: run_auth)
  obtain created where i: "issued dash ?evs ''s'' created" using session_authentic [OF r _ v] by auto
  then have "created = 2" by (auto simp: issued_def Cons_eq_append_conv)
  then show ?thesis using r v i by blast
qed

section \<open>Lockout\<close>

definition locked_at :: "time \<Rightarrow> string \<Rightarrow> auth \<Rightarrow> bool" where
  "locked_at t ip a \<longleftrightarrow>
     (\<exists>att. kv_get (au_attempts a) ip = Some att \<and> login_max_attempts \<le> la_failures att \<and> la_locked_at att = t)"

fun event_clocks :: "auth_event \<Rightarrow> time set" where
  "event_clocks (Login_Event t t' r ip u p) = {t, t'}"
| "event_clocks (Logout_Event tok) = {}"
| "event_clocks (Check_Event t tok) = {t}"
| "event_clocks (Cleanup_Event t) = {t}"

lemma lockout_window: "time_sub t l < login_lockout \<longleftrightarrow> t - l < login_lockout"
  by (rule time_sub_less) (simp_all add: login_lockout_def minutes_def seconds_def)

lemma locked_login: "locked_at l ip a \<Longrightarrow> t < l + login_lockout \<Longrightarrow> login C t t' r ip u p a = (None, a)"
  using lockout_window [of t l] by (auto simp: locked_at_def login_def is_locked_out_def)

lemma other_login: "ip' \<noteq> ip \<Longrightarrow> kv_get (au_attempts (snd (login C t t' r ip' u p a))) ip = kv_get (au_attempts a) ip"
  by (auto simp: login_def is_locked_out_def record_failure_def clear_failures_def Let_def split: option.split)

lemma locked_step:
  assumes "auth_step C a ev a'" and "auth_ok a" and "locked_at l ip a" and "\<forall>t \<in> event_clocks ev. t < l + login_lockout"
  shows "locked_at l ip a'"
proof (cases ev)
  case (Login_Event t t' r ip' u p)
  then obtain x where x: "login C t t' r ip' u p a = (x, a')" using assms(1) by (auto simp: auth_step_simps)
  show ?thesis
  proof (cases "ip' = ip")
    case True
    then show ?thesis using locked_login [OF assms(3), of t] assms(3,4) Login_Event x by auto
  next
    case False
    from other_login [OF this, of C t t' r u p a] show ?thesis using assms(3) x by (simp add: locked_at_def)
  qed
next
  case (Cleanup_Event t)
  then show ?thesis using assms lockout_window [of t l]
    by (auto simp: auth_step_simps auth_ok_def locked_at_def cleanup_def kv_get_entry_filter stale_attempt_def)
next
  case (Check_Event t tok)
  then show ?thesis using assms by (auto simp: auth_step_simps locked_at_def is_session_token_def split: option.split)
qed (use assms in \<open>auto simp: auth_step_simps locked_at_def logout_def\<close>)

lemma locked_run:
  "auth_run C a evs a' \<Longrightarrow> auth_ok a \<Longrightarrow> locked_at l ip a \<Longrightarrow>
     \<forall>ev \<in> set evs. \<forall>t \<in> event_clocks ev. t < l + login_lockout \<Longrightarrow> locked_at l ip a'"
proof (induction rule: auth_run.induct)
  case (run_step evs a' ev a'')
  then show ?case using locked_step [OF run_step(2) auth_ok_run [OF run_step(1,4)]] by simp
qed simp

definition wrong_login :: "auth_config \<Rightarrow> string \<Rightarrow> auth_event \<Rightarrow> bool" where
  "wrong_login C ip ev \<longleftrightarrow> (\<exists>t t' r u p. ev = Login_Event t t' r ip u p \<and> \<not> right_login C u p)"

fun answer_clock :: "auth_event \<Rightarrow> time" where
  "answer_clock (Login_Event t t' r ip u p) = t'"
| "answer_clock _ = 0"

lemma wrong_login_counts:
  assumes "wrong_login C ip ev" and "auth_step C a ev a'"
    and "case kv_get (au_attempts a) ip of None \<Rightarrow> n = 0 | Some att \<Rightarrow> la_failures att = n" and "n < login_max_attempts"
  shows "\<exists>att. kv_get (au_attempts a') ip = Some att \<and> la_failures att = n + 1
     \<and> (n + 1 = login_max_attempts \<longrightarrow> la_locked_at att = answer_clock ev)"
proof -
  obtain t t' r u p where ev: "ev = Login_Event t t' r ip u p" and w: "\<not> right_login C u p"
    using assms(1) unfolding wrong_login_def by blast
  have "is_locked_out t ip a = (False, a)" using assms(3,4) by (auto simp: is_locked_out_def split: option.splits)
  then have "a' = record_failure t' ip a"
    using assms(2) w by (auto simp: ev auth_step_simps login_def right_login_def Let_def split: if_splits)
  then show ?thesis using assms(3,4) by (auto simp: ev record_failure_def Let_def split: option.splits)
qed

lemma wrong_logins_count:
  assumes "auth_run C a evs a'" and "kv_get (au_attempts a) ip = None" and "\<forall>ev \<in> set evs. wrong_login C ip ev"
    and "int (length evs) \<le> login_max_attempts"
  shows "(case kv_get (au_attempts a') ip of None \<Rightarrow> evs = [] | Some att \<Rightarrow> la_failures att = int (length evs)
     \<and> (int (length evs) = login_max_attempts \<longrightarrow> la_locked_at att = answer_clock (last evs)))"
  using assms
proof (induction rule: auth_run.induct)
  case (run_step evs a' ev a'')
  then have "case kv_get (au_attempts a') ip of None \<Rightarrow> int (length evs) = 0 | Some att \<Rightarrow> la_failures att = int (length evs)"
    by (auto split: option.splits)
  from wrong_login_counts [OF _ run_step(2) this] run_step(5,6) show ?case by auto
qed simp


section \<open>Cleanup\<close>

lemma attempts_below_step:
  assumes "auth_step C a ev a'" and "auth_ok a"
    and "\<forall>att. kv_get (au_attempts a) ip = Some att \<longrightarrow> la_failures att < login_max_attempts \<longrightarrow> la_locked_at att = zero_time"
    and "kv_get (au_attempts a') ip = Some att" and "la_failures att < login_max_attempts"
  shows "la_locked_at att = zero_time"
proof (cases ev)
  case (Login_Event t t' r ip' u p)
  then obtain x where x: "login C t t' r ip' u p a = (x, a')" using assms(1) by (auto simp: auth_step_simps)
  show ?thesis
  proof (cases "ip' = ip")
    case True
    then show ?thesis using x assms(3-5)
      by (auto simp: login_def is_locked_out_def record_failure_def clear_failures_def Let_def
          split: option.splits if_splits)
  next
    case False
    from other_login [OF this, of C t t' r u p a] show ?thesis using assms(3-5) x by simp
  qed
qed (use assms in \<open>auto simp: auth_step_simps auth_ok_def logout_def is_session_token_def cleanup_def kv_get_entry_filter
      split: option.splits if_splits\<close>)

lemma attempts_below:
  "auth_run C new_auth evs a \<Longrightarrow> kv_get (au_attempts a) ip = Some att \<Longrightarrow> la_failures att < login_max_attempts \<Longrightarrow>
     la_locked_at att = zero_time"
proof (induction arbitrary: att rule: auth_run.induct)
  case (run_step evs a' ev a'')
  then show ?case using attempts_below_step [OF run_step(2) auth_ok_run [OF run_step(1)], of ip att] by auto
qed (simp add: new_auth_def kv_get_def)

text \<open>A cleanup at any time after the year 1 forgets every address with fewer than five failures, however recent
  they are, because such an entry carries the zero time: guessing four passwords between two cleanups never
  leads to a lockout.\<close>

theorem cleanup_forgets:
  assumes "auth_run C new_auth evs a" and "zero_time + login_lockout < now"
  shows "case kv_get (au_attempts (cleanup now a)) ip of None \<Rightarrow> True | Some att \<Rightarrow> login_max_attempts \<le> la_failures att"
proof -
  have ok: "auth_ok a" using auth_ok_run [OF assms(1)] by simp
  show ?thesis
  proof (cases "kv_get (au_attempts a) ip")
    case (Some att)
    have "login_lockout < time_sub now zero_time"
      using time_sub_greater [of login_lockout now zero_time] assms(2)
      by (simp add: login_lockout_def minutes_def seconds_def)
    then have "stale_attempt now att" if "la_failures att < login_max_attempts"
      using attempts_below [OF assms(1) Some that] that by (simp add: stale_attempt_def)
    then show ?thesis using Some ok
      by (auto simp: cleanup_def auth_ok_def kv_get_entry_filter not_le [symmetric])
  qed (use ok in \<open>simp add: cleanup_def auth_ok_def kv_get_entry_filter\<close>)
qed

lemma auth_run_Cons:
  assumes "auth_step C a ev a'" and "auth_run C a' evs a''"
  shows "auth_run C a (ev # evs) a''"
  using assms(2)
proof (induction rule: auth_run.induct)
  case (run_step evs b ev' c)
  then show ?case using auth_run.run_step [of C a "ev # evs" b ev' c] by simp
qed (rule auth_run_one [OF assms(1)])

definition guess :: "time \<Rightarrow> auth_event" where
  "guess t = Login_Event t t None ''ip'' ''admin'' ''x''"

definition guessed :: "int \<Rightarrow> time \<Rightarrow> auth" where
  "guessed n t = \<lparr>au_sessions = [], au_attempts = [(''ip'', \<lparr>la_failures = n, la_locked_at = t\<rparr>)]\<rparr>"

lemma guess_steps:
  "auth_step dash new_auth (guess 0) (guessed 1 zero_time)"
  "0 < n \<Longrightarrow> n < 4 \<Longrightarrow> auth_step dash (guessed n zero_time) (guess t) (guessed (n + 1) zero_time)"
  "auth_step dash (guessed 4 zero_time) (guess t) (guessed 5 t)"
  by (simp_all add: guess_def guessed_def auth_step_simps run_auth)

lemma four_guesses: "auth_run dash new_auth [guess 0, guess 1, guess 2, guess 3] (guessed 4 zero_time)"
  by (intro auth_run_Cons [OF guess_steps(1)] auth_run_Cons [OF guess_steps(2) [where n = 1, simplified]]
      auth_run_Cons [OF guess_steps(2) [where n = 2, simplified]] auth_run_Cons [OF guess_steps(2) [where n = 3, simplified]]
      auth_run.run_start)

lemma five_guesses: "auth_run dash new_auth [guess 0, guess 1, guess 2, guess 3, guess 4] (guessed 5 4)"
  using auth_run.run_step [OF four_guesses guess_steps(3) [of 4]] by simp


theorem cleanup_forgets_witness:
  "auth_run dash new_auth [guess 0, guess 1, guess 2, guess 3] (guessed 4 zero_time)
   \<and> kv_get (au_attempts (cleanup 5 (guessed 4 zero_time))) ''ip'' = None"
proof -
  have "zero_time + login_lockout < 5" by (simp add: run_auth)
  from cleanup_forgets [OF four_guesses this, of "''ip''"]
  have "case kv_get (au_attempts (cleanup 5 (guessed 4 zero_time))) ''ip'' of None \<Rightarrow> True | Some att \<Rightarrow> 5 \<le> la_failures att"
    unfolding login_max_attempts_def .
  then show ?thesis using four_guesses by (simp add: guessed_def run_auth split: if_splits)
qed

section \<open>Who gets through\<close>

text \<open>\<open>validate i t s\<close> is the validator's answer for a host and a token, \<open>knows\<close> what a positive answer means
  and \<open>inv\<close> what the validator needs of its state and keeps.\<close>

locale credential_validator =
  fixes validate :: "string \<Rightarrow> string \<Rightarrow> 's \<Rightarrow> bool \<times> 's"
    and knows :: "string \<Rightarrow> string \<Rightarrow> 's \<Rightarrow> bool"
    and inv :: "'s \<Rightarrow> bool"
  assumes sound: "inv s \<Longrightarrow> validate i t s = (True, s') \<Longrightarrow> knows i t s"
    and keeps: "inv s \<Longrightarrow> inv (snd (validate i t s))"
begin

lemma api_auth_inv: "inv s \<Longrightarrow> inv (snd (snd (api_auth C (Some validate) now h i a s)))"
  using keeps [of s i "bearer_token h"] by (auto simp: api_auth_def Let_def split: prod.split bool.split)

lemma api_auth_sound:
  assumes "inv s" and "api_auth C (Some validate) now h i a s = (True, a', s')"
  shows "bearer_token h \<noteq> [] \<and> (fst (is_session_token now (bearer_token h) a)
    \<or> ac_legacy_agent_token C \<noteq> [] \<and> secure_equal (bearer_token h) (ac_legacy_agent_token C)
    \<or> i \<noteq> [] \<and> knows i (bearer_token h) s)"
  using assms sound [of s i "bearer_token h"]
  by (auto simp: api_auth_def Let_def split: prod.splits bool.splits if_splits)

end

text \<open>The host \<open>i\<close> has a stored credential with the digest of the token.\<close>

definition knows_credential :: "server_env \<Rightarrow> string \<Rightarrow> string \<Rightarrow> pg \<Rightarrow> bool" where
  "knows_credential E i t db \<longleftrightarrow>
     (\<exists>hid c. sv_pg_uuid E i = Some hid \<and> c \<in> set (t_credentials db) \<and> cr_host_id c = hid \<and> cr_token_hash c = sv_sha_hex E t)"

interpretation agents: credential_validator "validate_credential E" "knows_credential E" pg_ok for E
proof
  show "knows_credential E i t s" if "validate_credential E i t s = (True, s')" for s i t s'
  proof -
    have "\<exists>hid. sv_pg_uuid E i = Some hid \<and> length (filter (\<lambda>c. cr_host_id c = hid \<and> cr_token_hash c = sv_sha_hex E t) (t_credentials s)) = 1"
      using that by (auto simp: validate_credential_def credential_validate_def query_def stmt_def split: if_splits option.splits sum.splits)
    then obtain hid where h: "sv_pg_uuid E i = Some hid"
      and n: "length (filter (\<lambda>c. cr_host_id c = hid \<and> cr_token_hash c = sv_sha_hex E t) (t_credentials s)) = 1" by blast
    from n have "filter (\<lambda>c. cr_host_id c = hid \<and> cr_token_hash c = sv_sha_hex E t) (t_credentials s) \<noteq> []" by force
    then show ?thesis using h by (auto simp: knows_credential_def filter_empty_conv)
  qed
  show "pg_ok (snd (validate_credential E i t s))" if "pg_ok s" for s i t
    using that by (auto simp: validate_credential_def credential_validate_def query_def stmt_def split: option.split sum.split)
qed

text \<open>A request that passes the middleware carries a token that is a live dashboard session, the legacy agent
  token, or the credential of the host its header names; the three are interchangeable on every route.\<close>

theorem middleware_sound:
  assumes "pg_ok db" and "api_auth C (Some (validate_credential E)) now h i a db = (True, a', db')"
  shows "bearer_token h \<noteq> [] \<and> (fst (is_session_token now (bearer_token h) a)
    \<or> ac_legacy_agent_token C \<noteq> [] \<and> secure_equal (bearer_token h) (ac_legacy_agent_token C)
    \<or> i \<noteq> [] \<and> knows_credential E i (bearer_token h) db)"
  by (rule agents.api_auth_sound [OF assms])

definition one_credential :: pg where
  "one_credential = empty_pg\<lparr>t_hosts := [host_row ''h''],
     t_credentials := [\<lparr>cr_host_id = ''h'', cr_token_hash = ''#t'', cr_created_at = 0, cr_rotated_at = 0\<rparr>]\<rparr>"

lemma one_credential_ok: "pg_ok one_credential"
  by (simp add: one_credential_def sample_rows pg_ok_def refs_ok_def table_ok_def empty_pg_def host_ids_def host_statuses_def)

theorem middleware_sound_witness:
  "\<exists>db'. api_auth dash (Some (validate_credential calm_server)) 0 ''Bearer t'' ''h'' new_auth one_credential = (True, new_auth, db')
     \<and> knows_credential calm_server ''h'' (bearer_token ''Bearer t'') one_credential"
proof -
  let ?r = "api_auth dash (Some (validate_credential calm_server)) 0 ''Bearer t'' ''h'' new_auth one_credential"
  have t: "bearer_token ''Bearer t'' = ''t''" by code_simp
  have r: "?r = (True, new_auth, snd (snd ?r))"
    by (simp add: api_auth_def t run_auth validate_credential_def credential_validate_def one_credential_def query_def stmt_def
        calm_server_def empty_pg_def)
  have "\<not> fst (is_session_token 0 ''t'' new_auth)" "ac_legacy_agent_token dash = []" by (simp_all add: run_auth)
  with middleware_sound [OF one_credential_ok r] r t show ?thesis by auto
qed

end
