(* ===== verification/Requests.thy ===== *)
theory Requests
  imports Services
begin

text \<open>
  The request bodies of the API and their translation to the domain
  (\<open>apps/server/internal/api/request.go\<close>). A body is decoded as \<open>json.Decoder\<close> decodes it into the
  struct: absent fields and \<open>null\<close> leave the zero value, an element or field of another type makes the
  whole body an error. A \<open>json.RawMessage\<close> keeps the value it finds, also \<open>null\<close>.
\<close>

section \<open>Decoding\<close>

text \<open>A pointer field: \<open>None\<close> inside is the nil pointer.\<close>

definition dec_ptr :: "(json \<Rightarrow> 'a option) \<Rightarrow> json \<Rightarrow> string \<Rightarrow> 'a option option" where
  "dec_ptr dec = dec_field None (\<lambda>v. map_option Some (dec v))"

definition dec_list :: "(json \<Rightarrow> 'a option) \<Rightarrow> json \<Rightarrow> string \<Rightarrow> 'a list option" where
  "dec_list dec = dec_field [] (as_list dec)"

text \<open>A struct as an element of a list or as the whole body: \<open>null\<close> leaves its zero value.\<close>

definition as_struct :: "'a \<Rightarrow> (json \<Rightarrow> 'a option) \<Rightarrow> json \<Rightarrow> 'a option" where
  "as_struct zero dec j = (if j = JNull then Some zero else if is_object j then dec j else None)"

definition as_body :: "'a \<Rightarrow> (json \<Rightarrow> 'a option) \<Rightarrow> json option \<Rightarrow> 'a option" where
  "as_body zero dec body = (case body of None \<Rightarrow> None | Some j \<Rightarrow> as_struct zero dec j)"

section \<open>Registration and login\<close>

record register_request =
  rr_machine_id :: string
  rr_hostname :: string
  rr_ip_address :: string
  rr_environment :: string
  rr_tags :: "string list"
  rr_agent_version :: string
  rr_metadata :: "json option"

definition empty_register :: register_request where
  "empty_register = \<lparr>rr_machine_id = [], rr_hostname = [], rr_ip_address = [], rr_environment = [], rr_tags = [],
     rr_agent_version = [], rr_metadata = None\<rparr>"

definition decode_register :: "json \<Rightarrow> register_request option" where
  "decode_register j =
     (case (dec_field [] as_str j ''machine_id'', dec_field [] as_str j ''hostname'', dec_field [] as_str j ''ip_address'',
            dec_field [] as_str j ''environment'', dec_list as_str_elem j ''tags'', dec_field [] as_str j ''agent_version'') of
        (Some m, Some h, Some ip, Some env, Some tags, Some v) \<Rightarrow>
          Some \<lparr>rr_machine_id = m, rr_hostname = h, rr_ip_address = ip, rr_environment = env, rr_tags = tags,
                rr_agent_version = v, rr_metadata = json_field j ''metadata''\<rparr>
      | _ \<Rightarrow> None)"

definition register_to_domain :: "register_request \<Rightarrow> host" where
  "register_to_domain r = \<lparr>h_id = [], h_machine_id = rr_machine_id r, h_hostname = rr_hostname r,
     h_ip_address = rr_ip_address r, h_environment = rr_environment r, h_tags = rr_tags r,
     h_registered_at = zero_time, h_last_heartbeat_at = None, h_status = [], h_agent_version = rr_agent_version r,
     h_metadata = rr_metadata r\<rparr>"

record api_enroll_request =
  ar_enrollment_token :: string
  ar_machine_id :: string
  ar_hostname :: string
  ar_ip_address :: string
  ar_agent_version :: string
  ar_metadata :: "json option"

definition empty_enroll :: api_enroll_request where
  "empty_enroll = \<lparr>ar_enrollment_token = [], ar_machine_id = [], ar_hostname = [], ar_ip_address = [],
     ar_agent_version = [], ar_metadata = None\<rparr>"

definition decode_enroll :: "json \<Rightarrow> api_enroll_request option" where
  "decode_enroll j =
     (case (dec_field [] as_str j ''enrollment_token'', dec_field [] as_str j ''machine_id'', dec_field [] as_str j ''hostname'',
            dec_field [] as_str j ''ip_address'', dec_field [] as_str j ''agent_version'') of
        (Some t, Some m, Some h, Some ip, Some v) \<Rightarrow>
          Some \<lparr>ar_enrollment_token = t, ar_machine_id = m, ar_hostname = h, ar_ip_address = ip, ar_agent_version = v,
                ar_metadata = json_field j ''metadata''\<rparr>
      | _ \<Rightarrow> None)"

definition enroll_to_domain :: "api_enroll_request \<Rightarrow> host" where
  "enroll_to_domain r = \<lparr>h_id = [], h_machine_id = ar_machine_id r, h_hostname = ar_hostname r,
     h_ip_address = ar_ip_address r, h_environment = ''production'', h_tags = [], h_registered_at = zero_time,
     h_last_heartbeat_at = None, h_status = [], h_agent_version = ar_agent_version r, h_metadata = ar_metadata r\<rparr>"

definition decode_heartbeat :: "json \<Rightarrow> string option" where
  "decode_heartbeat j = dec_field [] as_str j ''ip_address''"

definition decode_login :: "json \<Rightarrow> (string \<times> string) option" where
  "decode_login j =
     (case (dec_field [] as_str j ''username'', dec_field [] as_str j ''password'') of
        (Some u, Some p) \<Rightarrow> Some (u, p) | _ \<Rightarrow> None)"

section \<open>Discovery\<close>

record api_discovered_job =
  aj_source_type :: string
  aj_schedule :: string
  aj_timezone :: string
  aj_user :: string
  aj_raw_command :: string
  aj_normalized_command :: string
  aj_command_hash :: string
  aj_enabled :: bool
  aj_source_file :: string
  aj_metadata :: "json option"

definition empty_discovered :: api_discovered_job where
  "empty_discovered = \<lparr>aj_source_type = [], aj_schedule = [], aj_timezone = [], aj_user = [], aj_raw_command = [],
     aj_normalized_command = [], aj_command_hash = [], aj_enabled = False, aj_source_file = [], aj_metadata = None\<rparr>"

definition decode_discovered :: "json \<Rightarrow> api_discovered_job option" where
  "decode_discovered j =
     (case (dec_field [] as_str j ''source_type'', dec_field [] as_str j ''schedule'', dec_field [] as_str j ''timezone'',
            dec_field [] as_str j ''user'', dec_field [] as_str j ''raw_command'', dec_field [] as_str j ''normalized_command'',
            dec_field [] as_str j ''command_hash'', dec_field False as_bool j ''enabled'', dec_field [] as_str j ''source_file'') of
        (Some st, Some sc, Some tz, Some us, Some rc, Some nc, Some ch, Some en, Some sf) \<Rightarrow>
          Some \<lparr>aj_source_type = st, aj_schedule = sc, aj_timezone = tz, aj_user = us, aj_raw_command = rc,
                aj_normalized_command = nc, aj_command_hash = ch, aj_enabled = en, aj_source_file = sf,
                aj_metadata = json_field j ''metadata''\<rparr>
      | _ \<Rightarrow> None)"

definition discovered_to_domain :: "api_discovered_job \<Rightarrow> job" where
  "discovered_to_domain j = \<lparr>j_id = [], j_host_id = [], j_source_type = aj_source_type j, j_schedule = aj_schedule j,
     j_timezone = aj_timezone j, j_user = aj_user j, j_raw_command = aj_raw_command j,
     j_normalized_command = aj_normalized_command j, j_command_hash = aj_command_hash j, j_enabled = aj_enabled j,
     j_source_file = aj_source_file j, j_metadata = aj_metadata j, j_created_at = zero_time, j_updated_at = zero_time\<rparr>"

definition decode_discovery :: "json \<Rightarrow> api_discovered_job list option" where
  "decode_discovery j = dec_list (as_struct empty_discovered decode_discovered) j ''jobs''"

section \<open>Executions\<close>

record execution_event =
  ee_job_id :: "string option"
  ee_command_hash :: string
  ee_scheduled_at :: "time option"
  ee_started_at :: "time option"
  ee_finished_at :: "time option"
  ee_duration_seconds :: "real option"
  ee_status :: string
  ee_confidence_score :: real
  ee_detection_sources :: "string list"
  ee_output_text :: "string option"
  ee_evidence :: "json option"

definition empty_event :: execution_event where
  "empty_event = \<lparr>ee_job_id = None, ee_command_hash = [], ee_scheduled_at = None, ee_started_at = None,
     ee_finished_at = None, ee_duration_seconds = None, ee_status = [], ee_confidence_score = 0,
     ee_detection_sources = [], ee_output_text = None, ee_evidence = None\<rparr>"

definition decode_event :: "json \<Rightarrow> execution_event option" where
  "decode_event j =
     (case (dec_ptr as_str j ''job_id'', dec_field [] as_str j ''command_hash'', dec_ptr as_time j ''scheduled_at'',
            dec_ptr as_time j ''detected_started_at'', dec_ptr as_time j ''detected_finished_at'',
            dec_ptr as_num j ''duration_seconds'', dec_field [] as_str j ''status'', dec_field 0 as_num j ''confidence_score'',
            dec_list as_str_elem j ''detection_sources'', dec_ptr as_str j ''output_text'') of
        (Some ji, Some ch, Some sa, Some st, Some fi, Some du, Some stat, Some co, Some so, Some ou) \<Rightarrow>
          Some \<lparr>ee_job_id = ji, ee_command_hash = ch, ee_scheduled_at = sa, ee_started_at = st, ee_finished_at = fi,
                ee_duration_seconds = du, ee_status = stat, ee_confidence_score = co, ee_detection_sources = so,
                ee_output_text = ou, ee_evidence = json_field j ''evidence''\<rparr>
      | _ \<Rightarrow> None)"

text \<open>\<open>mergeJSON\<close> for the one pair it is called with. Decoding \<open>null\<close> makes the map nil and the assignment
  panics: \<open>None\<close>. A value that is no object leaves the map empty.\<close>

definition merge_json :: "json option \<Rightarrow> string \<Rightarrow> json \<Rightarrow> json option" where
  "merge_json existing k v =
     (case existing of
        None \<Rightarrow> Some (json_map [(k, v)])
      | Some JNull \<Rightarrow> None
      | Some (JObj kvs) \<Rightarrow> Some (json_map (kvs @ [(k, v)]))
      | Some _ \<Rightarrow> Some (json_map [(k, v)]))"

definition event_to_domain :: "execution_event \<Rightarrow> execution option" where
  "event_to_domain e =
     (let ex = \<lparr>e_id = [], e_host_id = [], e_job_id = ee_job_id e, e_scheduled_at = ee_scheduled_at e,
                e_started_at = ee_started_at e, e_finished_at = ee_finished_at e,
                e_duration_seconds = ee_duration_seconds e, e_status = ee_status e,
                e_confidence = ee_confidence_score e, e_sources = ee_detection_sources e,
                e_output_text = ee_output_text e, e_evidence = ee_evidence e, e_created_at = zero_time\<rparr>
      in if ee_command_hash e = [] then Some ex
         else map_option (\<lambda>v. ex\<lparr>e_evidence := Some v\<rparr>)
                (merge_json (e_evidence ex) ''command_hash'' (JStr (ee_command_hash e))))"

definition executions_to_domain :: "execution_event list \<Rightarrow> execution list option" where
  "executions_to_domain = traverse event_to_domain"

definition decode_execution_batch :: "json \<Rightarrow> execution_event list option" where
  "decode_execution_batch j = dec_list (as_struct empty_event decode_event) j ''executions''"

section \<open>Commands, tokens and metrics\<close>

definition decode_trigger :: "json \<Rightarrow> string list option" where
  "decode_trigger j = dec_list as_str_elem j ''job_ids''"

definition decode_create_token :: "json \<Rightarrow> (string \<times> string) option" where
  "decode_create_token j =
     (case (dec_field [] as_str j ''label'', dec_field [] as_str j ''server_url'') of
        (Some l, Some u) \<Rightarrow> Some (l, u) | _ \<Rightarrow> None)"

record complete_request =
  cq_status :: string
  cq_message :: string
  cq_started_at :: "time option"
  cq_finished_at :: "time option"
  cq_exit_code :: "int option"

definition empty_complete :: complete_request where
  "empty_complete = \<lparr>cq_status = [], cq_message = [], cq_started_at = None, cq_finished_at = None, cq_exit_code = None\<rparr>"

definition decode_complete :: "json \<Rightarrow> complete_request option" where
  "decode_complete j =
     (case (dec_field [] as_str j ''status'', dec_field [] as_str j ''message'', dec_ptr as_time j ''started_at'',
            dec_ptr as_time j ''finished_at'', dec_ptr as_int j ''exit_code'') of
        (Some st, Some m, Some s, Some f, Some c) \<Rightarrow>
          Some \<lparr>cq_status = st, cq_message = m, cq_started_at = s, cq_finished_at = f, cq_exit_code = c\<rparr>
      | _ \<Rightarrow> None)"

record metric_entry =
  me_metric_name :: string
  me_metric_type :: string
  me_dimensions :: "json option"
  me_value :: real
  me_measured_at :: time
  me_status :: string
  me_evidence :: "json option"

definition empty_metric :: metric_entry where
  "empty_metric = \<lparr>me_metric_name = [], me_metric_type = [], me_dimensions = None, me_value = 0,
     me_measured_at = zero_time, me_status = [], me_evidence = None\<rparr>"

definition decode_metric :: "json \<Rightarrow> metric_entry option" where
  "decode_metric j =
     (case (dec_field [] as_str j ''metric_name'', dec_field [] as_str j ''metric_type'', dec_field 0 as_num j ''value'',
            dec_field zero_time as_time j ''measured_at'', dec_field [] as_str j ''status'') of
        (Some n, Some t, Some v, Some m, Some s) \<Rightarrow>
          Some \<lparr>me_metric_name = n, me_metric_type = t, me_dimensions = json_field j ''dimensions'', me_value = v,
                me_measured_at = m, me_status = s, me_evidence = json_field j ''evidence''\<rparr>
      | _ \<Rightarrow> None)"

definition metric_to_domain :: "metric_entry \<Rightarrow> data_metric" where
  "metric_to_domain m = \<lparr>m_id = [], m_host_id = [], m_name = me_metric_name m, m_type = me_metric_type m,
     m_dimensions = me_dimensions m, m_value = me_value m, m_measured_at = me_measured_at m, m_status = me_status m,
     m_evidence = me_evidence m, m_created_at = zero_time\<rparr>"

definition decode_metric_batch :: "json \<Rightarrow> metric_entry list option" where
  "decode_metric_batch j = dec_list (as_struct empty_metric decode_metric) j ''metrics''"

section \<open>The command hash reaches the service\<close>

lemma kv_get_single [simp]: "kv_get [(k, v)] k' = (if k' = k then Some v else None)"
  by (simp add: kv_get_def)

lemma json_field_merged: "merge_json existing k v = Some j \<Longrightarrow> json_field j k = Some v"
  unfolding merge_json_def json_field_def json_map_def
  by (auto simp: fold_append split: option.splits json.splits)

text \<open>An event with a command hash either panics, exactly when its evidence is \<open>null\<close>, or carries the hash in
  the evidence that the service reads it from.\<close>

theorem event_carries_hash:
  assumes "ee_command_hash e \<noteq> []"
  shows "case event_to_domain e of
      None \<Rightarrow> ee_evidence e = Some JNull
    | Some ex \<Rightarrow> ee_evidence e \<noteq> Some JNull \<and> command_hash_from_evidence (e_evidence ex) = ee_command_hash e"
proof -
  have "(merge_json (ee_evidence e) k v = None) = (ee_evidence e = Some JNull)" for k v
    by (auto simp: merge_json_def split: option.splits json.splits)
  then show ?thesis using assms json_field_merged [of "ee_evidence e" "''command_hash''" "JStr (ee_command_hash e)"]
    by (cases "merge_json (ee_evidence e) ''command_hash'' (JStr (ee_command_hash e))")
      (auto simp: event_to_domain_def Let_def command_hash_from_evidence_def merge_json_def)
qed

theorem event_carries_hash_witness:
  "event_to_domain (empty_event\<lparr>ee_command_hash := ''h'', ee_evidence := Some JNull\<rparr>) = None
   \<and> (\<exists>ex. event_to_domain (empty_event\<lparr>ee_command_hash := ''h''\<rparr>) = Some ex \<and> command_hash_from_evidence (e_evidence ex) = ''h'')"
  using event_carries_hash [of "empty_event\<lparr>ee_command_hash := ''h'', ee_evidence := Some JNull\<rparr>"]
    event_carries_hash [of "empty_event\<lparr>ee_command_hash := ''h''\<rparr>"]
  by (auto simp: empty_event_def split: option.splits)

end
