(* ===== verification/Handlers.thy ===== *)
theory Handlers
  imports Auth Requests Stats
begin

text \<open>
  The HTTP handlers (\<open>apps/server/internal/api/handlers.go\<close>, \<open>response.go\<close>) and the routes
  (\<open>router.go\<close>). A handler maps a request to a status code and a reply, and the state of the server is
  the manager of sessions with the database. A reply holds the values that the code marshals; the
  two that the agent decodes have their JSON form in \<open>enroll_response_json\<close> and \<open>commands_json\<close>.
\<close>

section \<open>Requests and replies\<close>

record api_request =
  aq_authorization :: string
  aq_host_id :: string
  aq_query :: "(string \<times> string) list"
  aq_body :: "json option"
  aq_remote_addr :: string

record stats_response =
  st_total_hosts :: int
  st_active_hosts :: int
  st_total_jobs :: int
  st_active_alerts :: int
  st_recent_failed :: int

record enrollment_token_created =
  tc_id :: string
  tc_label :: string
  tc_payload :: string
  tc_expires_at :: json
  tc_created_at :: json

record enrollment_token_item =
  ti_id :: string
  ti_label :: string
  ti_used :: bool
  ti_used_at :: "json option"
  ti_expires_at :: json
  ti_created_at :: json

datatype reply =
    Error_Reply string
  | OK_Reply
  | Login_Reply string string
  | Enroll_Reply enrollment_result
  | Host_Reply host
  | Hosts_Reply "host list"
  | Commands_Reply "agent_command list"
  | Queued_Reply int "agent_command list"
  | Discovery_Reply int "job list"
  | Accepted_Reply int
  | Executions_Reply "execution list"
  | Metrics_Reply "data_metric list"
  | Jobs_Reply "job list"
  | Job_Reply job "execution list"
  | Alerts_Reply "alert list"
  | Stats_Reply stats_response
  | Window_Reply window_stats
  | Trend_Reply "trend_point list"
  | Job_Rates_Reply "job_success_rate list"
  | Host_Counts_Reply "host_failure_count list"
  | Recovery_Reply "job_recovery_summary list"
  | Token_Reply enrollment_token_created
  | Tokens_Reply "enrollment_token_item list"
  | Panic_Reply

record server =
  srv_auth :: auth
  srv_db :: pg

text \<open>\<open>sc_encode64\<close> and \<open>sc_payload_json\<close> are the base64 encoding and the marshalling of the enrollment
  payload; \<open>sc_json_error\<close> is the text of a decoding error.\<close>

record api_config =
  sc_auth :: auth_config
  sc_static_token :: string
  sc_public_url :: string
  sc_encode64 :: "string \<Rightarrow> string"
  sc_payload_json :: "string \<Rightarrow> string \<Rightarrow> string"
  sc_json_error :: "json option \<Rightarrow> string"

type_synonym handled = "(nat \<times> reply) \<times> server"

definition on_db :: "(pg \<Rightarrow> 'a \<times> pg) \<Rightarrow> server \<Rightarrow> 'a \<times> server" where
  "on_db f s = (case f (srv_db s) of (x, db) \<Rightarrow> (x, s\<lparr>srv_db := db\<rparr>))"

definition write_error :: "nat \<Rightarrow> string \<Rightarrow> server \<Rightarrow> handled" where
  "write_error status msg s = ((status, Error_Reply msg), s)"

definition write_json :: "nat \<Rightarrow> reply \<Rightarrow> server \<Rightarrow> handled" where
  "write_json status r s = ((status, r), s)"

text \<open>A handler that answers with the result of one query, or with 500 and a text.\<close>

definition reply_with :: "string \<Rightarrow> ('a \<Rightarrow> reply) \<Rightarrow> (pg \<Rightarrow> 'a repo_result) \<Rightarrow> server \<Rightarrow> handled" where
  "reply_with msg f q s =
     (case on_db q s of
        (Inl e, s) \<Rightarrow> write_error 500 msg s
      | (Inr x, s) \<Rightarrow> write_json 200 (f x) s)"

definition query_get :: "api_request \<Rightarrow> string \<Rightarrow> string" where
  "query_get q k = (case map_of (aq_query q) k of None \<Rightarrow> [] | Some v \<Rightarrow> v)"

section \<open>Helpers\<close>

text \<open>\<open>net.SplitHostPort\<close>, the host or \<open>None\<close>.\<close>

definition split_host :: "string \<Rightarrow> string option" where
  "split_host hp =
     (if CHR '':'' \<notin> set hp then None
      else if hd hp = CHR ''['' then
        (let rest = tl hp;
             host = takeWhile (\<lambda>c. c \<noteq> CHR '']'') rest;
             after = dropWhile (\<lambda>c. c \<noteq> CHR '']'') rest
         in if length after < 2 \<or> after ! 1 \<noteq> CHR '':'' \<or> CHR '':'' \<in> set (drop 2 after) \<or> CHR ''['' \<in> set rest
               \<or> CHR '']'' \<in> set (drop 1 after) then None else Some host)
      else
        (let host = rev (tl (dropWhile (\<lambda>c. c \<noteq> CHR '':'') (rev hp)))
         in if CHR '':'' \<in> set host \<or> CHR ''['' \<in> set hp \<or> CHR '']'' \<in> set hp then None else Some host))"

definition client_ip :: "api_request \<Rightarrow> string" where
  "client_ip q = (case split_host (aq_remote_addr q) of None \<Rightarrow> aq_remote_addr q | Some ip \<Rightarrow> ip)"

definition parse_pagination :: "api_request \<Rightarrow> int \<times> int" where
  "parse_pagination q =
     ((case parse_int (query_get q ''limit'') of None \<Rightarrow> 50 | Some v \<Rightarrow> if 0 < v \<and> v \<le> 500 then v else 50),
      (case parse_int (query_get q ''offset'') of None \<Rightarrow> 0 | Some v \<Rightarrow> if 0 \<le> v then v else 0))"

text \<open>\<open>strconv.Atoi\<close> with its error ignored: 0 for a text that is no number, and the nearest 64-bit value
  when it is out of range.\<close>

definition atoi_value :: "string \<Rightarrow> int" where
  "atoi_value s =
     (let ds = (if s \<noteq> [] \<and> (hd s = CHR ''-'' \<or> hd s = CHR ''+'') then tl s else s);
          v = (if s \<noteq> [] \<and> hd s = CHR ''-'' then - int (digits_value ds) else int (digits_value ds))
      in if ds = [] \<or> \<not> list_all is_digit ds then 0 else max (- (2 ^ 63)) (min (2 ^ 63 - 1) v))"

definition parse_window :: "time \<Rightarrow> api_request \<Rightarrow> time \<times> string \<times> int" where
  "parse_window now q =
     (let w = query_get q ''window'' in
      if w = ''7d'' then (now - 7 * hours 24, ''7d'', 6 * 3600)
      else if w = ''30d'' then (now - 30 * hours 24, ''30d'', 86400)
      else if w = ''90d'' then (now - 90 * hours 24, ''90d'', 86400)
      else (now - hours 24, ''24h'', 3600))"

section \<open>Login\<close>

definition handle_login :: "server_env \<Rightarrow> api_config \<Rightarrow> api_request \<Rightarrow> server \<Rightarrow> handled" where
  "handle_login E K q s =
     (case as_body ([], []) decode_login (aq_body q) of
        None \<Rightarrow> write_error 400 ''invalid JSON'' s
      | Some (u, p) \<Rightarrow>
          if u = [] \<or> p = [] then write_error 400 ''username and password are required'' s
          else (case on_db (server_now E) s of (t, s) \<Rightarrow>
                case on_db (new_token E) s of (random, s) \<Rightarrow>
                case on_db (server_now E) s of (t', s) \<Rightarrow>
                case login (sc_auth K) t t' random (client_ip q) u p (srv_auth s) of
                  (None, a) \<Rightarrow> write_error 401 ''invalid username or password'' (s\<lparr>srv_auth := a\<rparr>)
                | (Some (tok, name), a) \<Rightarrow> write_json 200 (Login_Reply tok name) (s\<lparr>srv_auth := a\<rparr>)))"

definition handle_logout :: "api_request \<Rightarrow> server \<Rightarrow> handled" where
  "handle_logout q s = write_json 200 OK_Reply (s\<lparr>srv_auth := logout (bearer_token (aq_authorization q)) (srv_auth s)\<rparr>)"

section \<open>Agents\<close>

definition handle_enroll :: "server_env \<Rightarrow> api_config \<Rightarrow> api_request \<Rightarrow> server \<Rightarrow> handled" where
  "handle_enroll E K q s =
     (case as_body empty_enroll decode_enroll (aq_body q) of
        None \<Rightarrow> write_error 400 (''invalid JSON: '' @ sc_json_error K (aq_body q)) s
      | Some r \<Rightarrow>
          if ar_enrollment_token r = [] \<or> ar_machine_id r = [] \<or> ar_hostname r = []
          then write_error 400 ''enrollment_token, machine_id, and hostname are required'' s
          else (case on_db (enroll_agent E (sc_static_token K) (ar_enrollment_token r) (enroll_to_domain r)) s of
                  (Inl e, s) \<Rightarrow>
                    write_error (if error_text E e = ''enrollment token has already been used'' then 409 else 401)
                      (error_text E e) s
                | (Inr result, s) \<Rightarrow> write_json 201 (Enroll_Reply result) s))"

definition handle_register :: "server_env \<Rightarrow> api_config \<Rightarrow> api_request \<Rightarrow> server \<Rightarrow> handled" where
  "handle_register E K q s =
     (case as_body empty_register decode_register (aq_body q) of
        None \<Rightarrow> write_error 400 (''invalid JSON: '' @ sc_json_error K (aq_body q)) s
      | Some r \<Rightarrow>
          if rr_machine_id r = [] \<or> rr_hostname r = [] then write_error 400 ''machine_id and hostname are required'' s
          else (case on_db (register E (register_to_domain r)) s of
                  (Inl e, s) \<Rightarrow> write_error 500 ''registration failed'' s
                | (Inr host, s) \<Rightarrow> write_json 201 (Host_Reply host) s))"

text \<open>A request without \<open>X-Host-ID\<close> is refused before anything else.\<close>

definition with_host :: "(string \<Rightarrow> server \<Rightarrow> handled) \<Rightarrow> api_request \<Rightarrow> server \<Rightarrow> handled" where
  "with_host f q s =
     (if aq_host_id q = [] then write_error 400 ''X-Host-ID header required'' s else f (aq_host_id q) s)"

definition handle_heartbeat :: "server_env \<Rightarrow> api_request \<Rightarrow> server \<Rightarrow> handled" where
  "handle_heartbeat E q = with_host (\<lambda>host_id s.
     let ip = (case as_body [] decode_heartbeat (aq_body q) of None \<Rightarrow> [] | Some ip \<Rightarrow> ip) in
     case on_db (agent_heartbeat E host_id ip) s of
       (Inl e, s) \<Rightarrow> write_error 500 ''heartbeat failed'' s
     | (Inr _, s) \<Rightarrow> write_json 200 OK_Reply s) q"

definition handle_claim :: "server_env \<Rightarrow> api_request \<Rightarrow> server \<Rightarrow> handled" where
  "handle_claim E q = with_host (\<lambda>host_id.
     reply_with ''claim commands failed'' Commands_Reply
       (command_claim_pending E host_id (atoi_value (query_get q ''limit'')))) q"

definition handle_complete :: "server_env \<Rightarrow> string \<Rightarrow> api_request \<Rightarrow> server \<Rightarrow> handled" where
  "handle_complete E i q s =
     (case as_body empty_complete decode_complete (aq_body q) of
        None \<Rightarrow> write_error 400 ''invalid JSON'' s
      | Some r \<Rightarrow>
          (case on_db (complete_command E i (cq_status r) (cq_message r) (cq_started_at r) (cq_finished_at r) (cq_exit_code r)) s of
             (Inl e, s) \<Rightarrow> write_error 400 (error_text E e) s
           | (Inr _, s) \<Rightarrow> write_json 200 OK_Reply s))"

section \<open>Discovery, executions and metrics\<close>

definition handle_discovery :: "server_env \<Rightarrow> api_request \<Rightarrow> server \<Rightarrow> handled" where
  "handle_discovery E q = with_host (\<lambda>host_id s.
     case as_body [] decode_discovery (aq_body q) of
       None \<Rightarrow> write_error 400 ''invalid JSON'' s
     | Some jobs \<Rightarrow>
         (case on_db (process_discovery E host_id (map discovered_to_domain jobs)) s of
            (saved, s) \<Rightarrow> write_json 200 (Discovery_Reply (int (length saved)) saved) s)) q"

text \<open>The panic of \<open>toDomain\<close> is turned into status 500 by the recovering middleware.\<close>

definition handle_batch_executions :: "server_env \<Rightarrow> api_request \<Rightarrow> server \<Rightarrow> handled" where
  "handle_batch_executions E q = with_host (\<lambda>host_id s.
     case as_body [] decode_execution_batch (aq_body q) of
       None \<Rightarrow> write_error 400 ''invalid JSON'' s
     | Some events \<Rightarrow>
         (case executions_to_domain events of
            None \<Rightarrow> write_json 500 Panic_Reply s
          | Some es \<Rightarrow>
              (case on_db (execution_batch E host_id es) s of
                 (saved, s) \<Rightarrow> write_json 200 (Accepted_Reply (int (length saved))) s))) q"

definition handle_list_executions :: "server_env \<Rightarrow> api_request \<Rightarrow> server \<Rightarrow> handled" where
  "handle_list_executions E q s =
     (case parse_pagination q of (limit, offset) \<Rightarrow>
      case (if query_get q ''window'' = [] then (None, s)
            else (case on_db (server_now E) s of (now, s) \<Rightarrow> (Some (fst (parse_window now q)), s))) of
        (since, s) \<Rightarrow>
          reply_with ''list executions failed'' Executions_Reply
            (execution_list_filtered E
               \<lparr>ef_host_id = query_get q ''host_id'', ef_job_id = query_get q ''job_id'',
                ef_status = query_get q ''status'', ef_since = since\<rparr> limit offset) s)"

definition handle_batch_metrics :: "server_env \<Rightarrow> api_request \<Rightarrow> server \<Rightarrow> handled" where
  "handle_batch_metrics E q = with_host (\<lambda>host_id s.
     case as_body [] decode_metric_batch (aq_body q) of
       None \<Rightarrow> write_error 400 ''invalid JSON'' s
     | Some ms \<Rightarrow>
         (case on_db (metric_batch E host_id (map metric_to_domain ms)) s of
            (saved, s) \<Rightarrow> write_json 200 (Accepted_Reply (int (length saved))) s)) q"

definition handle_list_metrics :: "server_env \<Rightarrow> api_request \<Rightarrow> server \<Rightarrow> handled" where
  "handle_list_metrics E q =
     (case parse_pagination q of (limit, offset) \<Rightarrow>
        reply_with ''list metrics failed'' Metrics_Reply (metric_list E limit offset))"

section \<open>Hosts, jobs and alerts\<close>

definition handle_list_hosts :: "server_env \<Rightarrow> server \<Rightarrow> handled" where
  "handle_list_hosts E = reply_with ''list hosts failed'' Hosts_Reply (host_list E)"

definition handle_list_jobs :: "server_env \<Rightarrow> server \<Rightarrow> handled" where
  "handle_list_jobs E = reply_with ''list jobs failed'' Jobs_Reply (job_list E)"

definition handle_get_job :: "server_env \<Rightarrow> string \<Rightarrow> server \<Rightarrow> handled" where
  "handle_get_job E i s =
     (case on_db (get_job E i) s of
        (Inl e, s) \<Rightarrow> write_error 404 ''job not found'' s
      | (Inr j, s) \<Rightarrow>
          (case on_db (execution_list_by_job E i 20) s of
             (r, s) \<Rightarrow> write_json 200 (Job_Reply j (case r of Inl e \<Rightarrow> [] | Inr es \<Rightarrow> es)) s))"

definition handle_trigger :: "server_env \<Rightarrow> string \<Rightarrow> api_request \<Rightarrow> server \<Rightarrow> handled" where
  "handle_trigger E i q s =
     (case as_body [] decode_trigger (aq_body q) of
        None \<Rightarrow> write_error 400 ''invalid JSON'' s
      | Some ids \<Rightarrow>
          if ids = [] then write_error 400 ''job_ids is required'' s
          else (case on_db (enqueue_runs E i ids) s of
                  (Inl e, s) \<Rightarrow> write_error 400 (error_text E e) s
                | (Inr cs, s) \<Rightarrow> write_json 202 (Queued_Reply (int (length cs)) cs) s))"

definition handle_list_alerts :: "server_env \<Rightarrow> api_request \<Rightarrow> server \<Rightarrow> handled" where
  "handle_list_alerts E q =
     (case parse_pagination q of (limit, offset) \<Rightarrow>
        reply_with ''list alerts failed'' Alerts_Reply (alert_list E limit offset))"

section \<open>Statistics\<close>

definition ignore_error :: "'a \<Rightarrow> repo_error + 'a \<Rightarrow> 'a" where
  "ignore_error zero r = (case r of Inl e \<Rightarrow> zero | Inr x \<Rightarrow> x)"

definition handle_stats :: "server_env \<Rightarrow> server \<Rightarrow> handled" where
  "handle_stats E s =
     (case on_db (host_list E) s of (hosts, s) \<Rightarrow>
      case on_db (job_list E) s of (jobs, s) \<Rightarrow>
      case on_db (alert_count_active E) s of (alerts, s) \<Rightarrow>
      case on_db (server_now E) s of (now, s) \<Rightarrow>
      case on_db (get_window_stats E (now - hours 24) ''24h'') s of (ws, s) \<Rightarrow>
        write_json 200 (Stats_Reply
          \<lparr>st_total_hosts = int (length (ignore_error [] hosts)),
           st_active_hosts = count_where (\<lambda>h. h_status h = ''active'') (ignore_error [] hosts),
           st_total_jobs = int (length (ignore_error [] jobs)),
           st_active_alerts = ignore_error 0 alerts,
           st_recent_failed = (case ws of Inl e \<Rightarrow> 0 | Inr w \<Rightarrow> ws_failed w + ws_unknown w)\<rparr>) s)"

definition handle_window_stats :: "server_env \<Rightarrow> api_request \<Rightarrow> server \<Rightarrow> handled" where
  "handle_window_stats E q s =
     (case on_db (server_now E) s of (now, s) \<Rightarrow> case parse_window now q of (since, label, bucket) \<Rightarrow>
        reply_with ''stats query failed'' Window_Reply (get_window_stats E since label) s)"

definition handle_trend :: "server_env \<Rightarrow> api_request \<Rightarrow> server \<Rightarrow> handled" where
  "handle_trend E q s =
     (case on_db (server_now E) s of (now, s) \<Rightarrow> case parse_window now q of (since, label, bucket) \<Rightarrow>
        reply_with ''trend query failed'' Trend_Reply (get_failure_trend E since bucket) s)"

definition handle_job_stats :: "server_env \<Rightarrow> api_request \<Rightarrow> server \<Rightarrow> handled" where
  "handle_job_stats E q s =
     (case on_db (server_now E) s of (now, s) \<Rightarrow> case parse_window now q of (since, label, bucket) \<Rightarrow>
        reply_with ''job stats query failed'' Job_Rates_Reply (get_job_success_rates E since) s)"

definition handle_host_stats :: "server_env \<Rightarrow> api_request \<Rightarrow> server \<Rightarrow> handled" where
  "handle_host_stats E q s =
     (case on_db (server_now E) s of (now, s) \<Rightarrow> case parse_window now q of (since, label, bucket) \<Rightarrow>
        reply_with ''host stats query failed'' Host_Counts_Reply (get_host_failure_counts E since) s)"

definition handle_recovery :: "server_env \<Rightarrow> server \<Rightarrow> handled" where
  "handle_recovery E = reply_with ''recovery stats query failed'' Recovery_Reply (get_job_recovery_stats E)"

section \<open>Enrollment tokens\<close>

definition handle_create_token :: "server_env \<Rightarrow> api_config \<Rightarrow> api_request \<Rightarrow> server \<Rightarrow> handled" where
  "handle_create_token E K q s =
     (case as_body ([], []) decode_create_token (aq_body q) of
        None \<Rightarrow> write_error 400 ''invalid JSON'' s
      | Some (label, url) \<Rightarrow>
          let url = (if url = [] then sc_public_url K else url) in
          if url = []
          then write_error 400 ''server_url is required (set SERVER_PUBLIC_URL or pass server_url in body)'' s
          else (case on_db (generate_enrollment_token E label) s of
                  (Inl e, s) \<Rightarrow> write_error 500 ''failed to generate token'' s
                | (Inr (raw, record), s) \<Rightarrow>
                    write_json 201 (Token_Reply
                      \<lparr>tc_id = et_id record, tc_label = et_label record,
                       tc_payload = sc_encode64 K (sc_payload_json K url raw),
                       tc_expires_at = rfc3339 (et_expires_at record), tc_created_at = rfc3339 (et_created_at record)\<rparr>) s))"

definition token_item :: "enrollment_token \<Rightarrow> enrollment_token_item" where
  "token_item t = \<lparr>ti_id = et_id t, ti_label = et_label t, ti_used = et_used t,
     ti_used_at = map_option rfc3339 (et_used_at t), ti_expires_at = rfc3339 (et_expires_at t),
     ti_created_at = rfc3339 (et_created_at t)\<rparr>"

definition handle_list_tokens :: "server_env \<Rightarrow> server \<Rightarrow> handled" where
  "handle_list_tokens E = reply_with ''list enrollment tokens failed'' (Tokens_Reply \<circ> map token_item) (list_enrollment_tokens E)"

section \<open>Replies that the agent decodes\<close>

definition enroll_response_json :: "enrollment_result \<Rightarrow> json" where
  "enroll_response_json r = JObj
     [(''host_id'', JStr (h_id (er_host r))),
      (''credential'', JObj [(''token'', JStr (er_agent_token r))]),
      (''config'', JObj
        [(''environment'', JStr (er_environment r)), (''tags'', JArr (map JStr (er_tags r))),
         (''heartbeat_interval'', JStr ''30s''), (''discovery_interval'', JStr ''5m''),
         (''process_scan_interval'', JStr ''30s''), (''report_interval'', JStr ''1m''),
         (''command_poll_interval'', JStr ''15s'')])]"

definition omit_empty :: "string \<Rightarrow> ('a \<Rightarrow> json) \<Rightarrow> 'a option \<Rightarrow> (string \<times> json) list" where
  "omit_empty k f v = (case v of None \<Rightarrow> [] | Some x \<Rightarrow> [(k, f x)])"

definition command_json :: "agent_command \<Rightarrow> json" where
  "command_json c = JObj
     ([(''id'', JStr (c_id c)), (''host_id'', JStr (c_host_id c)), (''job_id'', JStr (c_job_id c)),
       (''command_hash'', JStr (c_command_hash c)), (''raw_command'', JStr (c_raw_command c)),
       (''schedule'', JStr (c_schedule c)), (''status'', JStr (c_status c))]
      @ (if c_message c = [] then [] else [(''message'', JStr (c_message c))])
      @ omit_empty ''exit_code'' (\<lambda>n. JNum (of_int n)) (c_exit_code c)
      @ [(''requested_at'', JTime (c_requested_at c))]
      @ omit_empty ''dispatched_at'' JTime (c_dispatched_at c) @ omit_empty ''started_at'' JTime (c_started_at c)
      @ omit_empty ''finished_at'' JTime (c_finished_at c))"

definition commands_json :: "agent_command list \<Rightarrow> json" where
  "commands_json cs = JObj [(''commands'', JArr (map command_json cs))]"

section \<open>Routes\<close>

datatype route =
    Login_Route | Enroll_Route | Logout_Route | Register_Route | Heartbeat_Route | Claim_Route
  | Complete_Route string | Discovery_Route | Batch_Executions_Route | Executions_Route | Batch_Metrics_Route
  | Metrics_Route | Hosts_Route | Trigger_Route string | Jobs_Route | Job_Route string | Alerts_Route | Stats_Route
  | Window_Route | Trend_Route | Job_Stats_Route | Host_Stats_Route | Recovery_Route | Create_Token_Route | Tokens_Route

definition fixed_routes :: "((string \<times> string) \<times> route) list" where
  "fixed_routes =
     [((''POST'', ''/api/v1/auth/login''), Login_Route), ((''POST'', ''/api/v1/agents/enroll''), Enroll_Route),
      ((''POST'', ''/api/v1/auth/logout''), Logout_Route), ((''POST'', ''/api/v1/agents/register''), Register_Route),
      ((''POST'', ''/api/v1/agents/heartbeat''), Heartbeat_Route), ((''GET'', ''/api/v1/agents/commands''), Claim_Route),
      ((''POST'', ''/api/v1/jobs/discovery''), Discovery_Route),
      ((''POST'', ''/api/v1/executions/batch''), Batch_Executions_Route), ((''GET'', ''/api/v1/executions''), Executions_Route),
      ((''POST'', ''/api/v1/metrics/batch''), Batch_Metrics_Route), ((''GET'', ''/api/v1/metrics''), Metrics_Route),
      ((''GET'', ''/api/v1/hosts''), Hosts_Route), ((''GET'', ''/api/v1/jobs''), Jobs_Route),
      ((''GET'', ''/api/v1/alerts''), Alerts_Route), ((''GET'', ''/api/v1/stats''), Stats_Route),
      ((''GET'', ''/api/v1/stats/failures''), Window_Route), ((''GET'', ''/api/v1/stats/trend''), Trend_Route),
      ((''GET'', ''/api/v1/stats/jobs''), Job_Stats_Route), ((''GET'', ''/api/v1/stats/hosts''), Host_Stats_Route),
      ((''GET'', ''/api/v1/stats/recovery''), Recovery_Route),
      ((''POST'', ''/api/v1/enrollment-tokens''), Create_Token_Route), ((''GET'', ''/api/v1/enrollment-tokens''), Tokens_Route)]"

text \<open>The routes with an identifier in the path; a parameter is a segment that is not empty.\<close>

definition param_route :: "string \<Rightarrow> string list \<Rightarrow> route option" where
  "param_route method segs =
     (if length segs = 5 \<and> take 4 segs = [[], ''api'', ''v1'', ''jobs''] \<and> method = ''GET'' \<and> segs ! 4 \<noteq> []
      then Some (Job_Route (segs ! 4))
      else if length segs = 7 \<and> take 4 segs = [[], ''api'', ''v1'', ''hosts''] \<and> drop 5 segs = [''commands'', ''run'']
              \<and> method = ''POST'' \<and> segs ! 4 \<noteq> []
      then Some (Trigger_Route (segs ! 4))
      else if length segs = 7 \<and> take 5 segs = [[], ''api'', ''v1'', ''agents'', ''commands''] \<and> drop 6 segs = [''complete'']
              \<and> method = ''POST'' \<and> segs ! 5 \<noteq> []
      then Some (Complete_Route (segs ! 5))
      else None)"

definition match_route :: "string \<Rightarrow> string \<Rightarrow> route option" where
  "match_route method path =
     (case map_of fixed_routes (method, path) of
        Some r \<Rightarrow> Some r
      | None \<Rightarrow> param_route method (split_on CHR ''/'' path))"

definition public_route :: "route \<Rightarrow> bool" where
  "public_route r \<longleftrightarrow> r = Login_Route \<or> r = Enroll_Route"

fun handle :: "server_env \<Rightarrow> api_config \<Rightarrow> route \<Rightarrow> api_request \<Rightarrow> server \<Rightarrow> handled" where
  "handle E K Login_Route q s = handle_login E K q s"
| "handle E K Enroll_Route q s = handle_enroll E K q s"
| "handle E K Logout_Route q s = handle_logout q s"
| "handle E K Register_Route q s = handle_register E K q s"
| "handle E K Heartbeat_Route q s = handle_heartbeat E q s"
| "handle E K Claim_Route q s = handle_claim E q s"
| "handle E K (Complete_Route i) q s = handle_complete E i q s"
| "handle E K Discovery_Route q s = handle_discovery E q s"
| "handle E K Batch_Executions_Route q s = handle_batch_executions E q s"
| "handle E K Executions_Route q s = handle_list_executions E q s"
| "handle E K Batch_Metrics_Route q s = handle_batch_metrics E q s"
| "handle E K Metrics_Route q s = handle_list_metrics E q s"
| "handle E K Hosts_Route q s = handle_list_hosts E s"
| "handle E K (Trigger_Route i) q s = handle_trigger E i q s"
| "handle E K Jobs_Route q s = handle_list_jobs E s"
| "handle E K (Job_Route i) q s = handle_get_job E i s"
| "handle E K Alerts_Route q s = handle_list_alerts E q s"
| "handle E K Stats_Route q s = handle_stats E s"
| "handle E K Window_Route q s = handle_window_stats E q s"
| "handle E K Trend_Route q s = handle_trend E q s"
| "handle E K Job_Stats_Route q s = handle_job_stats E q s"
| "handle E K Host_Stats_Route q s = handle_host_stats E q s"
| "handle E K Recovery_Route q s = handle_recovery E s"
| "handle E K Create_Token_Route q s = handle_create_token E K q s"
| "handle E K Tokens_Route q s = handle_list_tokens E s"

definition serve :: "server_env \<Rightarrow> api_config \<Rightarrow> route \<Rightarrow> api_request \<Rightarrow> server \<Rightarrow> handled" where
  "serve E K r q s =
     (if public_route r then handle E K r q s
      else (case on_db (server_now E) s of (now, s) \<Rightarrow>
            case api_auth (sc_auth K) (Some (validate_credential E)) now (aq_authorization q) (aq_host_id q) (srv_auth s) (srv_db s) of
              (ok, a, db) \<Rightarrow>
                let s = \<lparr>srv_auth = a, srv_db = db\<rparr> in
                if ok then handle E K r q s else write_error 401 ''invalid or missing token'' s))"

end
