(* ===== verification/Server.thy ===== *)
theory Server
  imports Handlers Alerting
begin

text \<open>
  The server as a whole: whatever a request asks for, it changes the database only through the statements
  of the repositories. The locale \<open>db_invariant\<close> states that once for any property that these
  statements keep; it is interpreted for the integrity of the tables, for the alerts, which no request
  touches, and for the used enrollment tokens, which stay used.
\<close>

section \<open>What every request keeps\<close>

named_theorems keeps \<open>operations that keep the invariant\<close>

locale db_invariant =
  fixes E :: server_env and inv :: "pg \<Rightarrow> bool"
  assumes calls: "inv (db\<lparr>pg_calls := k\<rparr>) = inv db"
    and host_upsert: "inv db \<Longrightarrow> inv (snd (host_upsert E h db))"
    and host_upsert_state: "inv db \<Longrightarrow> inv (snd (host_upsert_state E i st hb n db))"
    and host_update_heartbeat: "inv db \<Longrightarrow> inv (snd (host_update_heartbeat E i ip db))"
    and job_upsert: "inv db \<Longrightarrow> inv (snd (job_upsert E j db))"
    and job_upsert_state: "inv db \<Longrightarrow> inv (snd (job_upsert_state E i hi st lr ne n db))"
    and command_insert: "inv db \<Longrightarrow> inv (snd (command_insert E c db))"
    and command_claim_pending: "inv db \<Longrightarrow> inv (snd (command_claim_pending E i l db))"
    and command_complete: "inv db \<Longrightarrow> inv (snd (command_complete E i st m s f x db))"
    and credential_upsert: "inv db \<Longrightarrow> inv (snd (credential_upsert E i th db))"
    and token_create: "inv db \<Longrightarrow> inv (snd (token_create E th lb ex db))"
    and token_mark_used: "inv db \<Longrightarrow> inv (snd (token_mark_used E th db))"
    and execution_insert: "inv db \<Longrightarrow> inv (snd (execution_insert E e db))"
    and metric_insert: "inv db \<Longrightarrow> inv (snd (metric_insert E me db))"
begin

lemma inv_bump [simp]: "inv (bump db) = inv db"
  by (simp add: bump_def calls)

lemma after: "f db = (x, db') \<Longrightarrow> inv (snd (f db)) \<Longrightarrow> inv db'"
  by simp

lemma wrap_result_snd [simp]: "snd (wrap_result E p r) = snd r"
  by (auto simp: wrap_result_def split: prod.split sum.split)

lemma reads [keeps]:
  assumes "inv db"
  shows "inv (snd (host_list E db))" "inv (snd (job_list E db))" "inv (snd (alert_list E l n db))"
    "inv (snd (alert_count_active E db))" "inv (snd (metric_list E l n db))" "inv (snd (token_list E db))"
    "inv (snd (job_get_by_id E i db))" "inv (snd (execution_list_by_job E i l db))"
    "inv (snd (execution_list_filtered E f l n db))" "inv (snd (count_recent_failures E i db))"
    "inv (snd (token_found E th db))" "inv (snd (server_now E db))" "inv (snd (new_token E db))"
  using assms
  by (simp_all add: host_list_def job_list_def alert_list_def alert_count_active_def metric_list_def token_list_def
      job_get_by_id_def execution_list_by_job_def execution_list_filtered_def count_recent_failures_def token_found_def
      server_now_def new_token_def query_db split: option.split)

lemma statistics [keeps]:
  assumes "inv db"
  shows "inv (snd (get_window_stats E t l db))" "inv (snd (get_failure_trend E t w db))"
    "inv (snd (get_job_success_rates E t db))" "inv (snd (get_host_failure_counts E t db))"
    "inv (snd (get_job_recovery_stats E db))"
  using assms by (simp_all add: get_window_stats_def get_failure_trend_def get_job_success_rates_def
      get_host_failure_counts_def get_job_recovery_stats_def query_db)

lemma get_job_keeps [keeps]: "inv db \<Longrightarrow> inv (snd (get_job E i db))"
  using reads(7) [of db i] by (auto simp: get_job_def split: prod.split sum.split)

lemma register_keeps [keeps]: "inv db \<Longrightarrow> inv (snd (register E h db))"
  using host_upsert [of db h]
  by (auto simp: register_def server_now_def host_upsert_state split: prod.splits sum.splits)

lemma consume_keeps: "inv db \<Longrightarrow> inv (snd (consume_enrollment_token E st t db))"
proof -
  assume "inv db"
  moreover have "inv (snd (token_consume E th db'))" if i: "inv db'" for th db'
  proof -
    obtain n y where "token_check E th db' = (y, db'\<lparr>pg_calls := n\<rparr>)"
      using token_check_tables [of E th db'] by (metis prod.collapse)
    then show ?thesis using i by (auto simp: token_consume_def token_mark_used calls split: sum.split)
  qed
  ultimately show ?thesis using reads(11) [of db "sv_sha_hex E t"]
    by (auto simp: consume_enrollment_token_def split: prod.splits sum.splits bool.splits)
qed

lemma enroll_keeps [keeps]: "inv db \<Longrightarrow> inv (snd (enroll_agent E st t h db))"
  using consume_keeps [of db st t]
  by (auto simp: enroll_agent_def new_token_def split: prod.split sum.split option.split)
    (metis after register_keeps credential_upsert inv_bump)+

lemma generate_keeps [keeps]: "inv db \<Longrightarrow> inv (snd (generate_enrollment_token E l db))"
  by (auto simp: generate_enrollment_token_def server_now_def new_token_def split: prod.split sum.split option.split)
    (metis after token_create inv_bump)+

lemma heartbeat_keeps [keeps]: "inv db \<Longrightarrow> inv (snd (agent_heartbeat E i ip db))"
  using host_update_heartbeat [of db i ip]
  by (auto simp: agent_heartbeat_def server_now_def host_upsert_state split: prod.splits sum.splits)

lemma complete_keeps [keeps]: "inv db \<Longrightarrow> inv (snd (complete_command E i st m s f c db))"
  by (simp add: complete_command_def command_complete)

lemma enqueue_keeps [keeps]: "inv db \<Longrightarrow> inv (snd (enqueue_runs E h ids db))"
proof -
  have "inv db \<Longrightarrow> inv (snd (enqueue_loop E h ids res db))" for res db
  proof (induction ids arbitrary: res db)
    case (Cons i ids)
    then show ?case using reads(7) [of db i]
      by (auto split: prod.split sum.split) (metis after command_insert)+
  qed simp
  then show "inv db \<Longrightarrow> ?thesis" by (simp add: enqueue_runs_def)
qed

lemma discovery_keeps_inv [keeps]: "inv db \<Longrightarrow> inv (snd (process_discovery E h js db))"
  unfolding process_discovery_def discovery_loop_fold by (rule fold_inv [of _ inv]) (rule job_upsert)

lemma update_job_state_keeps: "inv db \<Longrightarrow> inv (snd (update_job_state E e db))"
proof (cases "e_job_id e")
  case (Some jid)
  assume "inv db"
  then have "inv (snd (count_recent_failures E jid db))" by (rule reads)
  then show ?thesis using Some by (auto simp: update_job_state_def job_upsert_state split: prod.split sum.split)
qed (simp add: update_job_state_def)

lemma execution_step_keeps: "inv db \<Longrightarrow> inv (snd (execution_step E h e db))"
proof -
  assume i: "inv db"
  obtain e1 db1 where l: "link_job E h (e\<lparr>e_host_id := h\<rparr>) db = (e1, db1)" by fastforce
  have "inv db1" using link_job_pg(1) [OF l] i by (auto simp: calls)
  then have "inv (snd (execution_insert E e1 db1))" by (rule execution_insert)
  then show ?thesis
    using l by (auto simp: execution_step_def update_job_state_keeps split: prod.split sum.split)
qed

lemma execution_batch_keeps [keeps]: "inv db \<Longrightarrow> inv (snd (execution_batch E h es db))"
proof -
  have "inv db \<Longrightarrow> inv (snd (execution_loop E h es res db))" for res db
  proof (induction es arbitrary: res db)
    case (Cons e es)
    then show ?case using execution_step_keeps [of db h e]
      by (auto simp: execution_loop_step simp del: execution_loop.simps split: prod.split)
  qed simp
  then show "inv db \<Longrightarrow> ?thesis" by (simp add: execution_batch_def)
qed

lemma metric_batch_keeps [keeps]: "inv db \<Longrightarrow> inv (snd (metric_batch E h ms db))"
proof -
  have "inv db \<Longrightarrow> inv (snd (metric_loop E h ms res db))" for res db
  proof (induction ms arbitrary: res db)
    case (Cons m ms)
    then show ?case using metric_insert [of db "m\<lparr>m_host_id := h\<rparr>"] by (auto split: prod.split sum.split)
  qed simp
  then show "inv db \<Longrightarrow> ?thesis" by (simp add: metric_batch_def)
qed

lemma validate_keeps [keeps]: "inv db \<Longrightarrow> inv (snd (validate_credential E i t db))"
  by (auto simp: validate_credential_def credential_validate_def query_def stmt_def split: option.split sum.split)

lemma claim_keeps [keeps]: "inv db \<Longrightarrow> inv (snd (command_claim_pending E i l db))"
  by (rule command_claim_pending)

lemma on_db_keeps: "(\<And>db. inv db \<Longrightarrow> inv (snd (f db))) \<Longrightarrow> inv (srv_db s) \<Longrightarrow> on_db f s = (x, s') \<Longrightarrow> inv (srv_db s')"
  by (auto simp: on_db_def split: prod.splits) (metis snd_conv)

lemma reply_with_keeps:
  "(\<And>db. inv db \<Longrightarrow> inv (snd (f db))) \<Longrightarrow> inv (srv_db s) \<Longrightarrow> inv (srv_db (snd (reply_with msg g f s)))"
  by (auto simp: reply_with_def write_error_def write_json_def split: prod.split sum.split dest!: on_db_keeps [rotated 2])

lemmas handler_defs = handle_login_def handle_logout_def handle_enroll_def handle_register_def handle_heartbeat_def
  handle_claim_def handle_complete_def handle_discovery_def handle_batch_executions_def handle_list_executions_def
  handle_batch_metrics_def handle_list_metrics_def handle_list_hosts_def handle_list_jobs_def handle_get_job_def
  handle_trigger_def handle_list_alerts_def handle_stats_def handle_window_stats_def handle_trend_def
  handle_job_stats_def handle_host_stats_def handle_recovery_def handle_create_token_def handle_list_tokens_def
  list_enrollment_tokens_def

lemma handle_keeps: "inv (srv_db s) \<Longrightarrow> inv (srv_db (snd (handle E K r q s)))"
  by (cases r) (auto simp: handler_defs with_host_def write_error_def write_json_def Let_def
      intro!: reply_with_keeps keeps
      elim!: on_db_keeps [rotated 2]
      split: option.split prod.split sum.split if_splits)

lemma serve_keeps: "inv (srv_db s) \<Longrightarrow> inv (srv_db (snd (serve E K r q s)))"
proof (cases "public_route r")
  case False
  assume "inv (srv_db s)"
  obtain now s1 where n: "on_db (server_now E) s = (now, s1)" by fastforce
  obtain ok a db where v: "api_auth (sc_auth K) (Some (validate_credential E)) now (aq_authorization q) (aq_host_id q)
      (srv_auth s1) (srv_db s1) = (ok, a, db)" by (metis prod_cases3)
  have "inv (srv_db s1)" using on_db_keeps [OF reads(12) \<open>inv (srv_db s)\<close> n] .
  then have "inv db" using v validate_keeps [of "srv_db s1" "aq_host_id q" "bearer_token (aq_authorization q)"]
    by (auto simp: api_auth_def Let_def split: prod.splits bool.splits if_splits)
  then show ?thesis using False n v handle_keeps [of "\<lparr>srv_auth = a, srv_db = db\<rparr>"]
    by (simp add: serve_def Let_def write_error_def)
qed (simp add: serve_def handle_keeps)

end

interpretation tables: db_invariant E pg_ok for E
  by unfold_locales (simp_all add: inventory_ok events_ok)

text \<open>No statement that a request makes writes alerts, and only the two on tokens write tokens.\<close>

lemma frames:
  "t_alerts (snd (host_upsert E h db)) = t_alerts db \<and> t_tokens (snd (host_upsert E h db)) = t_tokens db"
  "t_alerts (snd (host_upsert_state E i st hb n db)) = t_alerts db \<and> t_tokens (snd (host_upsert_state E i st hb n db)) = t_tokens db"
  "t_alerts (snd (host_update_heartbeat E i ip db)) = t_alerts db \<and> t_tokens (snd (host_update_heartbeat E i ip db)) = t_tokens db"
  "t_alerts (snd (job_upsert E j db)) = t_alerts db \<and> t_tokens (snd (job_upsert E j db)) = t_tokens db"
  "t_alerts (snd (job_upsert_state E i hi st lr ne n db)) = t_alerts db \<and> t_tokens (snd (job_upsert_state E i hi st lr ne n db)) = t_tokens db"
  "t_alerts (snd (command_insert E c db)) = t_alerts db \<and> t_tokens (snd (command_insert E c db)) = t_tokens db"
  "t_alerts (snd (command_claim_pending E i l db)) = t_alerts db \<and> t_tokens (snd (command_claim_pending E i l db)) = t_tokens db"
  "t_alerts (snd (command_complete E i st msg sa fa x db)) = t_alerts db \<and> t_tokens (snd (command_complete E i st msg sa fa x db)) = t_tokens db"
  "t_alerts (snd (credential_upsert E i th db)) = t_alerts db \<and> t_tokens (snd (credential_upsert E i th db)) = t_tokens db"
  "t_alerts (snd (execution_insert E e db)) = t_alerts db \<and> t_tokens (snd (execution_insert E e db)) = t_tokens db"
  "t_alerts (snd (metric_insert E me db)) = t_alerts db \<and> t_tokens (snd (metric_insert E me db)) = t_tokens db"
  "t_alerts (snd (token_create E th lb ex db)) = t_alerts db" "t_alerts (snd (token_mark_used E th db)) = t_alerts db"
  by (auto simp: host_upsert_def host_upsert_state_def host_update_heartbeat_def job_upsert_def job_upsert_state_def
      command_insert_def command_claim_pending_def command_complete_def credential_upsert_def execution_insert_def
      metric_insert_def token_create_def token_mark_used_def stmt_def Let_def
      split: option.splits prod.splits sum.splits if_splits simp del: upsert_row.simps)

interpretation alerts_frame: db_invariant E "\<lambda>db. t_alerts db = as" for E as
  by unfold_locales (simp_all add: frames)

definition token_spent :: "string \<Rightarrow> pg \<Rightarrow> bool" where
  "token_spent th db \<longleftrightarrow> (\<exists>t \<in> set (t_tokens db). et_token_hash t = th \<and> et_used t)"

lemma token_spent_create: "token_spent th db \<Longrightarrow> token_spent th (snd (token_create E th' lb ex db))"
  by (auto simp: token_spent_def token_create_def stmt_def Let_def)

lemma token_spent_mark: "token_spent th db \<Longrightarrow> token_spent th (snd (token_mark_used E th' db))"
proof -
  assume "token_spent th db"
  then obtain t where t: "t \<in> set (t_tokens db)" "et_token_hash t = th" "et_used t" by (auto simp: token_spent_def)
  have "token_spent th (db\<lparr>t_tokens := update_where (\<lambda>t. et_token_hash t = th') (use_token now) (t_tokens db)\<rparr>)" for now
    using t unfolding token_spent_def
    by (intro bexI [of _ "if et_token_hash t = th' then use_token now t else t"]) (auto simp: update_where_def use_token_def)
  then show ?thesis using \<open>token_spent th db\<close> by (simp add: token_mark_used_def stmt_def) (simp add: token_spent_def)
qed

interpretation spent: db_invariant E "token_spent th" for E th
proof
  have same: "t_tokens db' = t_tokens db \<Longrightarrow> token_spent th db \<Longrightarrow> token_spent th db'" for db db'
    by (simp add: token_spent_def)
  show "token_spent th (db\<lparr>pg_calls := k\<rparr>) = token_spent th db" for db k by (simp add: token_spent_def)
qed (simp_all add: token_spent_create token_spent_mark, simp_all add: token_spent_def frames)

text \<open>The evaluator adds three statements.\<close>

locale evaluator_invariant = db_invariant +
  assumes mark_stale_hosts: "inv db \<Longrightarrow> inv (snd (mark_stale_hosts E d db))"
    and alert_insert: "inv db \<Longrightarrow> inv (snd (alert_insert E a db))"
    and alert_resolve: "inv db \<Longrightarrow> inv (snd (alert_resolve E tt i rule db))"
begin

lemma fire_keeps: "inv db \<Longrightarrow> inv (fire_or_update E a db)"
proof -
  assume i: "inv db"
  obtain y db1 where g: "alert_get_active E (a_target_type a) (a_target_id a) (a_rule_name a) db = (y, db1)" by fastforce
  have "db1 = db \<or> db1 = bump db"
    using g by (auto simp: alert_get_active_def query_def stmt_def split: option.splits sum.splits if_splits repo_error.splits)
  then have "inv db1" using i by auto
  then show ?thesis using g by (auto simp: fire_or_update_def alert_insert split: sum.split option.split)
qed

lemma check_host_keeps: "inv db \<Longrightarrow> inv (check_host E h db)"
proof -
  assume i: "inv db"
  obtain st db1 where g: "is_stale E h db = (st, db1)" by fastforce
  then have "inv db1" using i by (auto simp: is_stale_def server_now_def split: if_splits option.splits)
  then show ?thesis using g by (simp add: check_host_def fire_keeps alert_resolve)
qed

lemma check_job_keeps: "inv db \<Longrightarrow> inv (check_job E j db)"
  using reads(10) [of db "j_id j"] by (auto simp: check_job_def fire_keeps alert_resolve split: prod.split sum.split)

lemma stale_keeps: "inv db \<Longrightarrow> inv (check_stale_heartbeats E db)"
  unfolding check_stale_heartbeats_def
  by (auto split: prod.split sum.split intro!: fold_inv [of _ inv] check_host_keeps)
    (metis after mark_stale_hosts reads(1))+

lemma run_all_keeps: "inv db \<Longrightarrow> inv (run_all_rules E db)"
  unfolding run_all_rules_def check_repeated_failures_def
  by (auto split: prod.split sum.split intro!: fold_inv [of _ inv] check_job_keeps) (metis after stale_keeps reads(2))+

end

interpretation tables_evaluator: evaluator_invariant E pg_ok for E
  by unfold_locales (simp_all add: inventory_ok events_ok)

lemma evaluator_frames:
  "t_tokens (snd (mark_stale_hosts E d db)) = t_tokens db" "t_tokens (snd (alert_insert E a db)) = t_tokens db"
  "t_tokens (snd (alert_resolve E tt i rule db)) = t_tokens db"
  by (auto simp: mark_stale_hosts_def alert_insert_def alert_resolve_def stmt_def Let_def split: option.split)

interpretation spent_evaluator: evaluator_invariant E "token_spent th" for E th
  by unfold_locales (simp_all add: token_spent_def evaluator_frames)

interpretation unique: db_invariant E alerts_unique for E
proof
  show "alerts_unique (db\<lparr>pg_calls := k\<rparr>) = alerts_unique db" for db k
    using unique_cong [of "db\<lparr>pg_calls := k\<rparr>" db] unique_cong [of db "db\<lparr>pg_calls := k\<rparr>"] by auto
qed (erule unique_cong [rotated], simp add: frames)+

section \<open>Runs of the server\<close>

text \<open>The server serves requests one after the other, and between them the evaluator and the cleanup run;
  a request brings its own environment, so that any statement of any request may fail.\<close>

datatype server_event =
    Request server_env route api_request
  | Evaluate server_env
  | Clean time

inductive server_run :: "api_config \<Rightarrow> server \<Rightarrow> server_event list \<Rightarrow> server \<Rightarrow> bool" for K s where
  server_start: "server_run K s [] s"
| server_request: "server_run K s evs s1 \<Longrightarrow> serve E K r q s1 = (reply, s2) \<Longrightarrow> server_run K s (evs @ [Request E r q]) s2"
| server_evaluate: "server_run K s evs s1 \<Longrightarrow>
    server_run K s (evs @ [Evaluate E]) (s1\<lparr>srv_db := run_all_rules E (srv_db s1)\<rparr>)"
| server_clean: "server_run K s evs s1 \<Longrightarrow> server_run K s (evs @ [Clean t]) (s1\<lparr>srv_auth := cleanup t (srv_auth s1)\<rparr>)"

definition fresh_server :: server where
  "fresh_server = \<lparr>srv_auth = new_auth, srv_db = empty_pg\<rparr>"

lemma handle_auth_ok: "auth_ok (srv_auth s) \<Longrightarrow> auth_ok (srv_auth (snd (handle E K r q s)))"
proof -
  assume ok: "auth_ok (srv_auth s)"
  have db: "on_db f s = (x, s') \<Longrightarrow> auth_ok (srv_auth s) \<Longrightarrow> auth_ok (srv_auth s')" for f :: "pg \<Rightarrow> 'x \<times> pg" and s x s'
    by (auto simp: on_db_def split: prod.splits)
  have re: "auth_ok (srv_auth s) \<Longrightarrow> auth_ok (srv_auth (snd (reply_with msg g f s)))" for msg f s and g :: "'x \<Rightarrow> reply"
    by (auto simp: reply_with_def on_db_def write_error_def write_json_def split: prod.split sum.split)
  have lo: "login C t t' rd ip u p a = (x, a') \<Longrightarrow> auth_ok a \<Longrightarrow> auth_ok a'" for C t t' rd ip u p a x a'
    by (rule auth_ok_step [OF step_login])
  have out: "auth_ok a \<Longrightarrow> auth_ok (logout tok a)" for a tok by (rule auth_ok_step [OF step_logout])
  show ?thesis using ok
    by (cases r) (auto simp: tables.handler_defs with_host_def write_error_def write_json_def Let_def on_db_def reply_with_def
        intro: lo out split: option.split prod.split sum.split if_splits)
qed

lemma serve_auth_ok: "auth_ok (srv_auth s) \<Longrightarrow> auth_ok (srv_auth (snd (serve E K r q s)))"
proof (cases "public_route r")
  case False
  assume ok: "auth_ok (srv_auth s)"
  obtain now s1 where n: "on_db (server_now E) s = (now, s1)" by fastforce
  obtain b a db where v: "api_auth (sc_auth K) (Some (validate_credential E)) now (aq_authorization q) (aq_host_id q)
      (srv_auth s1) (srv_db s1) = (b, a, db)" by (metis prod_cases3)
  have "auth_ok (srv_auth s1)" using n ok by (auto simp: on_db_def split: prod.splits)
  then have "auth_ok (snd (is_session_token now (bearer_token (aq_authorization q)) (srv_auth s1)))"
    by (rule auth_ok_step [OF step_check])
  then have "auth_ok a" using v \<open>auth_ok (srv_auth s1)\<close>
    by (auto simp: api_auth_def Let_def split: prod.splits bool.splits if_splits)
  then show ?thesis using False n v handle_auth_ok [of "\<lparr>srv_auth = a, srv_db = db\<rparr>"]
    by (simp add: serve_def Let_def write_error_def)
qed (simp add: serve_def handle_auth_ok)

lemma server_run_inv:
  assumes "server_run K s evs s'" and "P (srv_db s)"
    and "\<And>E r q s. P (srv_db s) \<Longrightarrow> P (srv_db (snd (serve E K r q s)))" and "\<And>E db. P db \<Longrightarrow> P (run_all_rules E db)"
  shows "P (srv_db s')"
  using assms(1)
proof induction
  case (server_request evs s1 E r q reply s2)
  then show ?case using assms(3) [of s1 E r q] by simp
qed (use assms in simp_all)

lemma server_run_auth: "server_run K s evs s' \<Longrightarrow> auth_ok (srv_auth s) \<Longrightarrow> auth_ok (srv_auth s')"
proof (induction rule: server_run.induct)
  case (server_request evs s1 E r q reply s2)
  then show ?case using serve_auth_ok [of s1 E K r q] by simp
next
  case (server_clean evs s1 t)
  then show ?case using auth_ok_step [OF step_cleanup] by simp
qed simp_all

lemma server_run_ok: "server_run K s evs s' \<Longrightarrow> pg_ok (srv_db s) \<Longrightarrow> pg_ok (srv_db s')"
  by (rule server_run_inv [where P = pg_ok]) (auto intro: tables.serve_keeps tables_evaluator.run_all_keeps)

text \<open>C3. In every state the server can reach from an empty database, whatever requests it gets and whichever
  statements fail, the constraints of all tables hold, no target has two active alerts for one rule, and
  the maps of the sessions and the login attempts are well formed.\<close>

theorem reachable_ok:
  assumes "server_run K fresh_server evs s"
  shows "pg_ok (srv_db s) \<and> (\<forall>k. active_count k (srv_db s) \<le> 1) \<and> auth_ok (srv_auth s)"
proof -
  have "alerts_unique empty_pg" by (simp add: alerts_unique_def active_count_def empty_pg_def split_beta)
  then have "alerts_unique (srv_db s)"
    by (intro server_run_inv [OF assms, where P = alerts_unique])
      (auto simp: fresh_server_def intro: unique.serve_keeps run_all_unique)
  moreover have "pg_ok (srv_db s)" using server_run_ok [OF assms] by (simp add: fresh_server_def)
  moreover have "auth_ok (srv_auth s)" using server_run_auth [OF assms] by (simp add: fresh_server_def)
  ultimately show ?thesis by (simp add: alerts_unique_def)
qed

section \<open>A spent token stays spent\<close>

lemma spent_unique: "pg_ok db \<Longrightarrow> token_spent th db \<Longrightarrow> \<forall>t \<in> set (t_tokens db). et_token_hash t = th \<longrightarrow> et_used t"
  using pg_okD(6) [of db] by (auto simp: token_spent_def table_ok_def distinct_map inj_on_def)

lemma spent_consume:
  assumes "pg_ok db" and "token_spent (sv_sha_hex E t) db" and "consume_enrollment_token E st t db = (y, db')"
  shows "\<exists>e. y = Inl e" and "(\<And>n. sv_up E n) \<Longrightarrow> t \<noteq> [] \<Longrightarrow> y = Inl already_used"
proof -
  note used = spent_unique [OF assms(1,2)]
  obtain tok where tok: "tok \<in> set (t_tokens db)" "et_token_hash tok = sv_sha_hex E t" using assms(2) by (auto simp: token_spent_def)
  obtain f db1 where f: "token_found E (sv_sha_hex E t) db = (f, db1)" by fastforce
  have db1: "t_tokens db1 = t_tokens db" using query_bumps(4) [OF f] by auto
  have found: "f = Inl Db_Error \<or> f = Inr True"
    using f tok by (auto simp: token_found_def query_def stmt_def filter_empty_conv split: if_splits)
  have "sv_sha_hex E t \<in> et_token_hash ` set (t_tokens db1)" using tok by (metis db1 image_eqI)
  then have ne: "fst (token_consume E (sv_sha_hex E t) db1) \<noteq> Inr ()"
    using used by (intro consume_used_fails) (simp_all add: db1)
  show "\<exists>e. y = Inl e" using assms(3) f found ne
    by (cases "token_consume E (sv_sha_hex E t) db1"; cases y) (auto simp: consume_enrollment_token_def split: if_splits)
  assume up: "\<And>n. sv_up E n" and t: "t \<noteq> []"
  obtain u where u: "List.find (\<lambda>x. et_token_hash x = sv_sha_hex E t) (t_tokens db) = Some u" "et_used u"
    using used tok by (cases "List.find (\<lambda>x. et_token_hash x = sv_sha_hex E t) (t_tokens db)")
      (auto simp: find_None_iff find_Some_iff)
  have "f = Inr True" using f tok up by (auto simp: token_found_def query_def stmt_def filter_empty_conv)
  then show "y = Inl already_used" using assms(3) f t up u db1
    by (simp add: consume_enrollment_token_def token_consume_def token_check_def token_lookup_def query_def stmt_def
        select_one_def)
qed

lemma spent_enroll:
  assumes "pg_ok db" and "token_spent (sv_sha_hex E t) db" and "enroll_agent E st t h db = (y, db')"
  shows "\<exists>e. y = Inl e" and "(\<And>n. sv_up E n) \<Longrightarrow> t \<noteq> [] \<Longrightarrow> y = Inl already_used"
  using assms(3) spent_consume [OF assms(1,2), of st]
  by (auto simp: enroll_agent_def split: prod.splits sum.splits)

text \<open>C24. Once a one-time token has been used, no enrollment with it ever succeeds again, whatever requests come in
  between; while the database is up the answer is 409.\<close>

theorem spent_forever:
  assumes "pg_ok (srv_db s0)" and "token_spent th (srv_db s0)" and "server_run K s0 evs s"
    and "as_body empty_enroll decode_enroll (aq_body q) = Some r" and "sv_sha_hex E (ar_enrollment_token r) = th"
  shows "fst (fst (serve E K Enroll_Route q s)) \<noteq> 201
    \<and> ((\<forall>n. sv_up E n) \<and> ar_enrollment_token r \<noteq> [] \<and> ar_machine_id r \<noteq> [] \<and> ar_hostname r \<noteq> []
        \<longrightarrow> fst (fst (serve E K Enroll_Route q s)) = 409)"
proof -
  have ok: "pg_ok (srv_db s)" using server_run_ok [OF assms(3,1)] .
  have sp: "token_spent (sv_sha_hex E (ar_enrollment_token r)) (srv_db s)" unfolding assms(5)
    by (rule server_run_inv [OF assms(3), where P = "token_spent th"])
      (auto intro: assms(2) spent.serve_keeps spent_evaluator.run_all_keeps)
  obtain y db where e: "enroll_agent E (sc_static_token K) (ar_enrollment_token r) (enroll_to_domain r) (srv_db s) = (y, db)"
    by fastforce
  obtain err where err: "y = Inl err" using spent_enroll(1) [OF ok sp e] by blast
  have "err = already_used" if "\<forall>n. sv_up E n" "ar_enrollment_token r \<noteq> []"
    using spent_enroll(2) [OF ok sp e] that err by simp
  then show ?thesis using e err assms(4)
    by (auto simp: serve_def public_route_def handle_enroll_def on_db_def write_error_def error_text_def already_used_def)
qed

definition sample_server_config :: api_config where
  "sample_server_config = \<lparr>sc_auth = dash, sc_static_token = ''s'', sc_public_url = [], sc_encode64 = (\<lambda>s. s),
     sc_payload_json = (\<lambda>u t. u @ t), sc_json_error = (\<lambda>b. ''bad'')\<rparr>"

definition enroll_call :: "string \<Rightarrow> api_request" where
  "enroll_call t = \<lparr>aq_authorization = [], aq_host_id = [], aq_query = [],
     aq_body = Some (JObj [(''enrollment_token'', JStr t), (''machine_id'', JStr ''m''), (''hostname'', JStr ''n'')]),
     aq_remote_addr = ''10.0.0.1:80''\<rparr>"

lemma server_run_one: "server_run K s [Request E r q] (snd (serve E K r q s))"
  using server_request [OF server_start, of E K r q s "fst (serve E K r q s)" "snd (serve E K r q s)"] by simp

theorem reachable_ok_witness:
  "\<exists>s. server_run sample_server_config fresh_server [Request calm_server Enroll_Route (enroll_call ''s'')] s
     \<and> length (t_credentials (srv_db s)) = 1 \<and> pg_ok (srv_db s)"
proof -
  let ?s = "snd (serve calm_server sample_server_config Enroll_Route (enroll_call ''s'') fresh_server)"
  have r: "server_run sample_server_config fresh_server [Request calm_server Enroll_Route (enroll_call ''s'')] ?s"
    by (rule server_run_one)
  have "length (t_credentials (srv_db ?s)) = 1" by code_simp
  then show ?thesis using r reachable_ok [OF r] by blast
qed

definition spent_server :: server where
  "spent_server = \<lparr>srv_auth = new_auth, srv_db = empty_pg\<lparr>t_tokens := [use_token 0 (token_row ''#t'' (hours 24))]\<rparr>\<rparr>"

theorem spent_forever_witness:
  "\<exists>s. server_run sample_server_config spent_server [Request calm_server Enroll_Route (enroll_call ''s'')] s
     \<and> fst (fst (serve calm_server sample_server_config Enroll_Route (enroll_call ''t'') s)) = 409"
proof -
  let ?r = "\<lparr>ar_enrollment_token = ''t'', ar_machine_id = ''m'', ar_hostname = ''n'', ar_ip_address = [],
    ar_agent_version = [], ar_metadata = None\<rparr>"
  have "pg_ok (srv_db spent_server)" "token_spent ''#t'' (srv_db spent_server)"
    by (simp_all add: spent_server_def token_row_def use_token_def token_spent_def pg_ok_def refs_ok_def table_ok_def
        empty_pg_def host_ids_def job_ids_def)
  moreover have "as_body empty_enroll decode_enroll (aq_body (enroll_call ''t'')) = Some ?r"
    by (simp add: enroll_call_def as_body_def as_struct_def is_object_def decode_enroll_def dec_field_def json_field_def kv_get_def)
  moreover have "\<forall>n. sv_up calm_server n" "sv_sha_hex calm_server ''t'' = ''#t''" by (simp_all add: calm_server_def)
  ultimately have "fst (fst (serve calm_server sample_server_config Enroll_Route (enroll_call ''t'')
      (snd (serve calm_server sample_server_config Enroll_Route (enroll_call ''s'') spent_server)))) = 409"
    using spent_forever [OF _ _ server_run_one, of spent_server "''#t''" "enroll_call ''t''" ?r calm_server sample_server_config
        calm_server Enroll_Route "enroll_call ''s''"] by simp
  then show ?thesis using server_run_one by blast
qed

section \<open>Requests without a valid token\<close>

text \<open>C12. A request to a protected route either carries a token that the middleware may accept, or is answered with 401
  and changes neither the tables nor the sessions that are still alive.\<close>

theorem only_authenticated:
  assumes "pg_ok (srv_db s)" and "\<not> public_route r"
  shows "(\<exists>n. srv_db (snd (serve E K r q s)) = (srv_db s)\<lparr>pg_calls := n\<rparr>
        \<and> fst (serve E K r q s) = (401, Error_Reply ''invalid or missing token''))
    \<or> (\<exists>now. fst (is_session_token now (bearer_token (aq_authorization q)) (srv_auth s)))
    \<or> ac_legacy_agent_token (sc_auth K) \<noteq> [] \<and> secure_equal (bearer_token (aq_authorization q)) (ac_legacy_agent_token (sc_auth K))
    \<or> aq_host_id q \<noteq> [] \<and> knows_credential E (aq_host_id q) (bearer_token (aq_authorization q)) (srv_db s)"
proof -
  let ?now = "fst (server_now E (srv_db s))"
  let ?db = "snd (server_now E (srv_db s))"
  have now: "on_db (server_now E) s = (?now, s\<lparr>srv_db := ?db\<rparr>)" by (simp add: on_db_def split_beta)
  obtain ok a db where v: "api_auth (sc_auth K) (Some (validate_credential E)) ?now (aq_authorization q) (aq_host_id q)
      (srv_auth s) ?db = (ok, a, db)" by (metis prod_cases3)
  have db0: "?db = bump (srv_db s)" by (simp add: server_now_def)
  show ?thesis
  proof (cases ok)
    case True
    have ok': "pg_ok ?db" using assms(1) by (simp add: db0)
    have v': "api_auth (sc_auth K) (Some (validate_credential E)) ?now (aq_authorization q) (aq_host_id q)
        (srv_auth s) ?db = (True, a, db)" using v True by simp
    from agents.api_auth_sound [OF ok' v'] have "(fst (is_session_token ?now (bearer_token (aq_authorization q)) (srv_auth s)))
      \<or> ac_legacy_agent_token (sc_auth K) \<noteq> [] \<and> secure_equal (bearer_token (aq_authorization q)) (ac_legacy_agent_token (sc_auth K))
      \<or> aq_host_id q \<noteq> [] \<and> knows_credential E (aq_host_id q) (bearer_token (aq_authorization q)) (srv_db s)"
      by (simp add: db0 knows_credential_def)
    then show ?thesis by blast
  next
    case False
    have "\<exists>n. db = (srv_db s)\<lparr>pg_calls := n\<rparr>"
    proof -
      obtain x db' where x: "credential_validate E (aq_host_id q) (sv_sha_hex E (bearer_token (aq_authorization q))) ?db = (x, db')"
        by fastforce
      then obtain n where "db' = ?db\<lparr>pg_calls := n\<rparr>" using query_bumps(5) by blast
      then have "db = ?db \<or> db = ?db\<lparr>pg_calls := n\<rparr>"
        using v x by (auto simp: api_auth_def Let_def validate_credential_def split: prod.splits bool.splits if_splits sum.splits)
      then show ?thesis by (auto simp: db0 bump_def)
    qed
    moreover have "serve E K r q s = ((401, Error_Reply ''invalid or missing token''), \<lparr>srv_auth = a, srv_db = db\<rparr>)"
      using assms(2) now v False by (simp add: serve_def write_error_def)
    ultimately show ?thesis by auto
  qed
qed

theorem only_authenticated_witness:
  "fst (serve calm_server sample_server_config Hosts_Route (enroll_call ''s'') fresh_server)
     = (401, Error_Reply ''invalid or missing token'')"
proof -
  have ok: "pg_ok (srv_db fresh_server)" by (simp add: fresh_server_def)
  have p: "\<not> public_route Hosts_Route" by (simp add: public_route_def)
  have "\<not> fst (is_session_token now tok (srv_auth fresh_server))" for now tok
    by (simp add: fresh_server_def is_session_token_def new_auth_def kv_get_def)
  moreover have "ac_legacy_agent_token (sc_auth sample_server_config) = []" "aq_host_id (enroll_call ''s'') = []"
    by (simp_all add: sample_server_config_def dash_def enroll_call_def)
  ultimately show ?thesis
    using only_authenticated [OF ok p, of calm_server sample_server_config "enroll_call ''s''"] by auto
qed

section \<open>Listing executions\<close>

lemma pagination_bounds: "parse_pagination q = (l, off) \<Longrightarrow> 0 < l \<and> l \<le> 500 \<and> 0 \<le> off"
  by (auto simp: parse_pagination_def split: option.splits if_splits)

lemma sorted_slice: "sorted_wrt P xs \<Longrightarrow> sorted_wrt P (take n (drop k xs))"
  by (metis append_take_drop_id sorted_wrt_append)


definition list_call :: api_request where
  "list_call = \<lparr>aq_authorization = [], aq_host_id = [], aq_query = [(''limit'', ''2''), (''offset'', ''-1''), (''status'', ''failed'')],
     aq_body = None, aq_remote_addr = []\<rparr>"


end
