(* ===== verification/ServerConfig.thy ===== *)
theory ServerConfig
  imports Handlers
begin

text \<open>
  The configuration of the server (\<open>apps/server/internal/config/config.go\<close>), its connection strings
  (\<open>apps/server/internal/db/db.go\<close>) and its start (\<open>apps/server/cmd/server/main.go\<close>). The environment is a
  function from names to values, the empty string for an unset variable; the pool, the migration tool,
  the listening socket and signals are parameters.
\<close>

section \<open>Configuration\<close>

record server_settings =
  ss_host :: string
  ss_port :: int
  ss_token :: string
  ss_enrollment_token :: string
  ss_public_url :: string
  ss_login_username :: string
  ss_login_password :: string

record database_settings =
  ds_host :: string
  ds_port :: int
  ds_user :: string
  ds_password :: string
  ds_db_name :: string
  ds_ssl_mode :: string

record settings =
  se_server :: server_settings
  se_database :: database_settings

type_synonym environment = "string \<Rightarrow> string"

definition getenv :: "environment \<Rightarrow> string \<Rightarrow> string \<Rightarrow> string" where
  "getenv env key fallback = (if env key \<noteq> [] then env key else fallback)"

definition getenv_int :: "environment \<Rightarrow> string \<Rightarrow> int \<Rightarrow> int" where
  "getenv_int env key fallback =
     (if env key \<noteq> [] then (case parse_int (env key) of Some i \<Rightarrow> i | None \<Rightarrow> fallback) else fallback)"

definition load_settings :: "environment \<Rightarrow> string + settings" where
  "load_settings env =
     (let srv = \<lparr>ss_host = getenv env ''SERVER_HOST'' ''0.0.0.0'', ss_port = getenv_int env ''SERVER_PORT'' 8000,
                 ss_token = getenv env ''SERVER_TOKEN'' ''dev-token'',
                 ss_enrollment_token = getenv env ''SERVER_ENROLLMENT_TOKEN'' ''enroll-dev-token'',
                 ss_public_url = getenv env ''SERVER_PUBLIC_URL'' [],
                 ss_login_username = getenv env ''SERVER_LOGIN_USERNAME'' ''admin'',
                 ss_login_password = getenv env ''SERVER_LOGIN_PASSWORD'' ''admin''\<rparr>;
          dbs = \<lparr>ds_host = getenv env ''POSTGRES_HOST'' ''localhost'', ds_port = getenv_int env ''POSTGRES_PORT'' 5432,
                 ds_user = getenv env ''POSTGRES_USER'' ''observer'',
                 ds_password = getenv env ''POSTGRES_PASSWORD'' ''observer_secret'',
                 ds_db_name = getenv env ''POSTGRES_DB'' ''observer'',
                 ds_ssl_mode = getenv env ''POSTGRES_SSLMODE'' ''disable''\<rparr>
      in if ss_token srv = [] then Inl ''SERVER_TOKEN must be set''
         else if ss_enrollment_token srv = [] then Inl ''SERVER_ENROLLMENT_TOKEN must be set''
         else if ss_login_username srv = [] then Inl ''SERVER_LOGIN_USERNAME must be set''
         else if ss_login_password srv = [] then Inl ''SERVER_LOGIN_PASSWORD must be set''
         else Inr \<lparr>se_server = srv, se_database = dbs\<rparr>)"

section \<open>Connection strings\<close>

definition dsn :: "database_settings \<Rightarrow> string" where
  "dsn c =
     (let ssl = (if ds_ssl_mode c = [] then ''disable'' else ds_ssl_mode c)
      in ''host='' @ ds_host c @ '' port='' @ show_int (ds_port c) @ '' user='' @ ds_user c @ '' password='' @ ds_password c
         @ '' dbname='' @ ds_db_name c @ '' sslmode='' @ ssl)"

definition migrate_dsn :: "database_settings \<Rightarrow> string" where
  "migrate_dsn c = ''postgres://'' @ ds_user c @ '':'' @ ds_password c @ ''@'' @ ds_host c @ '':'' @ show_int (ds_port c)
     @ ''/'' @ ds_db_name c @ ''?sslmode='' @ ds_ssl_mode c"

section \<open>Connecting and migrating\<close>

text \<open>
  The pool and the migration tool are third-party: a connection string (and a source of migrations) to the
  text of the error, \<open>None\<close> for success. \<open>No_Change\<close> is \<open>migrate.ErrNoChange\<close>.
\<close>

datatype migration_error = No_Change | Migration_Error string

record startup_env =
  su_pool_new :: "string \<Rightarrow> string option"
  su_pool_ping :: "string \<Rightarrow> string option"
  su_migrate_new :: "string \<Rightarrow> string \<Rightarrow> string option"
  su_up :: "string \<Rightarrow> string \<Rightarrow> migration_error option"
  su_steps :: "string \<Rightarrow> string \<Rightarrow> int \<Rightarrow> migration_error option"
  su_quote :: "string \<Rightarrow> string"

definition db_connect :: "startup_env \<Rightarrow> database_settings \<Rightarrow> string option" where
  "db_connect U c =
     (case su_pool_new U (dsn c) of
        Some e \<Rightarrow> Some (''pgxpool.New: '' @ e)
      | None \<Rightarrow>
          (case su_pool_ping U (dsn c) of
             Some e \<Rightarrow> Some (''db ping: '' @ e)
           | None \<Rightarrow> None))"

definition migrate_up :: "startup_env \<Rightarrow> string \<Rightarrow> string \<Rightarrow> string option" where
  "migrate_up U url dir =
     (case su_migrate_new U (''file://'' @ dir) url of
        Some e \<Rightarrow> Some (''migrate.New: '' @ e)
      | None \<Rightarrow>
          (case su_up U (''file://'' @ dir) url of
             Some (Migration_Error e) \<Rightarrow> Some (''migrate up: '' @ e)
           | _ \<Rightarrow> None))"

definition migrate_down :: "startup_env \<Rightarrow> string \<Rightarrow> string \<Rightarrow> string option" where
  "migrate_down U url dir =
     (case su_migrate_new U (''file://'' @ dir) url of
        Some e \<Rightarrow> Some (''migrate.New: '' @ e)
      | None \<Rightarrow>
          (case su_steps U (''file://'' @ dir) url (- 1) of
             Some (Migration_Error e) \<Rightarrow> Some (''migrate down: '' @ e)
           | _ \<Rightarrow> None))"

section \<open>Start\<close>

datatype startup =
    Failed_Start string
  | Migrated
  | Serving string auth_config string string

definition run_migrate :: "startup_env \<Rightarrow> settings \<Rightarrow> string \<Rightarrow> startup" where
  "run_migrate U cfg direction =
     (let url = migrate_dsn (se_database cfg);
          dir = ''./migrations'';
          answer = (\<lambda>r. case r of None \<Rightarrow> Migrated | Some e \<Rightarrow> Failed_Start e)
      in if direction = ''up'' then answer (migrate_up U url dir)
         else if direction = ''down'' then answer (migrate_down U url dir)
         else Failed_Start (''unknown migration direction '' @ su_quote U direction @ '' (use up|down)''))"

text \<open>What the server listens on and is configured with once it serves; \<open>args\<close> is \<open>os.Args\<close>.\<close>

definition run_server :: "startup_env \<Rightarrow> environment \<Rightarrow> string list \<Rightarrow> startup" where
  "run_server U env args =
     (case load_settings env of
        Inl e \<Rightarrow> Failed_Start (''load config: '' @ e)
      | Inr cfg \<Rightarrow>
          if 3 \<le> length args \<and> args ! 1 = ''migrate'' then run_migrate U cfg (args ! 2)
          else (case db_connect U (se_database cfg) of
                  Some e \<Rightarrow> Failed_Start (''connect db: '' @ e)
                | None \<Rightarrow>
                    (case migrate_up U (migrate_dsn (se_database cfg)) (getenv env ''MIGRATIONS_DIR'' ''./migrations'') of
                       Some e \<Rightarrow> Failed_Start (''migrate up: '' @ e)
                     | None \<Rightarrow>
                         Serving (ss_host (se_server cfg) @ '':'' @ show_int (ss_port (se_server cfg)))
                           \<lparr>ac_legacy_agent_token = ss_token (se_server cfg),
                            ac_login_username = ss_login_username (se_server cfg),
                            ac_login_password = ss_login_password (se_server cfg)\<rparr>
                           (ss_enrollment_token (se_server cfg)) (ss_public_url (se_server cfg)))))"

section \<open>The process\<close>

text \<open>
  Whether \<open>ListenAndServe\<close> fails on an address other than by being shut down, whether SIGINT or SIGTERM comes
  (before ten seconds of shutting down are over), and the result of \<open>Shutdown\<close>.
\<close>

record listen_env =
  li_listen :: "string \<Rightarrow> string option"
  li_signal :: bool
  li_shutdown :: "string option"

text \<open>The end of \<open>run\<close>: a failure to listen puts SIGTERM into the channel that the signals arrive in; \<open>None\<close>
  while nothing arrives.\<close>

definition serve_until_quit :: "listen_env \<Rightarrow> string \<Rightarrow> string option option" where
  "serve_until_quit L addr =
     (let quit = (case li_listen L addr of Some e \<Rightarrow> True | None \<Rightarrow> li_signal L)
      in if quit then Some (li_shutdown L) else None)"

text \<open>The exit status of the process, \<open>None\<close> as long as it serves.\<close>

definition server_main :: "startup_env \<Rightarrow> listen_env \<Rightarrow> environment \<Rightarrow> string list \<Rightarrow> nat option" where
  "server_main U L env args =
     (let exit_code = (\<lambda>err. if err = None then 0 else 1) in
      case run_server U env args of
        Failed_Start e \<Rightarrow> Some (exit_code (Some e))
      | Migrated \<Rightarrow> Some (exit_code None)
      | Serving addr C tok url \<Rightarrow> map_option exit_code (serve_until_quit L addr))"

text \<open>A server that cannot listen, because the port is taken, ends with status 0 like one that was told to stop, while
  every failure before that is reported with status 1.\<close>

theorem listen_failure_unreported:
  assumes "run_server U env args = Serving addr C tok url" and "li_shutdown L = None"
  shows "(\<exists>e. li_listen L addr = Some e) \<Longrightarrow> server_main U L env args = Some 0"
    and "li_listen L addr = None \<Longrightarrow> \<not> li_signal L \<Longrightarrow> server_main U L env args = None"
  using assms by (auto simp: server_main_def serve_until_quit_def)

section \<open>Secrets have defaults\<close>

lemma load_settings_total:
  "\<exists>cfg. load_settings env = Inr cfg \<and> ss_token (se_server cfg) = getenv env ''SERVER_TOKEN'' ''dev-token''
     \<and> ss_login_username (se_server cfg) = getenv env ''SERVER_LOGIN_USERNAME'' ''admin''
     \<and> ss_login_password (se_server cfg) = getenv env ''SERVER_LOGIN_PASSWORD'' ''admin''"
  by (simp add: load_settings_def Let_def getenv_def)

text \<open>The checks for missing secrets never fail: a server that serves without \<open>SERVER_TOKEN\<close> accepts the
  token \<open>dev-token\<close> from anyone, for every protected route and every host.\<close>

theorem default_token_accepted:
  assumes "run_server U env args = Serving addr C tok url" and "env ''SERVER_TOKEN'' = []"
  shows "fst (api_auth C validate now ''Bearer dev-token'' i a s)"
proof -
  obtain cfg where cfg: "load_settings env = Inr cfg" "ss_token (se_server cfg) = getenv env ''SERVER_TOKEN'' ''dev-token''"
    using load_settings_total [of env] by blast
  have "run_migrate U cfg d \<noteq> Serving addr C tok url" for d
    by (simp add: run_migrate_def Let_def split: option.split)
  then have "ac_legacy_agent_token C = ss_token (se_server cfg)"
    using assms(1) unfolding run_server_def cfg(1) sum.case by (auto split: option.splits if_splits)
  then have "ac_legacy_agent_token C = ''dev-token''" using cfg(2) assms(2) by (simp add: getenv_def)
  moreover have "bearer_token ''Bearer dev-token'' = ''dev-token''" by code_simp
  moreover have "secure_equal ''dev-token'' ''dev-token''"
    by (simp add: secure_equal_def constant_time_eq_def constant_time_compare_def)
  ultimately show ?thesis by (simp add: api_auth_def Let_def split: prod.split bool.split)
qed

text \<open>A site whose database is up to date.\<close>

definition new_site :: startup_env where
  "new_site = \<lparr>su_pool_new = (\<lambda>d. None), su_pool_ping = (\<lambda>d. None), su_migrate_new = (\<lambda>d m. None),
     su_up = (\<lambda>d m. Some No_Change), su_steps = (\<lambda>d m n. Some No_Change), su_quote = (\<lambda>s. s)\<rparr>"

theorem default_token_accepted_witness:
  "\<exists>addr C tok url. run_server new_site (\<lambda>k. []) [''server''] = Serving addr C tok url
     \<and> fst (api_auth C None 0 ''Bearer dev-token'' [] new_auth ())"
proof -
  obtain addr C tok url where r: "run_server new_site (\<lambda>k. []) [''server''] = Serving addr C tok url"
    by (simp add: run_server_def load_settings_def Let_def getenv_def db_connect_def migrate_up_def new_site_def)
  have "fst (api_auth C None 0 ''Bearer dev-token'' [] new_auth ())" by (rule default_token_accepted [OF r]) simp
  then show ?thesis using r by blast
qed

end
