(* ===== verification/JobMap.thy ===== *)
theory JobMap
  imports Services "HOL-Library.Sublist"
begin

text \<open>
  What job discovery promises, stated over a map: from the host and the hash of a command to the
  description of the job. The table of jobs with its identifiers, clocks, constraints and failing
  statements refines it: a discovery request is a sequence of updates of the map.
\<close>

section \<open>The map of a table\<close>

text \<open>What a discovery request describes of a job.\<close>

record job_spec =
  jp_schedule :: string
  jp_timezone :: string
  jp_user :: string
  jp_raw_command :: string
  jp_normalized_command :: string
  jp_enabled :: bool
  jp_source_file :: string
  jp_metadata :: "json option"

definition spec_of :: "job \<Rightarrow> job_spec" where
  "spec_of j = \<lparr>jp_schedule = j_schedule j, jp_timezone = j_timezone j, jp_user = j_user j,
     jp_raw_command = j_raw_command j, jp_normalized_command = j_normalized_command j, jp_enabled = j_enabled j,
     jp_source_file = j_source_file j, jp_metadata = j_metadata j\<rparr>"

type_synonym job_map = "string \<times> string \<rightharpoonup> job_spec"

definition job_map :: "pg \<Rightarrow> job_map" where
  "job_map db k = map_option spec_of (job_of k db)"

text \<open>The abstract operation: every job of the request replaces the description under its key.\<close>

definition learn :: "string \<Rightarrow> job list \<Rightarrow> job_map \<Rightarrow> job_map" where
  "learn hid js m = m ++ map_of (rev (map (\<lambda>j. ((hid, j_command_hash j), spec_of j)) js))"

lemma learn_Nil [simp]: "learn hid [] m = m"
  by (simp add: learn_def)

lemma learn_Cons: "learn hid (j # js) m = learn hid js (m((hid, j_command_hash j) \<mapsto> spec_of j))"
  by (simp add: learn_def)

lemma spec_of_refresh [simp]: "spec_of (refresh_job now j old) = spec_of j"
  by (simp add: spec_of_def refresh_job_def)

lemma spec_of_new [simp]: "spec_of (new_job now u hid j) = spec_of j"
  by (simp add: spec_of_def new_job_def)

lemma spec_of_host [simp]: "spec_of (j\<lparr>j_host_id := h\<rparr>) = spec_of j"
  by (simp add: spec_of_def)

section \<open>Refinement\<close>

lemma job_upsert_refines:
  assumes "job_upsert E (j\<lparr>j_host_id := h\<rparr>) db = (y, db')"
  shows "case y of
      Inl e \<Rightarrow> job_map db' = job_map db
    | Inr s \<Rightarrow> spec_of s = spec_of j \<and> job_map db' = (job_map db)((parsed_id E h, j_command_hash j) \<mapsto> spec_of j)"
  using job_upsert_cases [OF assms]
proof (elim disjE exE conjE)
  fix e assume "y = Inl e" "t_jobs db' = t_jobs db"
  then show ?thesis by (auto simp: job_map_def job_of_def)
next
  fix now u x hid
  assume y: "y = Inr x" and hid: "sv_parse_uuid E (j_host_id (j\<lparr>j_host_id := h\<rparr>)) = Some hid"
    and up: "upsert_row job_key (refresh_job now (j\<lparr>j_host_id := h\<rparr>)) (new_job now u hid (j\<lparr>j_host_id := h\<rparr>)) (t_jobs db) = (x, t_jobs db')"
  have "spec_of x = spec_of j" using fst_upsert_row [of job_key _ _ "t_jobs db"] up
    by (metis (no_types, lifting) fst_conv option.case_eq_if spec_of_host spec_of_new spec_of_refresh)
  then show ?thesis using job_of_upsert(1) [OF up hid] y by (auto simp: job_map_def)
qed

lemma discovery_loop_refines:
  "\<exists>acc saved. subseq acc js \<and> fst (discovery_loop E h js res db) = res @ saved \<and> map spec_of saved = map spec_of acc
     \<and> job_map (snd (discovery_loop E h js res db)) = learn (parsed_id E h) acc (job_map db)"
proof (induction E h js res db rule: discovery_loop.induct)
  case (2 E h j js res db)
  obtain y db1 where u: "job_upsert E (j\<lparr>j_host_id := h\<rparr>) db = (y, db1)" by fastforce
  show ?case
  proof (cases y)
    case (Inl e)
    then show ?thesis using "2.IH"(1) [OF u [symmetric], of e] job_upsert_refines [OF u] u by (auto intro: list_emb_Cons)
  next
    case (Inr s)
    obtain acc saved where ih: "subseq acc js" "fst (discovery_loop E h js (res @ [s]) db1) = (res @ [s]) @ saved"
      "map spec_of saved = map spec_of acc"
      "job_map (snd (discovery_loop E h js (res @ [s]) db1)) = learn (parsed_id E h) acc (job_map db1)"
      using "2.IH"(2) [OF u [symmetric], of s] Inr by blast
    then show ?thesis using job_upsert_refines [OF u] u Inr
      by (intro exI [of _ "j # acc"] exI [of _ "s # saved"]) (simp add: learn_Cons)
  qed
qed (intro exI [of _ "[]"], simp)

text \<open>C16. Discovery refines updates of a map: whatever statements fail, the table of jobs describes afterwards what the
  map is after learning some of the jobs of the request, in order, and these are the ones reported back as saved.\<close>

theorem discovery_refines:
  "\<exists>acc. subseq acc js \<and> map spec_of (fst (process_discovery E h js db)) = map spec_of acc
     \<and> job_map (snd (process_discovery E h js db)) = learn (parsed_id E h) acc (job_map db)"
  using discovery_loop_refines [of js E h "[]" db] unfolding process_discovery_def by auto

section \<open>Nothing is rejected\<close>

text \<open>A server that takes discoveries for the host: its statements succeed and the identifiers it makes are new.\<close>

definition takes_jobs :: "server_env \<Rightarrow> string \<Rightarrow> string \<Rightarrow> pg \<Rightarrow> bool" where
  "takes_jobs E h hid db \<longleftrightarrow> (\<forall>n. sv_up E n) \<and> sv_parse_uuid E h = Some hid \<and> hid \<in> host_ids db
     \<and> inj (sv_new_uuid E) \<and> (\<forall>n \<ge> pg_calls db. sv_new_uuid E n \<notin> job_ids db)"

lemma job_upsert_taken:
  assumes "takes_jobs E h hid db" and "j_source_type j \<in> set job_sources"
  shows "\<exists>s db'. job_upsert E (j\<lparr>j_host_id := h\<rparr>) db = (Inr s, db') \<and> takes_jobs E h hid db'"
proof -
  let ?u = "sv_new_uuid E (pg_calls db)" and ?now = "sv_db_now E (pg_calls db)" and ?j = "j\<lparr>j_host_id := h\<rparr>"
  let ?up = "upsert_row job_key (refresh_job ?now ?j) (new_job ?now ?u hid ?j) (t_jobs db)"
  have up: "job_upsert E ?j db = (Inr (fst ?up), bump (db\<lparr>t_jobs := snd ?up\<rparr>))"
    using assms by (simp add: job_upsert_def stmt_def takes_jobs_def Let_def split_beta)
  have "j_id ` set (snd ?up) \<subseteq> insert ?u (job_ids db)"
    using set_upsert_row [of _ job_key "refresh_job ?now ?j" "new_job ?now ?u hid ?j" "t_jobs db"]
    by (fastforce simp: job_ids_def refresh_job_def new_job_def)
  moreover have "n \<ge> Suc (pg_calls db) \<Longrightarrow> sv_new_uuid E n \<notin> insert ?u (job_ids db)" for n
    using assms(1) by (auto simp: takes_jobs_def dest: injD)
  ultimately have "\<forall>n \<ge> Suc (pg_calls db). sv_new_uuid E n \<notin> j_id ` set (snd ?up)" by blast
  then have "takes_jobs E h hid (bump (db\<lparr>t_jobs := snd ?up\<rparr>))"
    using assms(1) by (simp add: takes_jobs_def host_ids_def job_ids_def bump_def)
  with up show ?thesis by blast
qed

lemma discovery_loop_taken:
  assumes "takes_jobs E h hid db" and "\<forall>j \<in> set js. j_source_type j \<in> set job_sources"
  shows "length (fst (discovery_loop E h js res db)) = length res + length js"
  using assms
proof (induction E h js res db rule: discovery_loop.induct)
  case (2 E h j js res db)
  then show ?case using job_upsert_taken [of E h hid db j] by fastforce
qed simp

lemma discovery_learned:
  assumes "takes_jobs E h hid db" and "\<forall>j \<in> set js. j_source_type j \<in> set job_sources"
  shows "map spec_of (fst (process_discovery E h js db)) = map spec_of js
     \<and> job_map (snd (process_discovery E h js db)) = learn hid js (job_map db)"
proof -
  obtain acc where acc: "subseq acc js" "map spec_of (fst (process_discovery E h js db)) = map spec_of acc"
    "job_map (snd (process_discovery E h js db)) = learn (parsed_id E h) acc (job_map db)"
    using discovery_loop_refines [of js E h "[]" db] unfolding process_discovery_def by auto
  have "length acc = length js"
    using discovery_loop_taken [OF assms, of "[]"] acc(2) by (metis add_0 length_map list.size(3) process_discovery_def)
  then have "acc = js" using acc(1) by (simp add: subseq_same_length)
  then show ?thesis using acc assms(1) by (simp add: takes_jobs_def parsed_id_def)
qed

end
