(* ===== verification/Wire.thy ===== *)
theory Wire
  imports AgentApp AgentCli Intake Server
begin

text \<open>
  The two programs together: what the agent sends is what the server reads, and the answers of the server
  are what the agent decodes. The payloads are those of \<open>AgentApp\<close> and \<open>Client\<close>, the decoders those of
  \<open>Requests\<close>, and the other way round.
\<close>

section \<open>Reading a marshalled map\<close>

lemma json_map_not_null [simp]: "json_map kvs \<noteq> JNull"
  by (simp add: json_map_def)

lemma as_struct_map [simp]: "as_struct zero dec (json_map kvs) = dec (json_map kvs)"
  by (simp add: as_struct_def)

lemma dec_field_there: "json_field j k = Some v \<Longrightarrow> v \<noteq> JNull \<Longrightarrow> dec_field zero dec j k = dec v"
  by (cases v) (simp_all add: dec_field_def)

lemma json_field_JObj [simp]: "json_field (JObj kvs) k = map_of kvs k"
  by (simp add: json_field_def kv_get_def)

lemmas decode_fields = dec_field_def dec_ptr_def dec_list_def rfc3339_def

section \<open>Executions\<close>

text \<open>The events that the agent builds: for a process that started or ended, a command it ran, a mail it read.\<close>

definition fair :: "real \<Rightarrow> bool" where
  "fair x \<longleftrightarrow> 0 \<le> x \<and> x \<le> 1"

inductive sent_event :: "json \<Rightarrow> string \<Rightarrow> string \<Rightarrow> bool" where
  started: "fair (mp_confidence m) \<Longrightarrow> sent_event (running_event m) (mp_job_hash m) ''running''"
| ended: "fair (ae_confidence ac) \<Longrightarrow> sent_event (completion_event ac now) (ae_job_hash ac) ''partial''"
| commanded: "shell_status r = (st, msg, code, out) \<Longrightarrow> sent_event (command_event c t t' st code out) (rc_command_hash c) st"
| mailed: "sent_event (mail_event msg h) h ''partial''"

lemma shell_status_cases: "shell_status r = (st, msg, code, out) \<Longrightarrow> st = ''success'' \<or> st = ''failed''"
  by (cases r) auto

lemma decoded_event:
  assumes "sent_event ev h st"
  shows "\<exists>e kvs. decode_event ev = Some e \<and> ee_command_hash e = h \<and> ee_status e = st \<and> fair (ee_confidence_score e)
     \<and> ee_evidence e = Some (json_map kvs) \<and> st \<in> set execution_statuses"
  using assms
proof cases
  case (commanded r msg code out c t t')
  then show ?thesis using shell_status_cases [of r st msg code out]
    by (auto simp: decode_event_def decode_fields command_event_def fair_def execution_statuses_def)
next
  case (mailed msg)
  then show ?thesis
    by (cases "h = []") (auto simp: decode_event_def decode_fields mail_event_def fair_def execution_statuses_def)
qed (auto simp: decode_event_def decode_fields running_event_def completion_event_def fair_def execution_statuses_def)

lemma sent_event_object: "sent_event ev h st \<Longrightarrow> is_object ev"
  by (auto elim!: sent_event.cases simp: running_event_def completion_event_def command_event_def mail_event_def)

lemma event_domain:
  assumes "sent_event ev h st"
  shows "\<exists>e x. as_struct empty_event decode_event ev = Some e \<and> event_to_domain e = Some x \<and> e_status x = st
     \<and> fair (e_confidence x) \<and> st \<in> set execution_statuses \<and> (h \<noteq> [] \<longrightarrow> command_hash_from_evidence (e_evidence x) = h)"
proof -
  obtain e kvs where e: "decode_event ev = Some e" "ee_command_hash e = h" "ee_status e = st" "fair (ee_confidence_score e)"
    "ee_evidence e = Some (json_map kvs)" "st \<in> set execution_statuses"
    using decoded_event [OF assms] by blast
  have a: "as_struct empty_event decode_event ev = Some e"
    using sent_event_object [OF assms] e(1) by (auto simp: as_struct_def is_object_def)
  obtain j where j: "merge_json (Some (json_map kvs)) ''command_hash'' (JStr h) = Some j"
    by (simp add: merge_json_def json_map_def)
  then have "command_hash_from_evidence (Some j) = h"
    using json_field_merged [OF j] by (simp add: command_hash_from_evidence_def)
  with a e j show ?thesis by (cases "h = []") (auto simp: event_to_domain_def Let_def)
qed

text \<open>The row that an event becomes satisfies the CHECK constraints, whatever its host and job.\<close>

definition passes_checks :: "execution \<Rightarrow> bool" where
  "passes_checks x \<longleftrightarrow> e_status x \<in> set execution_statuses \<and> 0 \<le> e_confidence x \<and> e_confidence x \<le> 1"

lemma passes_checks_row:
  "passes_checks x \<Longrightarrow> h \<in> H \<Longrightarrow> (case j of None \<Rightarrow> True | Some i \<Rightarrow> i \<in> J) \<Longrightarrow>
     execution_row_ok H J (x\<lparr>e_host_id := h, e_job_id := j\<rparr>)"
  by (simp add: passes_checks_def execution_row_ok_def)

lemma batch_domain:
  assumes "\<forall>t \<in> set ts. case t of (ev, h, st) \<Rightarrow> sent_event ev h st"
  shows "\<exists>es xs. traverse (as_struct empty_event decode_event) (map fst ts) = Some es \<and> executions_to_domain es = Some xs
    \<and> map e_status xs = map (\<lambda>(ev, h, st). st) ts \<and> (\<forall>x \<in> set xs. passes_checks x)"
  using assms
proof (induction ts)
  case (Cons t ts)
  obtain ev h st where t: "t = (ev, h, st)" by (cases t)
  obtain es xs where ih: "traverse (as_struct empty_event decode_event) (map fst ts) = Some es" "executions_to_domain es = Some xs"
    "map e_status xs = map (\<lambda>(ev, h, st). st) ts" "\<forall>x \<in> set xs. passes_checks x" using Cons by auto
  obtain e x where "as_struct empty_event decode_event ev = Some e" "event_to_domain e = Some x" "e_status x = st"
    "fair (e_confidence x)" "st \<in> set execution_statuses"
    using event_domain [of ev h st] Cons.prems t by auto
  then show ?case using ih t
    by (intro exI [of _ "e # es"] exI [of _ "x # xs"]) (simp add: executions_to_domain_def passes_checks_def fair_def)
qed (simp add: executions_to_domain_def)

text \<open>C25. A flush of events that the agent built is decoded without error or panic and answered with 200, and every
  event passes the CHECK constraints of the table: only an unknown host or job can keep one out.\<close>

theorem agent_batch_understood:
  assumes "\<forall>t \<in> set ts. case t of (ev, h, st) \<Rightarrow> sent_event ev h st" and "aq_host_id q \<noteq> []"
    and "aq_body q = Some (json_map [(''executions'', JArr (map fst ts))])"
  shows "\<exists>xs n s'. handle_batch_executions E q s = ((200, Accepted_Reply n), s')
     \<and> s' = snd (on_db (execution_batch E (aq_host_id q) xs) s)
     \<and> map e_status xs = map (\<lambda>(ev, h, st). st) ts \<and> (\<forall>x \<in> set xs. passes_checks x)"
proof -
  obtain es xs where d: "traverse (as_struct empty_event decode_event) (map fst ts) = Some es" "executions_to_domain es = Some xs"
    "map e_status xs = map (\<lambda>(ev, h, st). st) ts" "\<forall>x \<in> set xs. passes_checks x"
    using batch_domain [OF assms(1)] by blast
  have "as_body [] decode_execution_batch (aq_body q) = Some es"
    using d(1) assms(3) by (simp add: as_body_def decode_execution_batch_def decode_fields)
  then have "\<exists>n. handle_batch_executions E q s = ((200, Accepted_Reply n), snd (on_db (execution_batch E (aq_host_id q) xs) s))"
    using assms(2) d(2) by (simp add: handle_batch_executions_def with_host_def write_json_def split: prod.split)
  then show ?thesis using d(3,4) by blast
qed

definition mail_sample :: cron_mail where
  "mail_sample = \<lparr>cm_envelope_date = 7, cm_subject = ''Cron'', cm_command = ''run'', cm_mail_user = ''root'', cm_body = ''out'',
     cm_message_hash = []\<rparr>"

definition flush_call :: "json list \<Rightarrow> api_request" where
  "flush_call evs = \<lparr>aq_authorization = [], aq_host_id = ''h'', aq_query = [],
     aq_body = Some (json_map [(''executions'', JArr evs)]), aq_remote_addr = []\<rparr>"

theorem agent_batch_understood_witness:
  "\<exists>n s'. handle_batch_executions calm_server (flush_call [mail_event mail_sample ''new'']) \<lparr>srv_auth = new_auth, srv_db = crontab_pg\<rparr>
     = ((200, Accepted_Reply n), s')"
proof -
  have "\<forall>t \<in> set [(mail_event mail_sample ''new'', ''new'', ''partial'')]. case t of (ev, h, st) \<Rightarrow> sent_event ev h st"
    by (simp add: sent_event.mailed)
  from agent_batch_understood [OF this, of "flush_call [mail_event mail_sample ''new'']" calm_server
      "\<lparr>srv_auth = new_auth, srv_db = crontab_pg\<rparr>"]
  show ?thesis by (auto simp: flush_call_def)
qed

section \<open>Metrics\<close>

definition metric_passes :: "data_metric \<Rightarrow> bool" where
  "metric_passes m \<longleftrightarrow> m_type m \<in> set metric_types \<and> m_status m \<in> set metric_statuses"

text \<open>C36. The result of every probe with a finite value is read back as it is and passes the CHECK constraints; a value
  that is not finite cannot be marshalled, the server reads the zero metric for it, and the database rejects
  that.\<close>

theorem probe_metrics_checked:
  "case metric_event (run_one V p) of
     Some j \<Rightarrow> (\<exists>m. as_struct empty_metric decode_metric (must_marshal (Some j)) = Some m
       \<and> metric_passes (metric_to_domain m) \<and> me_metric_name m = pc_name p \<and> pr_value (run_one V p) = Finite (me_value m)
       \<and> me_status m = pr_status (run_one V p))
   | None \<Rightarrow> pr_value (run_one V p) = Not_Finite
       \<and> as_struct empty_metric decode_metric (must_marshal None) = Some empty_metric
       \<and> \<not> metric_passes (metric_to_domain empty_metric)"
proof -
  have r: "result_ok p (run_one V p)" by (rule run_one_ok)
  show ?thesis
  proof (cases "pr_value (run_one V p)")
    case (Finite v)
    then show ?thesis using r
      by (auto simp: metric_event_def float_json_def must_marshal_def decode_metric_def decode_fields metric_passes_def
          metric_to_domain_def result_ok_def probe_statuses_def metric_types_def metric_statuses_def)
  qed (simp add: metric_event_def float_json_def must_marshal_def as_struct_def metric_passes_def metric_to_domain_def
      empty_metric_def metric_types_def)
qed

section \<open>Discovery\<close>

definition reported_job :: "discovered_job \<Rightarrow> job" where
  "reported_job j = \<lparr>j_id = [], j_host_id = [], j_source_type = dj_source_type j, j_schedule = dj_schedule j,
     j_timezone = dj_timezone j, j_user = dj_user j, j_raw_command = dj_raw_command j,
     j_normalized_command = dj_normalized_command j, j_command_hash = dj_command_hash j, j_enabled = dj_enabled j,
     j_source_file = dj_source_file j, j_metadata = None, j_created_at = zero_time, j_updated_at = zero_time\<rparr>"

lemma discovery_item_read:
  "map_option discovered_to_domain (as_struct empty_discovered decode_discovered (discovery_item j)) = Some (reported_job j)"
  by (simp add: discovery_item_def decode_discovered_def decode_fields discovered_to_domain_def reported_job_def)

lemma discovery_read:
  "map_option (map discovered_to_domain) (as_body [] decode_discovery (Some (json_map [(''jobs'', to_discovery_payload js)])))
     = Some (map reported_job js)"
proof -
  let ?f = "as_struct empty_discovered decode_discovered"
  have i: "?f (discovery_item j) = Some (the (?f (discovery_item j)))" "discovered_to_domain (the (?f (discovery_item j))) = reported_job j" for j
    using discovery_item_read [of j] by (cases "?f (discovery_item j)"; simp)+
  have "traverse ?f (map discovery_item js) = Some (map (\<lambda>x. the (?f x)) (map discovery_item js))"
    by (rule traverse_all) (use i(1) in auto)
  then show ?thesis
    by (simp add: as_body_def decode_discovery_def decode_fields to_discovery_payload_def comp_def i(2))
qed

text \<open>The server reads every job of the agent's discovery payload back field by field.\<close>

theorem discovery_roundtrip:
  "map_option (map discovered_to_domain) (as_body [] decode_discovery (Some (json_map [(''jobs'', to_discovery_payload js)])))
     = Some (map reported_job js)"
  by (rule discovery_read)

section \<open>Enrollment\<close>

text \<open>What the agent decodes of the server's answer to an enrollment is its host, its token, its environment
  and tags, and the intervals of the reply.\<close>

theorem enroll_response_roundtrip:
  "as_object decode_enroll_response (enroll_response_json r) =
     Some \<lparr>ep_host_id = h_id (er_host r), ep_token = er_agent_token r,
           ep_config = \<lparr>bc_environment = er_environment r, bc_tags = er_tags r, bc_heartbeat_interval = ''30s'',
             bc_discovery_interval = ''5m'', bc_process_scan_interval = ''30s'', bc_report_interval = ''1m'',
             bc_command_poll_interval = ''15s''\<rparr>\<rparr>"
proof -
  have "traverse as_str_elem (map JStr xs) = Some xs" for xs by (induction xs) auto
  then have "decode_bootstrap (JObj [(''environment'', JStr env), (''tags'', JArr (map JStr tags)),
      (''heartbeat_interval'', JStr hb), (''discovery_interval'', JStr di), (''process_scan_interval'', JStr ps),
      (''report_interval'', JStr re), (''command_poll_interval'', JStr cp)])
    = Some \<lparr>bc_environment = env, bc_tags = tags, bc_heartbeat_interval = hb, bc_discovery_interval = di,
        bc_process_scan_interval = ps, bc_report_interval = re, bc_command_poll_interval = cp\<rparr>" for env tags hb di ps re cp
    by (simp add: decode_bootstrap_def dec_field_there)
  then show ?thesis
    by (simp add: as_object_def enroll_response_json_def decode_enroll_response_def dec_field_there is_object_def)
qed

lemma token_generated:
  "generate_enrollment_token E l db = (Inr (raw, record), db') \<Longrightarrow>
     t_tokens db' = t_tokens db @ [record] \<and> et_token_hash record = sv_sha_hex E raw \<and> \<not> et_used record"
  by (auto simp: generate_enrollment_token_def token_create_def stmt_def new_token_def server_now_def Let_def
      split: option.splits if_splits prod.splits sum.splits)

text \<open>The payload that the dashboard shows, given to \<open>init\<close> without other flags, gives the agent the address of the
  server and a token that the server then accepts for lookup; the codecs are inverse on this payload.\<close>

theorem payload_roundtrip:
  assumes "handle_create_token E K q s = ((201, Token_Reply t), s')"
    and "\<And>x. decode64 (sc_encode64 K x) = Some x" and "\<And>u r. decode_payload (sc_payload_json K u r) = Some (u, r)"
    and "\<And>x. x \<noteq> [] \<Longrightarrow> sc_encode64 K x \<noteq> []" and "\<And>u r. sc_payload_json K u r \<noteq> []"
  shows "\<exists>url token. init_arguments decode64 decode_payload (tc_payload t) [] [] = Inr (url, token) \<and> url \<noteq> []
     \<and> (\<exists>rec \<in> set (t_tokens (srv_db s')). et_token_hash rec = sv_sha_hex E token \<and> \<not> et_used rec \<and> et_id rec = tc_id t)"
proof -
  obtain label url0 where "as_body ([], []) decode_create_token (aq_body q) = Some (label, url0)"
    using assms(1) by (auto simp: handle_create_token_def write_error_def split: option.splits)
  moreover define url where "url = (if url0 = [] then sc_public_url K else url0)"
  ultimately have url: "url \<noteq> []" and "\<exists>raw rec db. generate_enrollment_token E label (srv_db s) = (Inr (raw, rec), db)
      \<and> tc_payload t = sc_encode64 K (sc_payload_json K url raw) \<and> tc_id t = et_id rec \<and> srv_db s' = db"
    using assms(1) by (auto simp: handle_create_token_def on_db_def write_error_def write_json_def Let_def
        split: prod.splits sum.splits if_splits)
  then obtain raw rec where g: "generate_enrollment_token E label (srv_db s) = (Inr (raw, rec), srv_db s')"
    and p: "tc_payload t = sc_encode64 K (sc_payload_json K url raw)" "tc_id t = et_id rec" by blast
  have "rec \<in> set (t_tokens (srv_db s')) \<and> et_token_hash rec = sv_sha_hex E raw \<and> \<not> et_used rec"
    using token_generated [OF g] by simp
  moreover have "init_arguments decode64 decode_payload (tc_payload t) [] [] = Inr (url, raw)"
    using assms(2-5) by (simp add: init_arguments_def p)
  ultimately show ?thesis using url p(2) by metis
qed

section \<open>Commands\<close>

definition claimed_command :: "agent_command \<Rightarrow> run_command" where
  "claimed_command c = \<lparr>rc_id = c_id c, rc_host_id = c_host_id c, rc_job_id = c_job_id c, rc_command_hash = c_command_hash c,
     rc_raw_command = c_raw_command c, rc_schedule = c_schedule c, rc_requested_at = c_requested_at c\<rparr>"

lemma command_read: "decode_run_command_ptr (command_json c) = Some (Some (claimed_command c))"
  by (simp add: decode_run_command_ptr_def as_object_def decode_run_command_def dec_field_there claimed_command_def
      command_json_def is_object_def omit_empty_def map_add_Some_iff split: option.split)

lemma commands_read: "decode_commands (commands_json cs) = Some (map (Some \<circ> claimed_command) cs)"
proof -
  have "traverse decode_run_command_ptr (map command_json cs) = Some (map (Some \<circ> claimed_command) cs)"
    by (induction cs) (simp_all add: command_read)
  then show ?thesis by (simp add: decode_commands_def commands_json_def dec_field_there is_object_def)
qed

text \<open>The agent reads every command that a poll gives out back as it is stored, in the same order.\<close>

theorem commands_roundtrip: "decode_commands (commands_json cs) = Some (map (Some \<circ> claimed_command) cs)"
  by (rule commands_read)

text \<open>A codec for the witness: the length of the address in unary, the address and the token.\<close>

definition unary_payload :: "string \<Rightarrow> string \<Rightarrow> string" where
  "unary_payload u r = replicate (length u) (CHR ''a'') @ CHR ''|'' # u @ r"

definition unary_decode :: "string \<Rightarrow> (string \<times> string) option" where
  "unary_decode s = (let n = length (takeWhile (\<lambda>c. c = CHR ''a'') s); t = drop (Suc n) s in Some (take n t, drop n t))"

lemma unary_decode_payload: "unary_decode (unary_payload u r) = Some (u, r)"
proof -
  have "takeWhile (\<lambda>c. c = CHR ''a'') (replicate n (CHR ''a'') @ CHR ''|'' # xs) = replicate n (CHR ''a'')" for n xs
    by (induction n) auto
  then show ?thesis by (simp add: unary_payload_def unary_decode_def)
qed

definition token_call :: api_request where
  "token_call = \<lparr>aq_authorization = [], aq_host_id = [], aq_query = [],
     aq_body = Some (JObj [(''label'', JStr ''web''), (''server_url'', JStr ''http://o'')]), aq_remote_addr = []\<rparr>"

definition token_config :: api_config where
  "token_config = sample_server_config\<lparr>sc_payload_json := unary_payload\<rparr>"

theorem payload_roundtrip_witness:
  "\<exists>t s'. handle_create_token calm_server token_config token_call fresh_server = ((201, Token_Reply t), s')
     \<and> (\<exists>url token. init_arguments Some unary_decode (tc_payload t) [] [] = Inr (url, token)
          \<and> (\<exists>rec \<in> set (t_tokens (srv_db s')). et_token_hash rec = sv_sha_hex calm_server token))"
proof -
  let ?r = "handle_create_token calm_server token_config token_call fresh_server"
  have "case fst ?r of (st, Token_Reply t) \<Rightarrow> st = 201 | _ \<Rightarrow> False" by code_simp
  then obtain t where "fst ?r = (201, Token_Reply t)" by (cases "fst ?r") (auto split: reply.splits)
  then have r: "?r = ((201, Token_Reply t), snd ?r)" by (metis prod.collapse)
  have "sc_encode64 token_config x = x" "sc_payload_json token_config u v = unary_payload u v" for x u v
    by (simp_all add: token_config_def sample_server_config_def)
  then show ?thesis using payload_roundtrip [OF r, of Some unary_decode] r unary_decode_payload
    by (fastforce simp: unary_payload_def)
qed

section \<open>Heartbeats\<close>

definition heartbeat_body :: json where
  "heartbeat_body = json_map [(''ip_address'', JStr [])]"

lemma heartbeat_sends: "heartbeat E c [] s = post E c ''/api/v1/agents/heartbeat'' (cl_host_id c) heartbeat_body s"
  by (simp add: heartbeat_def heartbeat_body_def)

lemma ids_update_where: "(\<And>r. g (f r) = g r) \<Longrightarrow> g ` set (update_where p f rs) = g ` set rs"
  by (metis list.set_map map_update_where)

lemma updated_row:
  assumes "h \<in> set (update_where p f rs)" and "p h"
  shows "\<exists>r. h = f r"
proof -
  obtain r where "h = (if p r then f r else r)" using assms(1) unfolding update_where_def set_map by (elim imageE)
  then show ?thesis using assms(2) by (cases "p r") auto
qed

lemma heartbeat_saved:
  assumes "\<And>n. sv_up E n" and "sv_pg_uuid E i = Some hid" and "hid \<in> host_ids db"
  shows "\<exists>db' now. agent_heartbeat E i ip db = (Inr (), db') \<and> t_hosts db' = update_where (\<lambda>h. h_id h = hid)
     (\<lambda>h. h\<lparr>h_last_heartbeat_at := Some now, h_status := ''active'', h_ip_address := ip\<rparr>) (t_hosts db)"
proof -
  let ?now = "sv_db_now E (pg_calls db)"
  let ?db1 = "bump (db\<lparr>t_hosts := update_where (\<lambda>h. h_id h = hid)
     (\<lambda>h. h\<lparr>h_last_heartbeat_at := Some ?now, h_status := ''active'', h_ip_address := ip\<rparr>) (t_hosts db)\<rparr>)"
  have u: "host_update_heartbeat E i ip db = (Inr (), ?db1)" using assms by (simp add: host_update_heartbeat_def stmt_def)
  have "host_ids ?db1 = host_ids db" by (simp add: host_ids_def ids_update_where)
  then have "\<exists>db'. host_upsert_state E i st hb n (bump ?db1) = (Inr (), db') \<and> t_hosts db' = t_hosts ?db1" for st hb n
    using assms by (simp add: host_upsert_state_def stmt_def Let_def)
  then obtain db' where "host_upsert_state E i ''active'' (Some (sv_now E (pg_calls ?db1))) 0 (bump ?db1) = (Inr (), db')"
    "t_hosts db' = t_hosts ?db1" by blast
  then show ?thesis using u by (intro exI [of _ db'] exI [of _ ?now]) (simp add: agent_heartbeat_def server_now_def)
qed

text \<open>The heartbeat of the agent carries no address, and the server stores what it carries: from the first heartbeat
  on, the address the host registered with is gone.\<close>

theorem heartbeat_erases_ip:
  assumes "\<And>n. sv_up E n" and "aq_host_id q \<noteq> []" and "sv_pg_uuid E (aq_host_id q) = Some hid" and "hid \<in> host_ids (srv_db s)"
    and "aq_body q = Some heartbeat_body"
  shows "\<exists>s'. handle_heartbeat E q s = ((200, OK_Reply), s') \<and> host_ids (srv_db s') = host_ids (srv_db s)
    \<and> (\<forall>h \<in> set (t_hosts (srv_db s')). h_id h = hid \<longrightarrow> h_ip_address h = [] \<and> h_status h = ''active'')"
proof -
  obtain db' now where db': "agent_heartbeat E (aq_host_id q) [] (srv_db s) = (Inr (), db')"
    "t_hosts db' = update_where (\<lambda>h. h_id h = hid)
       (\<lambda>h. h\<lparr>h_last_heartbeat_at := Some now, h_status := ''active'', h_ip_address := []\<rparr>) (t_hosts (srv_db s))"
    using heartbeat_saved [OF assms(1,3,4)] by blast
  have "as_body [] decode_heartbeat (aq_body q) = Some []"
    using assms(5) by (simp add: as_body_def heartbeat_body_def decode_heartbeat_def dec_field_there)
  then have "handle_heartbeat E q s = ((200, OK_Reply), s\<lparr>srv_db := db'\<rparr>)"
    using assms(2) db'(1) by (simp add: handle_heartbeat_def with_host_def on_db_def write_json_def)
  moreover have "host_ids db' = host_ids (srv_db s)"
    by (simp add: host_ids_def db'(2) ids_update_where)
  moreover have "h \<in> set (t_hosts db') \<Longrightarrow> h_id h = hid \<Longrightarrow> h_ip_address h = [] \<and> h_status h = ''active''" for h
    unfolding db'(2) by (drule updated_row) auto
  ultimately show ?thesis by (intro exI [of _ "s\<lparr>srv_db := db'\<rparr>"]) simp
qed

definition beat :: api_request where
  "beat = \<lparr>aq_authorization = [], aq_host_id = ''h'', aq_query = [], aq_body = Some heartbeat_body, aq_remote_addr = []\<rparr>"

theorem heartbeat_erases_ip_witness:
  "\<exists>s'. handle_heartbeat calm_server beat \<lparr>srv_auth = new_auth,
       srv_db = empty_pg\<lparr>t_hosts := [(host_row ''h'')\<lparr>h_ip_address := ''10.0.0.1''\<rparr>]\<rparr>\<rparr> = ((200, OK_Reply), s')
     \<and> host_ids (srv_db s') = {''h''} \<and> (\<forall>h \<in> set (t_hosts (srv_db s')). h_id h = ''h'' \<longrightarrow> h_ip_address h = [])"
  using heartbeat_erases_ip [of calm_server beat "''h''" "\<lparr>srv_auth = new_auth,
      srv_db = empty_pg\<lparr>t_hosts := [(host_row ''h'')\<lparr>h_ip_address := ''10.0.0.1''\<rparr>]\<rparr>\<rparr>"]
  by (auto simp: calm_server_def beat_def host_ids_def host_row_def)

section \<open>Routes\<close>

lemma split_aux_segment: "sep \<notin> set w \<Longrightarrow> split_aux sep cur (w @ sep # s) = (cur @ w) # split_aux sep [] s"
  by (induction w arbitrary: cur) auto

text \<open>Every request of the agent reaches the handler it is meant for, whatever the identifier of the command.\<close>

theorem agent_requests_routed:
  assumes "CHR ''/'' \<notin> set i" and "i \<noteq> []"
  shows "match_route ''POST'' ''/api/v1/agents/enroll'' = Some Enroll_Route
    \<and> match_route ''POST'' ''/api/v1/agents/heartbeat'' = Some Heartbeat_Route
    \<and> match_route ''POST'' ''/api/v1/jobs/discovery'' = Some Discovery_Route
    \<and> match_route ''POST'' ''/api/v1/executions/batch'' = Some Batch_Executions_Route
    \<and> match_route ''POST'' ''/api/v1/metrics/batch'' = Some Batch_Metrics_Route
    \<and> match_route ''GET'' ''/api/v1/agents/commands'' = Some Claim_Route
    \<and> match_route ''POST'' (''/api/v1/agents/commands/'' @ i @ ''/complete'') = Some (Complete_Route i)"
proof -
  have "split_on CHR ''/'' (''/api/v1/agents/commands/'' @ i @ ''/complete'')
      = [[], ''api'', ''v1'', ''agents'', ''commands'', i, ''complete'']"
    using split_aux_segment [OF assms(1), of "[]" "''complete''"] by (simp add: split_on_def)
  moreover have "map_of fixed_routes (''POST'', ''/api/v1/agents/commands/'' @ i @ ''/complete'') = None"
    by (simp add: fixed_routes_def)
  ultimately have "match_route ''POST'' (''/api/v1/agents/commands/'' @ i @ ''/complete'') = Some (Complete_Route i)"
    using assms(2) by (simp add: match_route_def param_route_def)
  moreover have "match_route ''POST'' ''/api/v1/agents/enroll'' = Some Enroll_Route"
    "match_route ''POST'' ''/api/v1/agents/heartbeat'' = Some Heartbeat_Route"
    "match_route ''POST'' ''/api/v1/jobs/discovery'' = Some Discovery_Route"
    "match_route ''POST'' ''/api/v1/executions/batch'' = Some Batch_Executions_Route"
    "match_route ''POST'' ''/api/v1/metrics/batch'' = Some Batch_Metrics_Route"
    "match_route ''GET'' ''/api/v1/agents/commands'' = Some Claim_Route"
    by (simp_all add: match_route_def fixed_routes_def)
  ultimately show ?thesis by blast
qed

theorem agent_requests_routed_witness:
  "match_route ''POST'' (''/api/v1/agents/commands/'' @ ''c1'' @ ''/complete'') = Some (Complete_Route ''c1'')"
proof -
  have "CHR ''/'' \<notin> set ''c1''" "''c1'' \<noteq> []" by simp_all
  from agent_requests_routed [OF this] show ?thesis by blast
qed

end
