(* ===== verification/Network.thy ===== *)
theory Network
  imports Wire JobMap
begin

text \<open>
  The agent talking to the server: a request of the client of \<open>Client\<close> is delivered to the router of
  \<open>Handlers\<close>, as \<open>net/http\<close> does it, with the headers the handlers read. The theorems follow one agent from
  its enrollment to the jobs of its crontab in the tables of the server.
\<close>

section \<open>Delivery\<close>

definition header :: "string \<Rightarrow> (string \<times> string) list \<Rightarrow> string" where
  "header k hs = (case map_of hs k of None \<Rightarrow> [] | Some v \<Rightarrow> v)"

text \<open>The parameters of a query string without escapes, which is all the client sends.\<close>

definition query_of :: "string \<Rightarrow> (string \<times> string) list" where
  "query_of url = concat (map (\<lambda>p. case split2 CHR ''='' p of None \<Rightarrow> [] | Some kv \<Rightarrow> [kv])
     (split_on CHR ''&'' (drop 1 (dropWhile (\<lambda>c. c \<noteq> CHR ''?'') url))))"

definition received :: "string \<Rightarrow> string \<Rightarrow> http_request \<Rightarrow> api_request" where
  "received addr url rq = \<lparr>aq_authorization = header ''Authorization'' (rq_headers rq),
     aq_host_id = header ''X-Host-ID'' (rq_headers rq), aq_query = query_of url, aq_body = rq_body rq,
     aq_remote_addr = addr\<rparr>"

text \<open>\<open>base\<close> is the address of the server as the agent writes it, \<open>addr\<close> that of the agent.\<close>

definition deliver :: "server_env \<Rightarrow> api_config \<Rightarrow> string \<Rightarrow> string \<Rightarrow> http_request \<Rightarrow> server \<Rightarrow> handled" where
  "deliver E K base addr rq s =
     (let url = drop (length base) (rq_url rq) in
      case match_route (rq_method rq) (takeWhile (\<lambda>c. c \<noteq> CHR ''?'') url) of
        None \<Rightarrow> write_error 404 ''404 page not found'' s
      | Some r \<Rightarrow> serve E K r (received addr url rq) s)"

section \<open>An enrolled agent gets through\<close>

lemma bearer_token_header: "word_ok t \<Longrightarrow> bearer_token (''Bearer '' @ t) = t"
proof -
  assume "word_ok t"
  then have "trimmed t" by (simp add: word_ok_def trimmed_def)
  moreover have "trim_prefix ''Bearer '' (''Bearer '' @ t) = t"
    unfolding trim_prefix_def by simp
  ultimately show ?thesis unfolding bearer_token_def by (simp add: trim_space_id)
qed

lemma api_auth_credential:
  assumes "bearer_token h = t" and "t \<noteq> []" and "i \<noteq> []" and "v i t s = (True, s')"
  shows "\<exists>a'. api_auth C (Some v) now h i a s = (True, a', s) \<or> api_auth C (Some v) now h i a s = (True, a', s')"
  using assms by (auto simp: api_auth_def Let_def split: prod.split bool.split)

lemma enrolled_served:
  assumes "pg_ok db" and "enroll_agent E st t h db = (Inr r, db')" and "\<And>n. sv_up E n"
    and "word_ok (er_agent_token r)" and "h_id (er_host r) \<noteq> []" and "srv_db s = db'"
    and "aq_authorization q = ''Bearer '' @ er_agent_token r" and "aq_host_id q = h_id (er_host r)" and "\<not> public_route rt"
  shows "\<exists>a n. serve E K rt q s = handle E K rt q \<lparr>srv_auth = a, srv_db = db'\<lparr>pg_calls := n\<rparr>\<rparr>"
proof -
  let ?i = "h_id (er_host r)" and ?t = "er_agent_token r" and ?db = "bump db'"
  have ok: "pg_ok db'" using enroll_agent_ok [OF assms(1), of E st t h] assms(2) by simp
  obtain db3 where c: "credential_upsert E ?i (sv_sha_hex E ?t) db3 = (Inr (), db')" using assms(2) by (rule enroll_agent_cases)
  obtain hid cr where cr: "sv_pg_uuid E ?i = Some hid" "credential_of hid db' = Some cr" "cr_token_hash cr = sv_sha_hex E ?t"
    using credential_saved [OF c] by blast
  have "validate_credential E ?i ?t ?db = (True, bump ?db)"
    using credential_validate_of [of ?db E ?i hid ?t] ok cr assms(3) by (simp add: credential_of_def)
  moreover have "bearer_token (aq_authorization q) = ?t" using bearer_token_header [OF assms(4)] assms(7) by simp
  moreover have "?t \<noteq> []" using assms(4) by (simp add: word_ok_def)
  ultimately obtain a' where
    "api_auth (sc_auth K) (Some (validate_credential E)) now (aq_authorization q) (aq_host_id q) (srv_auth s) ?db = (True, a', ?db)
     \<or> api_auth (sc_auth K) (Some (validate_credential E)) now (aq_authorization q) (aq_host_id q) (srv_auth s) ?db
         = (True, a', bump ?db)" if "now = sv_now E (pg_calls db')" for now
    using api_auth_credential [of "aq_authorization q" ?t ?i "validate_credential E" ?db "bump ?db" "sc_auth K"
        "sv_now E (pg_calls db')" "srv_auth s"] assms(5,8) by metis
  then show ?thesis using assms(6,9)
    by (fastforce simp: serve_def server_now_def on_db_def bump_def)
qed

lemma enrolled_served_post:
  assumes "pg_ok db" and "enroll_agent E st t h db = (Inr r, db')" and "\<And>n. sv_up E n"
    and "word_ok (er_agent_token r)" and "h_id (er_host r) \<noteq> []" and "srv_db s = db'"
    and "cl_token c = er_agent_token r" and "cl_host_id c = h_id (er_host r)"
    and "match_route ''POST'' path = Some rt" and "\<not> public_route rt" and "CHR ''?'' \<notin> set path"
  shows "\<exists>a n. deliver E K (cl_base_url c) addr (post_request c path (cl_host_id c) body) s
    = handle E K rt (received addr path (post_request c path (cl_host_id c) body))
        \<lparr>srv_auth = a, srv_db = db'\<lparr>pg_calls := n\<rparr>\<rparr>"
proof -
  let ?rq = "post_request c path (cl_host_id c) body"
  have "er_agent_token r \<noteq> []" using assms(4) by (simp add: word_ok_def)
  then have "aq_authorization (received addr path ?rq) = ''Bearer '' @ er_agent_token r"
    "aq_host_id (received addr path ?rq) = h_id (er_host r)"
    using assms(5,7,8) by (simp_all add: received_def post_request_def auth_headers_def header_def)
  note enrolled_served [OF assms(1-6) this assms(10)]
  moreover have "deliver E K (cl_base_url c) addr ?rq s = serve E K rt (received addr path ?rq) s"
  proof -
    have "takeWhile (\<lambda>c. c \<noteq> CHR ''?'') path = path" using assms(11) by (auto simp: takeWhile_eq_all_conv)
    moreover have "drop (length (cl_base_url c)) (rq_url ?rq) = path" "rq_method ?rq = ''POST''"
      by (simp_all add: post_request_def)
    ultimately show ?thesis using assms(9) by (simp add: deliver_def del: takeWhile_eq_all_conv)
  qed
  ultimately show ?thesis by simp
qed

text \<open>An agent that enrolled gets through: whichever protected route its client asks for, with the token and the host
  of the enrollment, the router hands the request to the handler of the route and the tables are untouched
  until then.\<close>

theorem enrolled_agent_served:
  assumes "pg_ok db" and "enroll_agent E st t h db = (Inr r, db')" and "\<And>n. sv_up E n"
    and "word_ok (er_agent_token r)" and "h_id (er_host r) \<noteq> []" and "srv_db s = db'"
    and "cl_token c = er_agent_token r" and "cl_host_id c = h_id (er_host r)"
    and "match_route ''POST'' path = Some rt" and "\<not> public_route rt" and "CHR ''?'' \<notin> set path"
  shows "\<exists>a n. deliver E K (cl_base_url c) addr (post_request c path (cl_host_id c) body) s
    = handle E K rt (received addr path (post_request c path (cl_host_id c) body))
        \<lparr>srv_auth = a, srv_db = db'\<lparr>pg_calls := n\<rparr>\<rparr>"
  using assms by (rule enrolled_served_post)

lemma enrolled_host:
  assumes "pg_ok db" and "enroll_agent E st t h db = (Inr r, db')" and "sv_pg_uuid E (h_id (er_host r)) = Some hid"
  shows "hid \<in> host_ids db'"
proof -
  have ok: "pg_ok db'" using enroll_agent_ok [OF assms(1), of E st t h] assms(2) by simp
  obtain db3 where "credential_upsert E (h_id (er_host r)) (sv_sha_hex E (er_agent_token r)) db3 = (Inr (), db')"
    using assms(2) by (rule enroll_agent_cases)
  then obtain cr where "credential_of hid db' = Some cr" using credential_saved assms(3) by fastforce
  then have "cr \<in> set (t_credentials db')" "cr_host_id cr = hid" by (auto simp: credential_of_def find_Some_iff)
  then show ?thesis using pg_okD(13) [OF ok] by (auto simp: table_ok_def)
qed

section \<open>From the crontab to the tables\<close>

definition discovery_request :: "client \<Rightarrow> discovered_job list \<Rightarrow> http_request" where
  "discovery_request c jobs =
     post_request c ''/api/v1/jobs/discovery'' (cl_host_id c) (json_map [(''jobs'', to_discovery_payload jobs)])"

lemma submit_discovery_sends:
  "submit_discovery E c (json_map [(''jobs'', to_discovery_payload js)]) s =
     (case http E (discovery_request c js) s of
        (Transport_Error, s) \<Rightarrow> (Some Transport, s)
      | (Response status b, s) \<Rightarrow> (if 400 \<le> status then Some (Server_Error status) else None, s))"
  by (simp add: submit_discovery_def post_def post_raw_def discovery_request_def split: prod.split http_result.split)

lemma handle_discovery_jobs:
  assumes "takes_jobs E i i (srv_db s)" and "aq_host_id q = i" and "i \<noteq> []"
    and "aq_body q = Some (json_map [(''jobs'', to_discovery_payload js)])" and "\<forall>j \<in> set js. dj_source_type j \<in> set job_sources"
  shows "\<exists>saved s'. handle_discovery E q s = ((200, Discovery_Reply (int (length js)) saved), s')
    \<and> job_map (srv_db s') = learn i (map reported_job js) (job_map (srv_db s))"
proof -
  obtain ds where ds: "as_body [] decode_discovery (aq_body q) = Some ds" "map discovered_to_domain ds = map reported_job js"
    using discovery_read [of js] assms(4) by auto
  obtain saved db where p: "process_discovery E i (map reported_job js) (srv_db s) = (saved, db)" by fastforce
  have "\<forall>j \<in> set (map reported_job js). j_source_type j \<in> set job_sources"
    using assms(5) by (auto simp: reported_job_def)
  from discovery_learned [OF assms(1) this] p
  have "length saved = length js" "job_map db = learn i (map reported_job js) (job_map (srv_db s))"
    by (auto dest: map_eq_imp_length_eq)
  then show ?thesis using ds p assms(2,3)
    by (simp add: handle_discovery_def with_host_def on_db_def write_json_def)
qed

text \<open>C4. The whole way: the agent that enrolled scans a crontab of well-formed entries and submits what it found; the
  server answers 200 with all of them, and its table of jobs describes afterwards every entry of the crontab
  under the host of the agent and the hash of the normalized command, the last one when two entries share it.\<close>

theorem crontab_reaches_database:
  assumes "pg_ok db" and "enroll_agent E st t h db = (Inr r, db')" and "\<And>n. sv_up E n"
    and "word_ok (er_agent_token r)" and "h_id (er_host r) \<noteq> []" and "srv_db s = db'"
    and "cl_token c = er_agent_token r" and "cl_host_id c = h_id (er_host r)"
    and "sv_pg_uuid E (h_id (er_host r)) = Some (h_id (er_host r))" and "sv_parse_uuid E (h_id (er_host r)) = Some (h_id (er_host r))"
    and "inj (sv_new_uuid E)" and "\<And>n. sv_new_uuid E n \<notin> job_ids db'"
    and "\<forall>e \<in> set es. entry_ok e"
    and "os_read os path = Some (concat (map (\<lambda>(ts, user, cmd). render_entry ts user cmd @ [CHR 0x0A]) es))"
  shows "\<exists>saved s'. deliver E K (cl_base_url c) addr (discovery_request c (fst (parse_crontab sha os path True))) s
      = ((200, Discovery_Reply (int (length es)) saved), s')
    \<and> job_map (srv_db s') = learn (h_id (er_host r)) (map (reported_job \<circ> entry_job sha path ''UTC'') es) (job_map db')"
proof -
  let ?i = "h_id (er_host r)" and ?js = "map (entry_job sha path ''UTC'') es"
  let ?rq = "discovery_request c ?js"
  have js: "fst (parse_crontab sha os path True) = ?js" using crontab_parses [OF assms(13,14)] by simp
  have route: "match_route ''POST'' ''/api/v1/jobs/discovery'' = Some Discovery_Route"
    by (simp add: match_route_def fixed_routes_def)
  obtain a n where d: "deliver E K (cl_base_url c) addr ?rq s
      = handle_discovery E (received addr ''/api/v1/jobs/discovery'' ?rq) \<lparr>srv_auth = a, srv_db = db'\<lparr>pg_calls := n\<rparr>\<rparr>"
    using enrolled_served_post [OF assms(1-8) route] unfolding discovery_request_def by (fastforce simp: public_route_def)
  have "?i \<in> host_ids db'" by (rule enrolled_host [OF assms(1,2,9)])
  then have takes: "takes_jobs E ?i ?i (db'\<lparr>pg_calls := n\<rparr>)"
    using assms(3,10-12) by (simp add: takes_jobs_def host_ids_def job_ids_def)
  have "\<forall>j \<in> set ?js. dj_source_type j \<in> set job_sources"
    by (auto simp: entry_job_def job_sources_def split: prod.split)
  moreover have "job_map (db'\<lparr>pg_calls := n\<rparr>) = job_map db'" by (auto simp: job_map_def job_of_def)
  moreover have "aq_host_id (received addr ''/api/v1/jobs/discovery'' ?rq) = ?i"
    "aq_body (received addr ''/api/v1/jobs/discovery'' ?rq) = Some (json_map [(''jobs'', to_discovery_payload ?js)])"
    using assms(5,8) by (simp_all add: received_def discovery_request_def post_request_def auth_headers_def header_def)
  ultimately show ?thesis
    using handle_discovery_jobs [of E ?i "\<lparr>srv_auth = a, srv_db = db'\<lparr>pg_calls := n\<rparr>\<rparr>" _ ?js] takes assms(5) d js
    by (auto simp: comp_def)
qed

section \<open>An instance\<close>

definition sample_client :: "enrollment_result \<Rightarrow> client" where
  "sample_client r = \<lparr>cl_base_url = ''http://o'', cl_token = er_agent_token r, cl_host_id = h_id (er_host r)\<rparr>"

lemma new_uuid_calm: "inj (sv_new_uuid calm_server)" "sv_new_uuid calm_server n \<noteq> []"
proof -
  have "inj show_nat" by (rule injI) (metis digits_value_show)
  then show "inj (sv_new_uuid calm_server)" by (auto simp: calm_server_def inj_def)
qed (simp add: calm_server_def)

text \<open>An enrollment with the static token in the empty database.\<close>

lemma enrolled_sample:
  obtains r db' where "enroll_agent calm_server ''s'' ''s'' (host_row ''m'') empty_pg = (Inr r, db')"
    and "er_agent_token r = ''r4''" and "h_id (er_host r) = ''u1''" and "t_jobs db' = []"
proof -
  let ?x = "enroll_agent calm_server ''s'' ''s'' (host_row ''m'') empty_pg"
  have "map_sum (\<lambda>e. ()) (\<lambda>r. (er_agent_token r, h_id (er_host r))) (fst ?x) = Inr (''r4'', ''u1'')" by code_simp
  moreover have "t_jobs (snd ?x) = []" by code_simp
  ultimately show ?thesis using that by (cases ?x; cases "fst ?x") auto
qed

theorem enrolled_agent_served_witness:
  "\<exists>r db'. enroll_agent calm_server ''s'' ''s'' (host_row ''m'') empty_pg = (Inr r, db')
     \<and> fst (deliver calm_server sample_server_config ''http://o'' []
          (post_request (sample_client r) ''/api/v1/agents/heartbeat'' (h_id (er_host r)) heartbeat_body)
          \<lparr>srv_auth = new_auth, srv_db = db'\<rparr>) \<noteq> (401, Error_Reply ''invalid or missing token'')"
proof -
  obtain r db' where r: "enroll_agent calm_server ''s'' ''s'' (host_row ''m'') empty_pg = (Inr r, db')"
    "er_agent_token r = ''r4''" "h_id (er_host r) = ''u1''" by (rule enrolled_sample)
  let ?c = "sample_client r" and ?s = "\<lparr>srv_auth = new_auth, srv_db = db'\<rparr>"
  have "match_route ''POST'' ''/api/v1/agents/heartbeat'' = Some Heartbeat_Route" by (simp add: match_route_def fixed_routes_def)
  moreover have "word_ok (er_agent_token r)" by (simp add: r word_ok_def is_space_def)
  moreover have "sv_up calm_server n" for n by (simp add: calm_server_def)
  ultimately obtain a n where "deliver calm_server sample_server_config (cl_base_url ?c) []
      (post_request ?c ''/api/v1/agents/heartbeat'' (cl_host_id ?c) heartbeat_body) ?s
    = handle calm_server sample_server_config Heartbeat_Route
        (received [] ''/api/v1/agents/heartbeat'' (post_request ?c ''/api/v1/agents/heartbeat'' (cl_host_id ?c) heartbeat_body))
        \<lparr>srv_auth = a, srv_db = db'\<lparr>pg_calls := n\<rparr>\<rparr>"
    using enrolled_agent_served [OF empty_pg_ok r(1), of ?s ?c "''/api/v1/agents/heartbeat''" Heartbeat_Route sample_server_config "[]" heartbeat_body]
    by (auto simp: r sample_client_def public_route_def)
  then show ?thesis using r(1)
    by (auto simp: sample_client_def handle_heartbeat_def with_host_def write_error_def write_json_def Let_def split: prod.splits sum.splits)
qed

definition sample_entry :: "string list \<times> string \<times> string" where
  "sample_entry = ([''0'', ''2'', ''*'', ''*'', ''*''], ''root'', ''/opt/b.sh --full'')"

definition sample_os :: os_files where
  "sample_os = \<lparr>os_read = (\<lambda>p. Some (''0 2 * * * root /opt/b.sh --full'' @ [CHR 0x0A])), os_glob = (\<lambda>p. []),
     os_read_dir = (\<lambda>d. None), os_join = (\<lambda>d n. d @ n)\<rparr>"

theorem crontab_reaches_database_witness:
  "\<exists>r db' saved s'. enroll_agent calm_server ''s'' ''s'' (host_row ''m'') empty_pg = (Inr r, db')
     \<and> deliver calm_server sample_server_config ''http://o'' []
          (discovery_request (sample_client r) (fst (parse_crontab (\<lambda>s. s) sample_os ''/etc/crontab'' True)))
          \<lparr>srv_auth = new_auth, srv_db = db'\<rparr> = ((200, Discovery_Reply 1 saved), s')
     \<and> map_option jp_schedule (job_map (srv_db s') (''u1'', command_hash (\<lambda>s. s) (normalize_command ''/opt/b.sh --full'')))
        = Some ''0 2 * * *''"
proof -
  obtain r db' where r: "enroll_agent calm_server ''s'' ''s'' (host_row ''m'') empty_pg = (Inr r, db')"
    "er_agent_token r = ''r4''" "h_id (er_host r) = ''u1''" "t_jobs db' = []" by (rule enrolled_sample)
  let ?c = "sample_client r" and ?s = "\<lparr>srv_auth = new_auth, srv_db = db'\<rparr>"
  have "\<forall>e \<in> set [sample_entry]. entry_ok e"
    by (simp add: sample_entry_def entry_ok_def word_ok_def is_space_def trimmed_def render_entry_def max_token_def)
  moreover have "os_read sample_os ''/etc/crontab''
      = Some (concat (map (\<lambda>(ts, user, cmd). render_entry ts user cmd @ [CHR 0x0A]) [sample_entry]))"
    by (simp add: sample_os_def sample_entry_def render_entry_def)
  moreover have "word_ok (er_agent_token r)" by (simp add: r word_ok_def is_space_def)
  moreover have "sv_up calm_server n" "sv_pg_uuid calm_server = Some" "sv_parse_uuid calm_server = Some" for n
    by (simp_all add: calm_server_def)
  moreover have "job_ids db' = {}" by (simp add: job_ids_def r)
  ultimately obtain saved s' where
    d: "deliver calm_server sample_server_config (cl_base_url ?c) []
          (discovery_request ?c (fst (parse_crontab (\<lambda>s. s) sample_os ''/etc/crontab'' True))) ?s
        = ((200, Discovery_Reply (int (length [sample_entry])) saved), s')"
    and m: "job_map (srv_db s') = learn ''u1''
        (map (reported_job \<circ> entry_job (\<lambda>s. s) ''/etc/crontab'' ''UTC'') [sample_entry]) (job_map db')"
    using crontab_reaches_database [OF empty_pg_ok r(1), of ?s ?c "[sample_entry]" sample_os "''/etc/crontab''"
        sample_server_config "[]" "\<lambda>s. s"] new_uuid_calm(1) r(3)
    by (auto simp: sample_client_def)
  have "job_map (srv_db s') (''u1'', command_hash (\<lambda>s. s) (normalize_command ''/opt/b.sh --full''))
      = Some (spec_of (reported_job (entry_job (\<lambda>s. s) ''/etc/crontab'' ''UTC'' sample_entry)))"
    unfolding m by (simp add: learn_def reported_job_def entry_job_def sample_entry_def)
  then have "map_option jp_schedule (job_map (srv_db s') (''u1'', command_hash (\<lambda>s. s) (normalize_command ''/opt/b.sh --full'')))
      = Some ''0 2 * * *''"
    by (simp add: spec_of_def reported_job_def entry_job_def sample_entry_def)
  then show ?thesis using d r(1) by (auto simp: sample_client_def)
qed

end
