(* ===== verification/RemoteRuns.thy ===== *)
theory RemoteRuns
  imports Network
begin

text \<open>
  Running jobs from the dashboard: the jobs of a request are queued as commands, the next poll of the agent
  gives them out, and the agent reads the command lines that the server stored for the jobs.
\<close>

section \<open>A poll after a request\<close>

lemma queued_picked:
  assumes "filter (pending_for hid) old = []" and "\<forall>c \<in> set new. pending_for hid c" and "length new \<le> n"
  shows "set (picked hid n (old @ new)) = set new"
proof -
  have "filter (pending_for hid) (old @ new) = new" using assms(1,2) by (simp add: filter_True)
  then show ?thesis using assms(3) by (simp add: picked_def)
qed

lemma claim_queued:
  assumes "distinct (map c_id (old @ new))" and "filter (pending_for hid) old = []" and "\<forall>c \<in> set new. pending_for hid c"
    and "length new \<le> claim_size l" and "sv_pg_uuid E i = Some hid" and "t_commands db = old @ new"
    and "command_claim_pending E i l db = (Inr got, db')"
  shows "\<exists>now. got = map (dispatch now) new \<and> t_commands db' = old @ got"
proof -
  obtain now where
    rows: "t_commands db' = update_where (\<lambda>c. c_id c \<in> c_id ` set (picked hid (claim_size l) (t_commands db))) (dispatch now) (t_commands db)"
    and got: "got = filter (\<lambda>c. c_id c \<in> c_id ` set (picked hid (claim_size l) (t_commands db))) (t_commands db')"
    using assms(5,7) by (auto elim: command_claim_cases)
  have ids: "c_id ` set (picked hid (claim_size l) (t_commands db)) = c_id ` set new"
    using queued_picked [OF assms(2-4)] assms(6) by simp
  have "c \<in> set old \<Longrightarrow> c_id c \<notin> c_id ` set new" for c using assms(1) by auto
  then have "update_where (\<lambda>c. c_id c \<in> c_id ` set new) (dispatch now) (old @ new) = old @ map (dispatch now) new"
    by (auto simp: update_where_def intro: map_idI)
  moreover have "filter (\<lambda>c. c_id c \<in> c_id ` set new) (old @ map (dispatch now) new) = map (dispatch now) new"
    using \<open>\<And>c. c \<in> set old \<Longrightarrow> c_id c \<notin> c_id ` set new\<close>
    by (auto simp: filter_empty_conv dispatch_def intro: filter_True)
  ultimately have "t_commands db' = old @ map (dispatch now) new" "got = map (dispatch now) new"
    using rows got unfolding ids unfolding assms(6) by simp_all
  then show ?thesis by auto
qed

lemma enqueued:
  assumes "pg_ok db" and "enqueue_runs E h jids db = (Inr cs, db')" and "sv_pg_uuid E h = Some hid"
  shows "t_commands db' = t_commands db @ cs \<and> length cs = length jids \<and> distinct (map c_id (t_commands db'))
    \<and> (\<forall>c \<in> set cs. pending_for hid c \<and> (\<exists>j \<in> set (t_jobs db). j_host_id j = h \<and> c_raw_command c = j_raw_command j))"
proof -
  have "pg_ok db'" using enqueue_loop_ok [OF assms(1), of E h jids "[]"] assms(2) by (simp add: enqueue_runs_def)
  then have "distinct (map c_id (t_commands db'))" using pg_okD(12) by (auto simp: table_ok_def)
  then show ?thesis using enqueue_loop_appends [of E h jids "[]" db] assms(2,3)
    by (fastforce simp: enqueue_runs_def runs_job_def pending_for_def)
qed


definition run_call :: api_request where
  "run_call = \<lparr>aq_authorization = [], aq_host_id = [], aq_query = [],
     aq_body = Some (JObj [(''job_ids'', JArr [JStr ''k''])]), aq_remote_addr = []\<rparr>"

definition poll_call :: api_request where
  "poll_call = \<lparr>aq_authorization = [], aq_host_id = ''h'', aq_query = [(''limit'', ''10'')], aq_body = None, aq_remote_addr = []\<rparr>"

fun queued_of :: "handled \<Rightarrow> agent_command list option" where
  "queued_of ((st, Queued_Reply n cs), s) = (if st = 202 then Some cs else None)"
| "queued_of ((st, r), s) = None"

fun polled_of :: "handled \<Rightarrow> agent_command list option" where
  "polled_of ((st, Commands_Reply cs), s) = (if st = 200 then Some cs else None)"
| "polled_of ((st, r), s) = None"

lemma queued_ofD: "queued_of x = Some cs \<Longrightarrow> \<exists>n. x = ((202, Queued_Reply n cs), snd x)"
  by (cases x rule: queued_of.cases) (simp_all split: if_splits)

lemma polled_ofD: "polled_of x = Some cs \<Longrightarrow> x = ((200, Commands_Reply cs), snd x)"
  by (cases x rule: polled_of.cases) (simp_all split: if_splits)


end
