(* ===== verification/Rows.thy ===== *)
theory Rows
  imports Services
begin

text \<open>
  How the repositories read the rows of a result (\<open>scanX\<close> and \<open>collectX\<close> in
  \<open>apps/server/internal/repository\<close>). A statement names the columns it wants, and \<open>Scan\<close> assigns their
  values to its destinations by position, so the column list of a statement and the destinations have to
  agree, and a column that can be NULL needs a destination that can be nil. The other theories take a
  table as a list of records; \<open>rows_scan_back\<close> says that the code sees these records.
\<close>

section \<open>Values and the driver\<close>

datatype sql_value =
    SNull
  | SText string
  | STexts "string list"
  | SUuid string
  | SBool bool
  | SInt int
  | SFloat real
  | STime time
  | SJson json

text \<open>
  The driver decodes a value for a destination of a Go type: \<open>string\<close>, \<open>[]string\<close>, \<open>uuid.UUID\<close> (read
  as its text), \<open>string\<close> for a UUID column, \<open>bool\<close>, \<open>int\<close>, \<open>float64\<close>, \<open>time.Time\<close>, \<open>[]byte\<close>, and the pointers \<open>*string\<close>,
  \<open>*uuid.UUID\<close>, \<open>*int\<close>, \<open>*float64\<close>, \<open>*time.Time\<close>. \<open>None\<close> is an error of the driver and \<open>Some None\<close> a
  nil pointer or slice.
\<close>

record driver =
  dv_text :: "sql_value \<Rightarrow> string option"
  dv_texts :: "sql_value \<Rightarrow> string list option"
  dv_uuid :: "sql_value \<Rightarrow> string option"
  dv_uuid_text :: "sql_value \<Rightarrow> string option"
  dv_bool :: "sql_value \<Rightarrow> bool option"
  dv_float :: "sql_value \<Rightarrow> real option"
  dv_time :: "sql_value \<Rightarrow> time option"
  dv_bytes :: "sql_value \<Rightarrow> json option option"
  dv_text_ptr :: "sql_value \<Rightarrow> string option option"
  dv_uuid_ptr :: "sql_value \<Rightarrow> string option option"
  dv_int_ptr :: "sql_value \<Rightarrow> int option option"
  dv_float_ptr :: "sql_value \<Rightarrow> real option option"
  dv_time_ptr :: "sql_value \<Rightarrow> time option option"

definition nullable :: "('a \<Rightarrow> sql_value) \<Rightarrow> 'a option \<Rightarrow> sql_value" where
  "nullable f x = (case x of None \<Rightarrow> SNull | Some v \<Rightarrow> f v)"

text \<open>What the driver documents: a value of the type of the column is decoded, NULL makes a pointer or a
  byte slice nil and is an error for a string.\<close>

definition driver_ok :: "driver \<Rightarrow> bool" where
  "driver_ok D \<longleftrightarrow>
     (\<forall>s. dv_text D (SText s) = Some s) \<and> (\<forall>xs. dv_texts D (STexts xs) = Some xs)
     \<and> (\<forall>u. dv_uuid D (SUuid u) = Some u) \<and> (\<forall>u. dv_uuid_text D (SUuid u) = Some u) \<and> (\<forall>b. dv_bool D (SBool b) = Some b)
     \<and> (\<forall>r. dv_float D (SFloat r) = Some r) \<and> (\<forall>t. dv_time D (STime t) = Some t)
     \<and> (\<forall>j. dv_bytes D (nullable SJson j) = Some j) \<and> (\<forall>s. dv_text_ptr D (nullable SText s) = Some s)
     \<and> (\<forall>u. dv_uuid_ptr D (nullable SUuid u) = Some u) \<and> (\<forall>i. dv_int_ptr D (nullable SInt i) = Some i)
     \<and> (\<forall>r. dv_float_ptr D (nullable SFloat r) = Some r) \<and> (\<forall>t. dv_time_ptr D (nullable STime t) = Some t)
     \<and> dv_text D SNull = None"

text \<open>The rows of a result: the values of the named columns, or \<open>None\<close> when the table has no such column.\<close>

definition select_row :: "string list \<Rightarrow> (string \<times> sql_value) list \<Rightarrow> sql_value list option" where
  "select_row cols cells = traverse (map_of cells) cols"

definition select_rows :: "string list \<Rightarrow> ('r \<Rightarrow> (string \<times> sql_value) list) \<Rightarrow> 'r list \<Rightarrow> sql_value list list option" where
  "select_rows cols cells rs = traverse (\<lambda>r. select_row cols (cells r)) rs"

section \<open>Scanning\<close>

text \<open>\<open>row.Scan\<close> for one row: the row, or the error that the query ended with.\<close>

definition scan_one :: "(repo_error \<Rightarrow> repo_error) \<Rightarrow> (sql_value list \<Rightarrow> 'a option) \<Rightarrow> repo_error + sql_value list
    \<Rightarrow> repo_error + 'a" where
  "scan_one wrap dec row =
     (case row of
        Inl e \<Rightarrow> Inl (wrap e)
      | Inr vs \<Rightarrow> (case dec vs of None \<Rightarrow> Inl (wrap Db_Error) | Some x \<Rightarrow> Inr x))"

text \<open>The loop over \<open>rows.Next\<close>; \<open>err\<close> is what \<open>rows.Err\<close> gives after the last row.\<close>

fun collect :: "(repo_error \<Rightarrow> repo_error) \<Rightarrow> (sql_value list \<Rightarrow> 'a option) \<Rightarrow> repo_error option \<Rightarrow> 'a list
    \<Rightarrow> sql_value list list \<Rightarrow> repo_error + 'a list" where
  "collect wrap dec err acc [] = (case err of None \<Rightarrow> Inr acc | Some e \<Rightarrow> Inl e)"
| "collect wrap dec err acc (r # rs) =
     (case dec r of None \<Rightarrow> Inl (wrap Db_Error) | Some x \<Rightarrow> collect wrap dec err (acc @ [x]) rs)"

lemma collect_traverse:
  "collect wrap dec err acc rs =
     (case traverse dec rs of None \<Rightarrow> Inl (wrap Db_Error)
      | Some xs \<Rightarrow> (case err of None \<Rightarrow> Inr (acc @ xs) | Some e \<Rightarrow> Inl e))"
  by (induction rs arbitrary: acc) (auto split: option.split)

lemma select_rows_map:
  "(\<And>r. select_row cols (cells r) = Some (f r)) \<Longrightarrow> select_rows cols cells rs = Some (map f rs)"
  unfolding select_rows_def by (induction rs) auto

lemma traverse_map_Some: "(\<And>x. dec (f x) = Some (g x)) \<Longrightarrow> traverse dec (map f xs) = Some (map g xs)"
  by (induction xs) auto

text \<open>Selecting the rows of a table and collecting them gives the table back when a single row comes back.\<close>

lemma collect_selected:
  assumes "\<And>r. \<exists>vs. select_row cols (cells r) = Some vs \<and> dec vs = Some (g r)"
  shows "\<exists>rows. select_rows cols cells rs = Some rows \<and> collect wrap dec None [] rows = Inr (map g rs)"
proof -
  define f where "f r = the (select_row cols (cells r))" for r
  have f: "select_row cols (cells r) = Some (f r)" "dec (f r) = Some (g r)" for r
    using assms [of r] by (auto simp: f_def)
  then show ?thesis by (simp add: select_rows_map collect_traverse traverse_map_Some)
qed

section \<open>Hosts\<close>

definition host_cells :: "host \<Rightarrow> (string \<times> sql_value) list" where
  "host_cells r =
     [(''id'', SUuid (h_id r)), (''machine_id'', SText (h_machine_id r)),
      (''hostname'', SText (h_hostname r)), (''ip_address'', SText (h_ip_address r)),
      (''environment'', SText (h_environment r)), (''tags'', STexts (h_tags r)),
      (''registered_at'', STime (h_registered_at r)),
      (''last_heartbeat_at'', nullable STime (h_last_heartbeat_at r)), (''status'', SText (h_status r)),
      (''agent_version'', SText (h_agent_version r)), (''metadata'', nullable SJson (h_metadata r))]"

definition host_columns :: "string list" where
  "host_columns = [''id'', ''machine_id'', ''hostname'', ''ip_address'', ''environment'', ''tags'',
    ''registered_at'', ''last_heartbeat_at'', ''status'', ''agent_version'', ''metadata'']"

definition decode_host :: "driver \<Rightarrow> sql_value list \<Rightarrow> host option" where
  "decode_host D row =
     (case row of
        [i, mi, hn, ip, en, tg, ra, hb, st, av, md] \<Rightarrow>
          (case (dv_uuid D i, dv_text D mi, dv_text D hn, dv_text D ip, dv_text D en, dv_texts D tg, dv_time D ra,
            dv_time_ptr D hb, dv_text D st, dv_text D av, dv_bytes D md) of
             (Some i, Some mi, Some hn, Some ip, Some en, Some tg, Some ra, Some hb, Some st, Some av,
               Some md) \<Rightarrow>
               Some \<lparr>h_id = i, h_machine_id = mi, h_hostname = hn, h_ip_address = ip, h_environment = en,
                 h_tags = tg, h_registered_at = ra, h_last_heartbeat_at = hb, h_status = st, h_agent_version = av,
                   h_metadata = md\<rparr>
           | _ \<Rightarrow> None)
      | _ \<Rightarrow> None)"

definition scan_host :: "server_env \<Rightarrow> driver \<Rightarrow> repo_error + sql_value list \<Rightarrow> repo_error + host" where
  "scan_host E D = scan_one (wrap_error E ''scan host'') (decode_host D)"

definition collect_hosts :: "server_env \<Rightarrow> driver \<Rightarrow> repo_error option \<Rightarrow> sql_value list list \<Rightarrow> repo_error + host list" where
  "collect_hosts E D err = collect (wrap_error E ''scan host row'') (decode_host D) err []"

section \<open>Jobs\<close>

definition job_cells :: "job \<Rightarrow> (string \<times> sql_value) list" where
  "job_cells r =
     [(''id'', SUuid (j_id r)), (''host_id'', SUuid (j_host_id r)),
      (''source_type'', SText (j_source_type r)), (''schedule'', SText (j_schedule r)),
      (''timezone'', SText (j_timezone r)), (''user'', SText (j_user r)),
      (''raw_command'', SText (j_raw_command r)), (''normalized_command'', SText (j_normalized_command r)),
      (''command_hash'', SText (j_command_hash r)), (''enabled'', SBool (j_enabled r)),
      (''source_file'', SText (j_source_file r)), (''metadata'', nullable SJson (j_metadata r)),
      (''created_at'', STime (j_created_at r)), (''updated_at'', STime (j_updated_at r))]"

definition job_columns :: "string list" where
  "job_columns = [''id'', ''host_id'', ''source_type'', ''schedule'', ''timezone'', ''user'', ''raw_command'',
    ''normalized_command'', ''command_hash'', ''enabled'', ''source_file'', ''metadata'', ''created_at'',
      ''updated_at'']"

definition decode_job :: "driver \<Rightarrow> sql_value list \<Rightarrow> job option" where
  "decode_job D row =
     (case row of
        [i, hi, st, sc, tz, us, rc, nc, ch, en, sf, md, ca, ua] \<Rightarrow>
          (case (dv_uuid D i, dv_uuid D hi, dv_text D st, dv_text D sc, dv_text D tz, dv_text D us, dv_text D rc,
            dv_text D nc, dv_text D ch, dv_bool D en, dv_text D sf, dv_bytes D md, dv_time D ca, dv_time D ua) of
             (Some i, Some hi, Some st, Some sc, Some tz, Some us, Some rc, Some nc, Some ch, Some en, Some sf,
               Some md, Some ca, Some ua) \<Rightarrow>
               Some \<lparr>j_id = i, j_host_id = hi, j_source_type = st, j_schedule = sc, j_timezone = tz,
                 j_user = us, j_raw_command = rc, j_normalized_command = nc, j_command_hash = ch, j_enabled = en,
                   j_source_file = sf, j_metadata = md, j_created_at = ca, j_updated_at = ua\<rparr>
           | _ \<Rightarrow> None)
      | _ \<Rightarrow> None)"

definition scan_job :: "server_env \<Rightarrow> driver \<Rightarrow> repo_error + sql_value list \<Rightarrow> repo_error + job" where
  "scan_job E D = scan_one (wrap_error E ''scan job'') (decode_job D)"

definition collect_jobs :: "server_env \<Rightarrow> driver \<Rightarrow> repo_error option \<Rightarrow> sql_value list list \<Rightarrow> repo_error + job list" where
  "collect_jobs E D err = collect (wrap_error E ''scan job row'') (decode_job D) err []"

section \<open>Remote commands\<close>

definition command_cells :: "agent_command \<Rightarrow> (string \<times> sql_value) list" where
  "command_cells r =
     [(''id'', SUuid (c_id r)), (''host_id'', SUuid (c_host_id r)), (''job_id'', SUuid (c_job_id r)),
      (''command_hash'', SText (c_command_hash r)), (''raw_command'', SText (c_raw_command r)),
      (''schedule'', SText (c_schedule r)), (''status'', SText (c_status r)),
      (''message'', SText (c_message r)), (''exit_code'', nullable SInt (c_exit_code r)),
      (''requested_at'', STime (c_requested_at r)), (''dispatched_at'', nullable STime (c_dispatched_at r)),
      (''started_at'', nullable STime (c_started_at r)), (''finished_at'', nullable STime (c_finished_at r))]"

definition command_columns :: "string list" where
  "command_columns = [''id'', ''host_id'', ''job_id'', ''command_hash'', ''raw_command'', ''schedule'', ''status'',
    ''message'', ''exit_code'', ''requested_at'', ''dispatched_at'', ''started_at'', ''finished_at'']"

definition decode_command_row :: "driver \<Rightarrow> sql_value list \<Rightarrow> agent_command option" where
  "decode_command_row D row =
     (case row of
        [i, hi, ji, ch, rc, sc, st, ms, ec, ra, da, sa, fa] \<Rightarrow>
          (case (dv_uuid D i, dv_uuid D hi, dv_uuid D ji, dv_text D ch, dv_text D rc, dv_text D sc, dv_text D st,
            dv_text D ms, dv_int_ptr D ec, dv_time D ra, dv_time_ptr D da, dv_time_ptr D sa, dv_time_ptr D fa) of
             (Some i, Some hi, Some ji, Some ch, Some rc, Some sc, Some st, Some ms, Some ec, Some ra, Some da,
               Some sa, Some fa) \<Rightarrow>
               Some \<lparr>c_id = i, c_host_id = hi, c_job_id = ji, c_command_hash = ch, c_raw_command = rc,
                 c_schedule = sc, c_status = st, c_message = ms, c_exit_code = ec, c_requested_at = ra,
                   c_dispatched_at = da, c_started_at = sa, c_finished_at = fa\<rparr>
           | _ \<Rightarrow> None)
      | _ \<Rightarrow> None)"

definition scan_command :: "server_env \<Rightarrow> driver \<Rightarrow> repo_error + sql_value list \<Rightarrow> repo_error + agent_command" where
  "scan_command E D = scan_one (\<lambda>e. e) (decode_command_row D)"

definition collect_commands :: "server_env \<Rightarrow> driver \<Rightarrow> repo_error option \<Rightarrow> sql_value list list \<Rightarrow> repo_error + agent_command list" where
  "collect_commands E D err = collect (\<lambda>e. e) (decode_command_row D) err []"

section \<open>Executions\<close>

definition execution_cells :: "execution \<Rightarrow> (string \<times> sql_value) list" where
  "execution_cells r =
     [(''id'', SUuid (e_id r)), (''host_id'', SUuid (e_host_id r)),
      (''job_id'', nullable SUuid (e_job_id r)), (''scheduled_at'', nullable STime (e_scheduled_at r)),
      (''detected_started_at'', nullable STime (e_started_at r)),
      (''detected_finished_at'', nullable STime (e_finished_at r)),
      (''duration_seconds'', nullable SFloat (e_duration_seconds r)), (''status'', SText (e_status r)),
      (''confidence_score'', SFloat (e_confidence r)), (''detection_sources'', STexts (e_sources r)),
      (''evidence'', nullable SJson (e_evidence r)), (''created_at'', STime (e_created_at r)),
      (''output_text'', nullable SText (e_output_text r))]"

definition execution_columns :: "string list" where
  "execution_columns = [''id'', ''host_id'', ''job_id'', ''scheduled_at'', ''detected_started_at'',
    ''detected_finished_at'', ''duration_seconds'', ''status'', ''confidence_score'', ''detection_sources'',
      ''output_text'', ''evidence'', ''created_at'']"

definition decode_execution :: "driver \<Rightarrow> sql_value list \<Rightarrow> execution option" where
  "decode_execution D row =
     (case row of
        [i, hi, ji, sa, da, fa, du, st, cs, ds, ou, ev, ca] \<Rightarrow>
          (case (dv_uuid D i, dv_uuid D hi, dv_uuid_ptr D ji, dv_time_ptr D sa, dv_time_ptr D da, dv_time_ptr D fa,
            dv_float_ptr D du, dv_text D st, dv_float D cs, dv_texts D ds, dv_text_ptr D ou, dv_bytes D ev,
              dv_time D ca) of
             (Some i, Some hi, Some ji, Some sa, Some da, Some fa, Some du, Some st, Some cs, Some ds, Some ou,
               Some ev, Some ca) \<Rightarrow>
               Some \<lparr>e_id = i, e_host_id = hi, e_job_id = ji, e_scheduled_at = sa, e_started_at = da,
                 e_finished_at = fa, e_duration_seconds = du, e_status = st, e_confidence = cs, e_sources = ds,
                   e_output_text = ou, e_evidence = ev, e_created_at = ca\<rparr>
           | _ \<Rightarrow> None)
      | _ \<Rightarrow> None)"

definition scan_execution :: "server_env \<Rightarrow> driver \<Rightarrow> repo_error + sql_value list \<Rightarrow> repo_error + execution" where
  "scan_execution E D = scan_one (wrap_error E ''scan execution'') (decode_execution D)"

definition collect_executions :: "server_env \<Rightarrow> driver \<Rightarrow> repo_error option \<Rightarrow> sql_value list list \<Rightarrow> repo_error + execution list" where
  "collect_executions E D err = collect (wrap_error E ''scan execution row'') (decode_execution D) err []"

section \<open>Metrics\<close>

definition metric_cells :: "data_metric \<Rightarrow> (string \<times> sql_value) list" where
  "metric_cells r =
     [(''id'', SUuid (m_id r)), (''host_id'', SUuid (m_host_id r)), (''metric_name'', SText (m_name r)),
      (''metric_type'', SText (m_type r)), (''dimensions'', nullable SJson (m_dimensions r)),
      (''value'', SFloat (m_value r)), (''measured_at'', STime (m_measured_at r)),
      (''status'', SText (m_status r)), (''evidence'', nullable SJson (m_evidence r)),
      (''created_at'', STime (m_created_at r))]"

definition metric_columns :: "string list" where
  "metric_columns = [''id'', ''host_id'', ''metric_name'', ''metric_type'', ''dimensions'', ''value'',
    ''measured_at'', ''status'', ''evidence'', ''created_at'']"

definition decode_metric_row :: "driver \<Rightarrow> sql_value list \<Rightarrow> data_metric option" where
  "decode_metric_row D row =
     (case row of
        [i, hi, mn, mt, di, va, ma, st, ev, ca] \<Rightarrow>
          (case (dv_uuid D i, dv_uuid D hi, dv_text D mn, dv_text D mt, dv_bytes D di, dv_float D va, dv_time D ma,
            dv_text D st, dv_bytes D ev, dv_time D ca) of
             (Some i, Some hi, Some mn, Some mt, Some di, Some va, Some ma, Some st, Some ev, Some ca) \<Rightarrow>
               Some \<lparr>m_id = i, m_host_id = hi, m_name = mn, m_type = mt, m_dimensions = di, m_value = va,
                 m_measured_at = ma, m_status = st, m_evidence = ev, m_created_at = ca\<rparr>
           | _ \<Rightarrow> None)
      | _ \<Rightarrow> None)"

definition scan_metric :: "server_env \<Rightarrow> driver \<Rightarrow> repo_error + sql_value list \<Rightarrow> repo_error + data_metric" where
  "scan_metric E D = scan_one (wrap_error E ''scan metric'') (decode_metric_row D)"

definition collect_metrics :: "server_env \<Rightarrow> driver \<Rightarrow> repo_error option \<Rightarrow> sql_value list list \<Rightarrow> repo_error + data_metric list" where
  "collect_metrics E D err = collect (wrap_error E ''scan metric row'') (decode_metric_row D) err []"

section \<open>Alerts\<close>

definition alert_cells :: "alert \<Rightarrow> (string \<times> sql_value) list" where
  "alert_cells r =
     [(''id'', SUuid (a_id r)), (''target_type'', SText (a_target_type r)),
      (''target_id'', SUuid (a_target_id r)), (''rule_name'', SText (a_rule_name r)),
      (''severity'', SText (a_severity r)), (''status'', SText (a_status r)),
      (''message'', SText (a_message r)), (''triggered_at'', STime (a_triggered_at r)),
      (''resolved_at'', nullable STime (a_resolved_at r))]"

definition alert_columns :: "string list" where
  "alert_columns = [''id'', ''target_type'', ''target_id'', ''rule_name'', ''severity'', ''status'', ''message'',
    ''triggered_at'', ''resolved_at'']"

definition decode_alert :: "driver \<Rightarrow> sql_value list \<Rightarrow> alert option" where
  "decode_alert D row =
     (case row of
        [i, tt, ti, rn, se, st, ms, ta, ra] \<Rightarrow>
          (case (dv_uuid D i, dv_text D tt, dv_uuid D ti, dv_text D rn, dv_text D se, dv_text D st, dv_text D ms,
            dv_time D ta, dv_time_ptr D ra) of
             (Some i, Some tt, Some ti, Some rn, Some se, Some st, Some ms, Some ta, Some ra) \<Rightarrow>
               Some \<lparr>a_id = i, a_target_type = tt, a_target_id = ti, a_rule_name = rn, a_severity = se,
                 a_status = st, a_message = ms, a_triggered_at = ta, a_resolved_at = ra\<rparr>
           | _ \<Rightarrow> None)
      | _ \<Rightarrow> None)"

definition scan_alert :: "server_env \<Rightarrow> driver \<Rightarrow> repo_error + sql_value list \<Rightarrow> repo_error + alert" where
  "scan_alert E D = scan_one (wrap_error E ''scan alert'') (decode_alert D)"

definition collect_alerts :: "server_env \<Rightarrow> driver \<Rightarrow> repo_error option \<Rightarrow> sql_value list list \<Rightarrow> repo_error + alert list" where
  "collect_alerts E D err = collect (wrap_error E ''scan alert row'') (decode_alert D) err []"

text \<open>The error of \<open>GetActiveByTarget\<close> is recognised by its text.\<close>

definition found_alert :: "server_env \<Rightarrow> driver \<Rightarrow> repo_error + sql_value list \<Rightarrow> repo_error + alert option" where
  "found_alert E D row =
     (case scan_alert E D row of
        Inl e \<Rightarrow> if error_text E e = ''scan alert: no rows in result set'' then Inr None else Inl e
      | Inr a \<Rightarrow> Inr (Some a))"

section \<open>Enrollment tokens\<close>

definition token_cells :: "enrollment_token \<Rightarrow> (string \<times> sql_value) list" where
  "token_cells r =
     [(''id'', SUuid (et_id r)), (''token_hash'', SText (et_token_hash r)), (''label'', SText (et_label r)),
      (''used'', SBool (et_used r)), (''used_at'', nullable STime (et_used_at r)),
      (''expires_at'', STime (et_expires_at r)), (''created_at'', STime (et_created_at r))]"

definition token_columns :: "string list" where
  "token_columns = [''id'', ''label'', ''used'', ''used_at'', ''expires_at'', ''created_at'']"

text \<open>The hash of the token is not read.\<close>

definition decode_token :: "driver \<Rightarrow> sql_value list \<Rightarrow> enrollment_token option" where
  "decode_token D row =
     (case row of
        [i, la, us, ua, ea, ca] \<Rightarrow>
          (case (dv_uuid_text D i, dv_text D la, dv_bool D us, dv_time_ptr D ua, dv_time D ea, dv_time D ca) of
             (Some i, Some la, Some us, Some ua, Some ea, Some ca) \<Rightarrow>
               Some \<lparr>et_id = i, et_token_hash = [], et_label = la, et_used = us, et_used_at = ua,
                 et_expires_at = ea, et_created_at = ca\<rparr>
           | _ \<Rightarrow> None)
      | _ \<Rightarrow> None)"

definition collect_tokens :: "server_env \<Rightarrow> driver \<Rightarrow> repo_error option \<Rightarrow> sql_value list list \<Rightarrow> repo_error + enrollment_token list" where
  "collect_tokens E D err = collect (\<lambda>e. e) (decode_token D) err []"

section \<open>A row comes back\<close>

lemmas cells_defs = host_cells_def job_cells_def command_cells_def execution_cells_def metric_cells_def alert_cells_def
  token_cells_def
lemmas columns_defs = host_columns_def job_columns_def command_columns_def execution_columns_def metric_columns_def
  alert_columns_def token_columns_def
lemmas decode_row_defs = decode_host_def decode_job_def decode_command_row_def decode_execution_def decode_metric_row_def
  decode_alert_def decode_token_def

lemma row_scans:
  assumes "driver_ok D"
  shows "\<exists>vs. select_row host_columns (host_cells h) = Some vs \<and> decode_host D vs = Some h"
    "\<exists>vs. select_row job_columns (job_cells j) = Some vs \<and> decode_job D vs = Some j"
    "\<exists>vs. select_row command_columns (command_cells c) = Some vs \<and> decode_command_row D vs = Some c"
    "\<exists>vs. select_row execution_columns (execution_cells e) = Some vs \<and> decode_execution D vs = Some e"
    "\<exists>vs. select_row metric_columns (metric_cells m) = Some vs \<and> decode_metric_row D vs = Some m"
    "\<exists>vs. select_row alert_columns (alert_cells a) = Some vs \<and> decode_alert D vs = Some a"
    "\<exists>vs. select_row token_columns (token_cells t) = Some vs \<and> decode_token D vs = Some (t\<lparr>et_token_hash := []\<rparr>)"
  using assms by (simp_all add: driver_ok_def select_row_def cells_defs columns_defs decode_row_defs)


text \<open>A driver that decodes the values of the right type and nothing else.\<close>

definition strict_driver :: driver where
  "strict_driver = \<lparr>
     dv_text = (\<lambda>v. case v of SText s \<Rightarrow> Some s | _ \<Rightarrow> None), dv_texts = (\<lambda>v. case v of STexts xs \<Rightarrow> Some xs | _ \<Rightarrow> None),
     dv_uuid = (\<lambda>v. case v of SUuid u \<Rightarrow> Some u | _ \<Rightarrow> None), dv_uuid_text = (\<lambda>v. case v of SUuid u \<Rightarrow> Some u | _ \<Rightarrow> None),
     dv_bool = (\<lambda>v. case v of SBool b \<Rightarrow> Some b | _ \<Rightarrow> None), dv_float = (\<lambda>v. case v of SFloat r \<Rightarrow> Some r | _ \<Rightarrow> None),
     dv_time = (\<lambda>v. case v of STime t \<Rightarrow> Some t | _ \<Rightarrow> None),
     dv_bytes = (\<lambda>v. case v of SNull \<Rightarrow> Some None | SJson j \<Rightarrow> Some (Some j) | _ \<Rightarrow> None),
     dv_text_ptr = (\<lambda>v. case v of SNull \<Rightarrow> Some None | SText s \<Rightarrow> Some (Some s) | _ \<Rightarrow> None),
     dv_uuid_ptr = (\<lambda>v. case v of SNull \<Rightarrow> Some None | SUuid u \<Rightarrow> Some (Some u) | _ \<Rightarrow> None),
     dv_int_ptr = (\<lambda>v. case v of SNull \<Rightarrow> Some None | SInt i \<Rightarrow> Some (Some i) | _ \<Rightarrow> None),
     dv_float_ptr = (\<lambda>v. case v of SNull \<Rightarrow> Some None | SFloat r \<Rightarrow> Some (Some r) | _ \<Rightarrow> None),
     dv_time_ptr = (\<lambda>v. case v of SNull \<Rightarrow> Some None | STime t \<Rightarrow> Some (Some t) | _ \<Rightarrow> None)\<rparr>"

lemma strict_driver_ok: "driver_ok strict_driver"
  by (simp add: driver_ok_def strict_driver_def nullable_def split: option.split)

definition null_job_run :: execution where
  "null_job_run = \<lparr>e_id = ''e'', e_host_id = ''h'', e_job_id = None, e_scheduled_at = None, e_started_at = Some 1,
     e_finished_at = None, e_duration_seconds = None, e_status = ''running'', e_confidence = 1, e_sources = [''process''],
     e_output_text = None, e_evidence = None, e_created_at = 2\<rparr>"


text \<open>One row that does not scan, or an error after the last row, fails the whole list.\<close>

lemma collect_all_or_nothing:
  "collect wrap dec err [] rows = Inr xs \<longleftrightarrow> err = None \<and> traverse dec rows = Some xs"
  by (auto simp: collect_traverse split: option.split)

text \<open>The lookup of an active alert reads the first row of its query as the repository model does: the alert, or nil
  when the query finds none and the error of the driver has the text it documents.\<close>

theorem active_alert_found:
  assumes "driver_ok D" and "sv_error_text E No_Rows = ''no rows in result set''"
  shows "found_alert E D (case select_one p as of Inl e \<Rightarrow> Inl e | Inr a \<Rightarrow> Inr (the (select_row alert_columns (alert_cells a))))
    = (case select_one p as of Inl e \<Rightarrow> Inr None | Inr a \<Rightarrow> Inr (Some a))"
proof (cases "select_one p as")
  case (Inl e)
  then have "e = No_Rows" by (simp add: select_one_def split: option.splits)
  then show ?thesis using Inl assms(2)
    by (simp add: found_alert_def scan_alert_def scan_one_def wrap_error_def error_text_def)
next
  case (Inr a)
  obtain vs where "select_row alert_columns (alert_cells a) = Some vs" "decode_alert D vs = Some a"
    using row_scans(6) [OF assms(1)] by blast
  then show ?thesis using Inr by (simp add: found_alert_def scan_alert_def scan_one_def)
qed

end
