(* ===== verification/Uploads.thy ===== *)
theory Uploads
  imports Network
begin

text \<open>
  A server that is up takes every event and metric that passes the CHECK constraints, and a flush of the
  agent's buffer therefore ends in its tables: the whole way from the buffered events of an enrolled agent
  to the rows of the server, linked to the jobs they belong to.
\<close>

section \<open>A server that takes executions\<close>

text \<open>Its statements succeed, the host of the request is known, the identifiers it makes are new, and the
  identifiers of jobs are in canonical form.\<close>

definition takes_events :: "server_env \<Rightarrow> string \<Rightarrow> pg \<Rightarrow> bool" where
  "takes_events E h db \<longleftrightarrow> (\<forall>n. sv_up E n) \<and> sv_parse_uuid E h = Some h \<and> h \<in> host_ids db \<and> inj (sv_new_uuid E)
     \<and> (\<forall>n \<ge> pg_calls db. sv_new_uuid E n \<notin> e_id ` set (t_executions db))
     \<and> (\<forall>j \<in> job_ids db. sv_parse_uuid E j = Some j)"

text \<open>The job that the event names, or else the job of the host whose command its evidence names.\<close>

definition linked_job :: "string \<Rightarrow> pg \<Rightarrow> execution \<Rightarrow> string option" where
  "linked_job h db x =
     (case e_job_id x of
        Some j \<Rightarrow> Some j
      | None \<Rightarrow>
          (let c = command_hash_from_evidence (e_evidence x) in
           if c = [] then None else map_option j_id (job_of (h, c) db)))"

definition known_job :: "string set \<Rightarrow> execution \<Rightarrow> bool" where
  "known_job J x \<longleftrightarrow> (case e_job_id x of None \<Rightarrow> True | Some j \<Rightarrow> j \<in> J)"

text \<open>The row of an event: the event with the host of the request, its job, an identifier and a creation time.\<close>

definition stored_run :: "string \<Rightarrow> pg \<Rightarrow> execution \<Rightarrow> execution \<Rightarrow> bool" where
  "stored_run h db x s \<longleftrightarrow>
     s = x\<lparr>e_id := e_id s, e_host_id := h, e_job_id := linked_job h db x, e_created_at := e_created_at s\<rparr>"

lemma link_job_taken:
  assumes "takes_events E h db"
  shows "\<exists>n \<ge> pg_calls db. link_job E h (x\<lparr>e_host_id := h\<rparr>) db
     = (x\<lparr>e_host_id := h, e_job_id := linked_job h db x\<rparr>, db\<lparr>pg_calls := n\<rparr>)"
proof -
  let ?c = "command_hash_from_evidence (e_evidence x)"
  have same: "e_job_id x = j \<Longrightarrow> x\<lparr>e_host_id := h, e_job_id := j\<rparr> = x\<lparr>e_host_id := h\<rparr>" for j by auto
  have up: "sv_up E (pg_calls db)" "sv_parse_uuid E h = Some h" using assms(1) by (auto simp: takes_events_def)
  show ?thesis
  proof (cases "e_job_id x = None \<and> ?c \<noteq> []")
    case False
    then have "linked_job h db x = e_job_id x" by (auto simp: linked_job_def split: option.split)
    then show ?thesis using same False by (intro exI [of _ "pg_calls db"]) (auto simp: link_job_def Let_def)
  next
    case True
    then show ?thesis using same up
      by (intro exI [of _ "Suc (pg_calls db)"])
        (simp add: link_job_def linked_job_def job_get_by_host_and_hash_def query_def stmt_def select_one_def job_of_def
          bump_def split: option.split)
  qed
qed

lemma update_job_state_frame:
  "pg_calls db \<le> pg_calls (snd (update_job_state E e db))"
  "t_executions (snd (update_job_state E e db)) = t_executions db"
  "t_jobs (snd (update_job_state E e db)) = t_jobs db" "t_hosts (snd (update_job_state E e db)) = t_hosts db"
proof -
  obtain y db' where u: "update_job_state E e db = (y, db')" by fastforce
  show "t_executions (snd (update_job_state E e db)) = t_executions db"
    "t_jobs (snd (update_job_state E e db)) = t_jobs db" "t_hosts (snd (update_job_state E e db)) = t_hosts db"
    using job_state_tables [OF u] u by simp_all
  show "pg_calls db \<le> pg_calls (snd (update_job_state E e db))"
    by (simp add: update_job_state_def count_recent_failures_def job_upsert_state_def query_def stmt_def Let_def
        split: option.split sum.split prod.split)
qed

lemma execution_step_taken:
  assumes "takes_events E h db" and "known_job (job_ids db) x" and "passes_checks x"
  shows "\<exists>s db'. execution_step E h x db = ([s], db') \<and> stored_run h db x s \<and> takes_events E h db' \<and> t_jobs db' = t_jobs db"
proof -
  let ?j = "linked_job h db x"
  let ?x = "x\<lparr>e_host_id := h, e_job_id := ?j\<rparr>"
  obtain n where n: "pg_calls db \<le> n" "link_job E h (x\<lparr>e_host_id := h\<rparr>) db = (?x, db\<lparr>pg_calls := n\<rparr>)"
    using link_job_taken [OF assms(1)] by blast
  have ids: "host_ids (db\<lparr>pg_calls := n\<rparr>) = host_ids db" "job_ids (db\<lparr>pg_calls := n\<rparr>) = job_ids db"
    by (simp_all add: host_ids_def job_ids_def)
  have j: "j \<in> job_ids db" if "?j = Some j" for j
    using that assms(2)
    by (auto simp: linked_job_def known_job_def job_of_def job_ids_def Let_def find_Some_iff split: if_splits option.splits)
  then have p: "parse_job_ref E ?j = Some ?j" using assms(1)
    by (cases ?j) (auto simp: parse_job_ref_def takes_events_def)
  have "execution_row_ok (host_ids db) (job_ids db) (x\<lparr>e_host_id := h, e_job_id := ?j\<rparr>)"
    using assms(1,3) j by (intro passes_checks_row) (auto simp: takes_events_def split: option.split)
  then have "execution_row_ok (host_ids db) (job_ids db) (x\<lparr>e_id := u, e_host_id := h, e_job_id := ?j, e_created_at := now\<rparr>)" for u now
    by (simp add: execution_row_ok_def cong: option.case_cong)
  moreover have "sv_new_uuid E n \<notin> e_id ` set (t_executions db)" using assms(1) n(1) by (simp add: takes_events_def)
  moreover define s where "s = x\<lparr>e_id := sv_new_uuid E n, e_host_id := h, e_job_id := ?j, e_created_at := sv_db_now E n\<rparr>"
  ultimately have i: "execution_insert E ?x (db\<lparr>pg_calls := n\<rparr>)
      = (Inr s, bump (db\<lparr>pg_calls := n, t_executions := t_executions db @ [s]\<rparr>))"
    using assms(1) p by (simp add: execution_insert_def stmt_def Let_def takes_events_def ids)
  define db1 where "db1 = bump (db\<lparr>pg_calls := n, t_executions := t_executions db @ [s]\<rparr>)"
  define db2 where "db2 = (if ?j = None then db1 else snd (update_job_state E s db1))"
  have "execution_step E h x db = ([s], db2)"
    using n(2) i by (simp add: execution_step_def db2_def db1_def s_def)
  moreover have "stored_run h db x s" by (simp add: stored_run_def s_def)
  moreover have k: "Suc n \<le> pg_calls db2" "t_executions db2 = t_executions db @ [s]" "t_jobs db2 = t_jobs db" "t_hosts db2 = t_hosts db"
    using update_job_state_frame [where db = db1 and E = E and e = s] by (auto simp: db2_def db1_def)
  moreover have "takes_events E h db2"
  proof -
    have "sv_new_uuid E m \<notin> e_id ` set (t_executions db2)" if "m \<ge> pg_calls db2" for m
    proof -
      have "m \<ge> pg_calls db" "m \<noteq> n" using that k(1) n(1) by simp_all
      then show ?thesis using assms(1) k(2) by (auto simp: takes_events_def s_def dest: injD)
    qed
    then show ?thesis using assms(1) k(3,4) by (simp add: takes_events_def host_ids_def job_ids_def)
  qed
  ultimately show ?thesis by blast
qed

lemma stored_run_cong: "t_jobs db = t_jobs db' \<Longrightarrow> stored_run h db x s = stored_run h db' x s"
  unfolding stored_run_def linked_job_def job_of_def by (simp only: Let_def)

lemma execution_loop_taken:
  assumes "takes_events E h db" and "\<forall>x \<in> set xs. known_job (job_ids db) x \<and> passes_checks x"
  shows "\<exists>saved db'. execution_loop E h xs res db = (res @ saved, db') \<and> list_all2 (stored_run h db) xs saved
    \<and> t_jobs db' = t_jobs db"
  using assms
proof (induction xs arbitrary: res db)
  case (Cons x xs)
  obtain s db1 where st: "execution_step E h x db = ([s], db1)" "stored_run h db x s" "takes_events E h db1" "t_jobs db1 = t_jobs db"
    using execution_step_taken [of E h db x] Cons.prems by auto
  obtain saved db' where ih: "execution_loop E h xs (res @ [s]) db1 = ((res @ [s]) @ saved, db')"
    "list_all2 (stored_run h db1) xs saved" "t_jobs db' = t_jobs db1"
    using Cons.IH [OF st(3), of "res @ [s]"] Cons.prems st(4) by (auto simp: job_ids_def)
  have "list_all2 (stored_run h db) xs saved"
    using ih(2) stored_run_cong [OF st(4)] by (simp add: list_all2_conv_all_nth)
  then show ?case using st ih by (auto simp: execution_loop_step simp del: execution_loop.simps)
qed simp

text \<open>Every event of a batch is stored, in order, after what was there.\<close>

lemma batch_taken:
  assumes "takes_events E h db" and "\<forall>x \<in> set xs. known_job (job_ids db) x \<and> passes_checks x"
  shows "\<exists>saved db'. execution_batch E h xs db = (saved, db') \<and> list_all2 (stored_run h db) xs saved
    \<and> t_executions db' = t_executions db @ saved \<and> t_jobs db' = t_jobs db"
proof -
  obtain saved db' where b: "execution_batch E h xs db = (saved, db')" "list_all2 (stored_run h db) xs saved" "t_jobs db' = t_jobs db"
    using execution_loop_taken [OF assms, of "[]"] by (auto simp: execution_batch_def)
  then show ?thesis using execution_loop_appends [of E h xs "[]" db] by (auto simp: execution_batch_def)
qed

section \<open>A server that takes metrics\<close>

definition takes_metrics :: "server_env \<Rightarrow> string \<Rightarrow> pg \<Rightarrow> bool" where
  "takes_metrics E h db \<longleftrightarrow> (\<forall>n. sv_up E n) \<and> sv_parse_uuid E h = Some h \<and> h \<in> host_ids db \<and> inj (sv_new_uuid E)
     \<and> (\<forall>n \<ge> pg_calls db. sv_new_uuid E n \<notin> m_id ` set (t_metrics db))"

definition stored_metric :: "string \<Rightarrow> data_metric \<Rightarrow> data_metric \<Rightarrow> bool" where
  "stored_metric h m s \<longleftrightarrow> s = m\<lparr>m_id := m_id s, m_host_id := h, m_created_at := m_created_at s\<rparr>"

lemma metric_loop_taken:
  assumes "takes_metrics E h db" and "\<forall>m \<in> set ms. metric_passes m"
  shows "\<exists>saved db'. metric_loop E h ms res db = (res @ saved, db') \<and> list_all2 (stored_metric h) ms saved
    \<and> t_metrics db' = t_metrics db @ saved \<and> t_hosts db' = t_hosts db \<and> t_jobs db' = t_jobs db
    \<and> t_executions db' = t_executions db"
  using assms
proof (induction ms arbitrary: res db)
  case (Cons m ms)
  define s where "s = m\<lparr>m_id := sv_new_uuid E (pg_calls db), m_host_id := h, m_created_at := sv_db_now E (pg_calls db)\<rparr>"
  define db1 where "db1 = bump (db\<lparr>t_metrics := t_metrics db @ [s]\<rparr>)"
  have "metric_row_ok (host_ids db) s" using Cons.prems
    by (simp add: metric_row_ok_def metric_passes_def takes_metrics_def s_def)
  then have i: "metric_insert E (m\<lparr>m_host_id := h\<rparr>) db = (Inr s, db1)"
    using Cons.prems(1) by (simp add: metric_insert_def stmt_def takes_metrics_def Let_def s_def db1_def)
  have "sv_new_uuid E n \<notin> m_id ` set (t_metrics db1)" if "n \<ge> pg_calls db1" for n
    using that Cons.prems(1) by (auto simp: db1_def s_def takes_metrics_def dest: injD)
  then have "takes_metrics E h db1" using Cons.prems(1) by (simp add: takes_metrics_def host_ids_def db1_def)
  from Cons.IH [OF this, of "res @ [s]"] Cons.prems(2) obtain saved db' where
    "metric_loop E h ms (res @ [s]) db1 = ((res @ [s]) @ saved, db')" "list_all2 (stored_metric h) ms saved"
    "t_metrics db' = t_metrics db1 @ saved" "t_hosts db' = t_hosts db1" "t_jobs db' = t_jobs db1" "t_executions db' = t_executions db1"
    by auto
  moreover have "stored_metric h m s" by (simp add: stored_metric_def s_def)
  ultimately show ?case using i
    by (intro exI [of _ "s # saved"] exI [of _ db']) (simp add: db1_def)
qed simp

lemma metrics_taken:
  assumes "takes_metrics E h db" and "\<forall>m \<in> set ms. metric_passes m"
  shows "\<exists>saved db'. metric_batch E h ms db = (saved, db') \<and> list_all2 (stored_metric h) ms saved
    \<and> t_metrics db' = t_metrics db @ saved \<and> t_hosts db' = t_hosts db \<and> t_jobs db' = t_jobs db
    \<and> t_executions db' = t_executions db"
  using metric_loop_taken [OF assms, of "[]"] by (simp add: metric_batch_def)

section \<open>From the buffer to the tables\<close>

text \<open>One accepted upload empties the buffer.\<close>

context event_buffer
begin

lemma flush_accepted:
  assumes "store_ok s" and "pend s = (Some (map snd (entries s)), tick s)" and "\<And>i s. fst (del i s)"
    and "upload (json_map [(key, JArr (map (pe_payload \<circ> snd) (entries s)))]) (tick s) = (None, tick (tick s))"
  shows "entries (flush_with pend upload del key s) = []"
proof -
  let ?ps = "map snd (entries s)"
  have ids: "pe_id ` set ?ps = fst ` set (entries s)"
    using bucket_ok_keys [OF entries_ok [OF assms(1)]] by (metis list.map_comp set_map)
  have "kv_get (entries (drain ?ps (tick (tick s)))) k = None" for k
    unfolding drain_all [of ?ps, OF assms(3)] ids by (auto simp: entries_tick kv_get_def map_of_eq_None_iff)
  then have "entries (drain ?ps (tick (tick s))) = []"
    using kv.entries_eq_Nil [of "entries (drain ?ps (tick (tick s)))"]
      entries_ok [OF drain_ok, of "tick (tick s)" ?ps] assms(1) by (simp add: bucket_ok_inv)
  then show ?thesis using assms(2,4) by (auto simp: flush_with_def entries_tick)
qed

end

definition executions_request :: "client \<Rightarrow> json list \<Rightarrow> http_request" where
  "executions_request c evs =
     post_request c ''/api/v1/executions/batch'' (cl_host_id c) (json_map [(''executions'', JArr evs)])"

text \<open>Only the event of a remote command names its job.\<close>

lemma sent_event_job: "sent_event ev h st \<Longrightarrow> json_field ev ''job_id'' = None \<or> (\<exists>j. json_field ev ''job_id'' = Some (JStr j))"
  by (auto elim!: sent_event.cases simp: running_event_def completion_event_def command_event_def mail_event_def)

definition event_job :: "json \<Rightarrow> string option" where
  "event_job ev = (case json_field ev ''job_id'' of Some (JStr j) \<Rightarrow> Some j | _ \<Rightarrow> None)"

lemma decoded_job_field: "decode_event ev = Some e \<Longrightarrow> dec_ptr as_str ev ''job_id'' = Some (ee_job_id e)"
  unfolding decode_event_def by (simp split: option.splits) auto

lemma sent_domain:
  assumes "sent_event ev h st"
  shows "\<exists>e x. as_struct empty_event decode_event ev = Some e \<and> event_to_domain e = Some x \<and> e_status x = st
     \<and> e_job_id x = event_job ev \<and> passes_checks x \<and> (h \<noteq> [] \<longrightarrow> command_hash_from_evidence (e_evidence x) = h)"
proof -
  obtain e x where ex: "as_struct empty_event decode_event ev = Some e" "event_to_domain e = Some x" "e_status x = st"
    "fair (e_confidence x)" "st \<in> set execution_statuses" "h \<noteq> [] \<longrightarrow> command_hash_from_evidence (e_evidence x) = h"
    using event_domain [OF assms] by blast
  have "decode_event ev = Some e"
    using ex(1) sent_event_object [OF assms] by (auto simp: as_struct_def is_object_def split: if_splits)
  then have "dec_ptr as_str ev ''job_id'' = Some (ee_job_id e)" by (rule decoded_job_field)
  then have "ee_job_id e = event_job ev"
    using sent_event_job [OF assms] by (auto simp: dec_ptr_def dec_field_def event_job_def)
  moreover have "e_job_id x = ee_job_id e" using ex(2) by (auto simp: event_to_domain_def Let_def split: if_splits)
  ultimately show ?thesis using ex by (auto simp: passes_checks_def fair_def)
qed

text \<open>The row that an event of the agent becomes: for its host, with its status, and the job it names or else the job of
  the host with its hash.\<close>

definition landed :: "string \<Rightarrow> pg \<Rightarrow> json \<Rightarrow> execution \<Rightarrow> bool" where
  "landed hid db ev s \<longleftrightarrow> (\<exists>h st. sent_event ev h st \<and> e_host_id s = hid \<and> e_status s = st
     \<and> (case event_job ev of
          Some j \<Rightarrow> e_job_id s = Some j
        | None \<Rightarrow> h \<noteq> [] \<longrightarrow> e_job_id s = map_option j_id (job_of (hid, h) db)))"

lemma stored_run_sel:
  "stored_run h db x s \<Longrightarrow> e_host_id s = h \<and> e_status s = e_status x \<and> e_job_id s = linked_job h db x"
  unfolding stored_run_def by (erule ssubst) simp

lemma stored_landed:
  assumes "stored_run hid db x s" and "sent_event ev h st" and "e_status x = st" and "e_job_id x = event_job ev"
    and "h \<noteq> [] \<longrightarrow> command_hash_from_evidence (e_evidence x) = h"
  shows "landed hid db ev s"
  unfolding landed_def using stored_run_sel [OF assms(1)] assms(2-5)
  by (intro exI [of _ h] exI [of _ st]) (auto simp: linked_job_def Let_def split: option.split)

definition read_as :: "json \<Rightarrow> execution \<Rightarrow> bool" where
  "read_as ev x \<longleftrightarrow> e_job_id x = event_job ev \<and> passes_checks x
     \<and> (\<exists>h. sent_event ev h (e_status x) \<and> (h \<noteq> [] \<longrightarrow> command_hash_from_evidence (e_evidence x) = h))"

lemma sent_batch:
  assumes "\<forall>ev \<in> set evs. \<exists>h st. sent_event ev h st"
  shows "\<exists>es xs. traverse (as_struct empty_event decode_event) evs = Some es \<and> executions_to_domain es = Some xs
     \<and> list_all2 read_as evs xs"
  using assms
proof (induction evs)
  case (Cons ev evs)
  obtain es xs where ih: "traverse (as_struct empty_event decode_event) evs = Some es" "executions_to_domain es = Some xs"
    "list_all2 read_as evs xs" using Cons by auto
  obtain h st where "sent_event ev h st" using Cons.prems by auto
  then obtain e x where "as_struct empty_event decode_event ev = Some e" "event_to_domain e = Some x" "read_as ev x"
    using sent_domain [of ev h st] by (auto simp: read_as_def)
  then show ?case using ih by (intro exI [of _ "e # es"] exI [of _ "x # xs"]) (simp add: executions_to_domain_def)
qed (simp add: executions_to_domain_def)

lemma handle_batch_lands:
  assumes "takes_events E h (srv_db s)" and "aq_host_id q = h" and "h \<noteq> []"
    and "aq_body q = Some (json_map [(''executions'', JArr evs)])"
    and "\<forall>ev \<in> set evs. \<exists>c st. sent_event ev c st" and "\<forall>ev \<in> set evs. \<forall>j. event_job ev = Some j \<longrightarrow> j \<in> job_ids (srv_db s)"
  shows "\<exists>saved s'. handle_batch_executions E q s = ((200, Accepted_Reply (int (length evs))), s')
     \<and> t_executions (srv_db s') = t_executions (srv_db s) @ saved \<and> list_all2 (landed h (srv_db s)) evs saved"
proof -
  obtain es xs where d: "traverse (as_struct empty_event decode_event) evs = Some es" "executions_to_domain es = Some xs"
    "list_all2 read_as evs xs" using sent_batch [OF assms(5)] by blast
  have body: "as_body [] decode_execution_batch (aq_body q) = Some es"
    using d(1) assms(4) by (simp add: as_body_def decode_execution_batch_def decode_fields)
  have "\<forall>x \<in> set xs. known_job (job_ids (srv_db s)) x \<and> passes_checks x"
  proof
    fix x assume "x \<in> set xs"
    then obtain i where i: "i < length xs" "x = xs ! i" by (auto simp: in_set_conv_nth)
    then have "evs ! i \<in> set evs" "read_as (evs ! i) x" using d(3) by (auto simp: list_all2_conv_all_nth)
    then show "known_job (job_ids (srv_db s)) x \<and> passes_checks x"
      using assms(6) by (auto simp: read_as_def known_job_def split: option.split)
  qed
  from batch_taken [OF assms(1) this] obtain saved db' where b: "execution_batch E h xs (srv_db s) = (saved, db')"
    "list_all2 (stored_run h (srv_db s)) xs saved" "t_executions db' = t_executions (srv_db s) @ saved" by blast
  have "landed h (srv_db s) ev y" if "read_as ev x" "stored_run h (srv_db s) x y" for ev x y
    using that stored_landed by (auto simp: read_as_def)
  then have l: "list_all2 (landed h (srv_db s)) evs saved"
    using d(3) b(2) list_all2_trans by blast
  then have "length saved = length evs" by (simp add: list_all2_lengthD)
  then have "handle_batch_executions E q s = ((200, Accepted_Reply (int (length evs))), s\<lparr>srv_db := db'\<rparr>)"
    using assms(2,3) body d(2) b(1) by (simp add: handle_batch_executions_def with_host_def on_db_def write_json_def)
  then show ?thesis using b(3) l by (intro exI [of _ saved] exI [of _ "s\<lparr>srv_db := db'\<rparr>"]) simp
qed

lemma flush_answered:
  assumes "store_ok st" and "\<And>n. ev_tx A n"
    and "ev_http A (Suc (st_tick st)) (executions_request c (map (pe_payload \<circ> snd) (st_executions st))) = Response status body"
    and "status < 400"
  shows "st_executions (flush_executions A c st) = []"
proof -
  let ?j = "json_map [(''executions'', JArr (map (pe_payload \<circ> snd) (st_executions st)))]"
  have "batch_executions A c ?j (tick st) = (None, tick (tick st))"
    using assms(3,4) by (simp add: client_calls prod_eq_iff post_ok_iff executions_request_def tick_def)
  then show ?thesis unfolding flush_executions_def using assms(1,2)
    by (intro ex.flush_accepted) (simp_all add: store_ops tx_defs)
qed

lemma uploads_land:
  assumes "pg_ok db" and "enroll_agent E t0 tok h db = (Inr r, db')" and "word_ok (er_agent_token r)"
    and "h_id (er_host r) \<noteq> []" and "srv_db s = db'"
    and "cl_token c = er_agent_token r" and "cl_host_id c = h_id (er_host r)"
    and "sv_pg_uuid E (h_id (er_host r)) = Some (h_id (er_host r))"
    and "takes_events E (h_id (er_host r)) (db'\<lparr>pg_calls := 0\<rparr>)"
    and "store_ok st" and "\<And>n. ev_tx A n" and "evs = map (pe_payload \<circ> snd) (st_executions st)"
    and "\<forall>ev \<in> set evs. \<exists>k z. sent_event ev k z" and "\<forall>ev \<in> set evs. \<forall>j. event_job ev = Some j \<longrightarrow> j \<in> job_ids db'"
    and "ev_http A (Suc (st_tick st)) (executions_request c evs)
      = Response (fst (fst (deliver E K (cl_base_url c) addr (executions_request c evs) s))) body"
  shows "\<exists>saved s'. deliver E K (cl_base_url c) addr (executions_request c evs) s = ((200, Accepted_Reply (int (length evs))), s')
    \<and> t_executions (srv_db s') = t_executions db' @ saved \<and> list_all2 (landed (h_id (er_host r)) db') evs saved
    \<and> st_executions (flush_executions A c st) = []"
proof -
  let ?i = "h_id (er_host r)" and ?p = "''/api/v1/executions/batch''" and ?rq = "executions_request c evs"
  have route: "match_route ''POST'' ?p = Some Batch_Executions_Route" by (simp add: match_route_def fixed_routes_def)
  have up: "\<And>n. sv_up E n" using assms(9) by (simp add: takes_events_def)
  obtain a n where d: "deliver E K (cl_base_url c) addr ?rq s
      = handle_batch_executions E (received addr ?p ?rq) \<lparr>srv_auth = a, srv_db = db'\<lparr>pg_calls := n\<rparr>\<rparr>"
    using enrolled_served_post [OF assms(1,2) up assms(3-7) route] unfolding executions_request_def
    by (fastforce simp: public_route_def)
  have ids: "job_ids (db'\<lparr>pg_calls := n\<rparr>) = job_ids db'" for n by (simp add: job_ids_def)
  have "takes_events E ?i (db'\<lparr>pg_calls := n\<rparr>)"
    using assms(9) by (simp add: takes_events_def host_ids_def job_ids_def)
  moreover have "aq_host_id (received addr ?p ?rq) = ?i" "aq_body (received addr ?p ?rq) = Some (json_map [(''executions'', JArr evs)])"
    using assms(4,7) by (simp_all add: received_def executions_request_def post_request_def auth_headers_def header_def)
  ultimately obtain saved s' where b: "handle_batch_executions E (received addr ?p ?rq) \<lparr>srv_auth = a, srv_db = db'\<lparr>pg_calls := n\<rparr>\<rparr>
      = ((200, Accepted_Reply (int (length evs))), s')"
    "t_executions (srv_db s') = t_executions db' @ saved" "list_all2 (landed ?i (db'\<lparr>pg_calls := n\<rparr>)) evs saved"
    using handle_batch_lands [of E ?i "\<lparr>srv_auth = a, srv_db = db'\<lparr>pg_calls := n\<rparr>\<rparr>" "received addr ?p ?rq" evs] assms(4,13,14)
    by (auto simp: ids)
  have "job_of k (db'\<lparr>pg_calls := n\<rparr>) = job_of k db'" for k by (simp add: job_of_def)
  then have "landed ?i (db'\<lparr>pg_calls := n\<rparr>) = landed ?i db'" by (simp add: landed_def fun_eq_iff cong: option.case_cong)
  moreover have "st_executions (flush_executions A c st) = []"
    using flush_answered [OF assms(10,11)] assms(12,15) d b(1) by simp
  ultimately show ?thesis using d b by auto
qed



end
