(* ===== verification/Seed.thy ===== *)
theory Seed
  imports Uploads ServerConfig
begin

text \<open>
  The seed command (\<open>apps/server/cmd/seed/main.go\<close>): it fills a running server with sample data through
  the same API that the agents use. A transport maps a request to the status and body of the answer, or to
  nothing when the request fails, and changes the state \<open>'w\<close> of what it talks to; \<open>site\<close> is the transport
  whose other end is the server of \<open>Handlers\<close>.
\<close>

section \<open>Requests\<close>

type_synonym 'w transport = "http_request \<Rightarrow> 'w \<Rightarrow> (nat \<times> json option) option \<times> 'w"

text \<open>The body of an answer, decoded into a map; anything else leaves the map nil, here \<open>JNull\<close>.\<close>

definition answer_map :: "(nat \<times> json option) option \<Rightarrow> json" where
  "answer_map r = (case r of Some (_, Some (JObj kvs)) \<Rightarrow> JObj kvs | _ \<Rightarrow> JNull)"

definition seed_post :: "'w transport \<Rightarrow> string \<Rightarrow> string \<Rightarrow> json \<Rightarrow> 'w \<Rightarrow> json \<times> 'w" where
  "seed_post T url token body w =
     (case T \<lparr>rq_method = ''POST'', rq_url = url,
              rq_headers = [(''Content-Type'', ''application/json''), (''Authorization'', ''Bearer '' @ token)],
              rq_body = Some body\<rparr> w of
        (r, w) \<Rightarrow> (answer_map r, w))"

definition seed_post_with_host :: "'w transport \<Rightarrow> string \<Rightarrow> string \<Rightarrow> string \<Rightarrow> json \<Rightarrow> 'w \<Rightarrow> json \<times> 'w" where
  "seed_post_with_host T url token host_id body w =
     (case T \<lparr>rq_method = ''POST'', rq_url = url,
              rq_headers = [(''Content-Type'', ''application/json''), (''Authorization'', ''Bearer '' @ token),
                            (''X-Host-ID'', host_id)],
              rq_body = Some body\<rparr> w of
        (r, w) \<Rightarrow> (answer_map r, w))"

text \<open>Attempts, two seconds apart, until \<open>/health\<close> answers 200; \<open>False\<close> is the exit with status 1.\<close>

fun wait_attempts :: "'w transport \<Rightarrow> string \<Rightarrow> nat \<Rightarrow> 'w \<Rightarrow> bool \<times> 'w" where
  "wait_attempts T url 0 w = (False, w)"
| "wait_attempts T url (Suc n) w =
     (case T \<lparr>rq_method = ''GET'', rq_url = url @ ''/health'', rq_headers = [], rq_body = None\<rparr> w of
        (Some (status, b), w) \<Rightarrow> if status = 200 then (True, w) else wait_attempts T url n w
      | (None, w) \<Rightarrow> wait_attempts T url n w)"

definition wait_for_server :: "'w transport \<Rightarrow> string \<Rightarrow> 'w \<Rightarrow> bool \<times> 'w" where
  "wait_for_server T url w = wait_attempts T url 30 w"

section \<open>Sample data\<close>

definition seed_host :: "string \<Rightarrow> string \<Rightarrow> string \<Rightarrow> string \<Rightarrow> string list \<Rightarrow> json" where
  "seed_host machine_id hostname ip environment tags =
     json_map [(''machine_id'', JStr machine_id), (''hostname'', JStr hostname), (''ip_address'', JStr ip),
       (''environment'', JStr environment), (''tags'', JArr (map JStr tags)), (''agent_version'', JStr ''0.1.0'')]"

definition seed_hosts :: "json list" where
  "seed_hosts =
     [seed_host ''seed-host-001'' ''web-prod-01'' ''10.0.1.10'' ''production'' [''web'', ''nginx'', ''prod''],
      seed_host ''seed-host-002'' ''db-prod-01'' ''10.0.1.20'' ''production'' [''database'', ''postgres'', ''prod''],
      seed_host ''seed-host-003'' ''crawler-dev-01'' ''192.168.1.5'' ''development'' [''crawler'', ''dev'']]"

definition seed_job :: "string \<Rightarrow> string \<Rightarrow> string \<Rightarrow> string \<Rightarrow> string \<Rightarrow> string \<Rightarrow> string \<Rightarrow> json" where
  "seed_job schedule timezone user raw normalized hash source =
     json_map [(''source_type'', JStr ''cron''), (''schedule'', JStr schedule), (''timezone'', JStr timezone),
       (''user'', JStr user), (''raw_command'', JStr raw), (''normalized_command'', JStr normalized),
       (''command_hash'', JStr hash), (''enabled'', JBool True), (''source_file'', JStr source)]"

definition seed_jobs :: "json list" where
  "seed_jobs =
     [seed_job ''0 2 * * *'' ''UTC'' ''root'' ''/usr/local/bin/backup.sh --full'' ''/usr/local/bin/backup.sh''
        ''abc123backup'' ''/etc/cron.d/backup'',
      seed_job ''*/5 * * * *'' ''UTC'' ''www-data'' ''/usr/bin/python3 /opt/app/collect.py''
        ''/usr/bin/python3 /opt/app/collect.py'' ''def456collect'' ''/etc/crontab'',
      seed_job ''0 0 * * *'' ''Asia/Taipei'' ''app'' ''/opt/app/daily_report.sh'' ''/opt/app/daily_report.sh''
        ''ghi789report'' ''/var/spool/cron/crontabs/app'']"

definition seed_executions :: "time \<Rightarrow> json list" where
  "seed_executions now =
     [json_map [(''scheduled_at'', JTime (now - hours 2)), (''detected_started_at'', JTime (now - hours 2 + seconds 5)),
        (''detected_finished_at'', JTime (now - hours 2 + seconds 45)), (''duration_seconds'', JNum (81 / 2)),
        (''status'', JStr ''success''), (''confidence_score'', JNum (17 / 20)),
        (''detection_sources'', JArr [JStr ''process'']),
        (''evidence'', json_map [(''pid'', JNum 12345), (''ppid'', JNum 1)])],
      json_map [(''scheduled_at'', JTime (now - hours 1)), (''detected_started_at'', JTime (now - hours 1)),
        (''status'', JStr ''unknown''), (''confidence_score'', JNum (2 / 5)),
        (''detection_sources'', JArr [JStr ''cron_log'']),
        (''evidence'', json_map [(''log_line'', JStr ''CRON[12349]: CMD (/usr/local/bin/backup.sh)'')])]]"

definition seed_query :: json where
  "seed_query = json_map [(''query'',
     JStr (''SELECT COUNT(*) FROM events WHERE created_at > NOW() - INTERVAL '' @ CHR 0x27 # ''1 day'' @ [CHR 0x27]))]"

definition seed_metric :: "real \<Rightarrow> time \<Rightarrow> string \<Rightarrow> json" where
  "seed_metric v t status =
     json_map [(''metric_name'', JStr ''daily_records_inserted''), (''metric_type'', JStr ''count''),
       (''dimensions'', json_map [(''table'', JStr ''events''), (''db'', JStr ''app_prod'')]), (''value'', JNum v),
       (''measured_at'', JTime t), (''status'', JStr status), (''evidence'', seed_query)]"

definition seed_metrics :: "time \<Rightarrow> json list" where
  "seed_metrics now =
     [seed_metric 4821 (now - minutes 30) ''ok'', seed_metric 0 (now - hours 24 - minutes 30) ''critical'']"

section \<open>The command\<close>

definition seed_id :: "json \<Rightarrow> string" where
  "seed_id r = (case json_field r ''id'' of Some (JStr i) \<Rightarrow> i | _ \<Rightarrow> [])"

fun register_hosts :: "'w transport \<Rightarrow> string \<Rightarrow> string \<Rightarrow> json list \<Rightarrow> string list \<Rightarrow> 'w \<Rightarrow> string list \<times> 'w" where
  "register_hosts T url token [] ids w = (ids, w)"
| "register_hosts T url token (h # hs) ids w =
     (case seed_post T (url @ ''/api/v1/agents/register'') token h w of
        (r, w) \<Rightarrow> register_hosts T url token hs (ids @ [seed_id r]) w)"

definition send_heartbeats :: "'w transport \<Rightarrow> string \<Rightarrow> string \<Rightarrow> string list \<Rightarrow> 'w \<Rightarrow> 'w" where
  "send_heartbeats T url token ids w =
     fold (\<lambda>i w. snd (seed_post_with_host T (url @ ''/api/v1/agents/heartbeat'') token i (json_map []) w)) ids w"

text \<open>\<open>True\<close> when the command reaches its end, \<open>False\<close> when it exits with status 1.\<close>

definition seed :: "'w transport \<Rightarrow> environment \<Rightarrow> time \<Rightarrow> 'w \<Rightarrow> bool \<times> 'w" where
  "seed T env now w =
     (let url = getenv env ''SERVER_URL'' ''http://localhost:8000''; token = getenv env ''SERVER_TOKEN'' ''dev-token'' in
      case wait_for_server T url w of
        (False, w) \<Rightarrow> (False, w)
      | (True, w) \<Rightarrow>
          (case register_hosts T url token seed_hosts [] w of
             (ids, w) \<Rightarrow>
               let w = send_heartbeats T url token ids w in
               if ids = [] then (False, w)
               else
                 let w = snd (seed_post_with_host T (url @ ''/api/v1/jobs/discovery'') token (ids ! 0)
                               (json_map [(''jobs'', JArr seed_jobs)]) w);
                     w = snd (seed_post_with_host T (url @ ''/api/v1/executions/batch'') token (ids ! 0)
                               (json_map [(''executions'', JArr (seed_executions now))]) w);
                     w = snd (seed_post_with_host T (url @ ''/api/v1/metrics/batch'') token (ids ! 1)
                               (json_map [(''metrics'', JArr (seed_metrics now))]) w)
                 in (True, w)))"

section \<open>The server at the other end\<close>

text \<open>How the server marshals a host.\<close>

definition host_json :: "host \<Rightarrow> json" where
  "host_json h = JObj ([(''id'', JStr (h_id h)), (''machine_id'', JStr (h_machine_id h)), (''hostname'', JStr (h_hostname h)),
     (''ip_address'', JStr (h_ip_address h)), (''environment'', JStr (h_environment h)),
     (''tags'', JArr (map JStr (h_tags h))), (''registered_at'', JTime (h_registered_at h))]
     @ (case h_last_heartbeat_at h of None \<Rightarrow> [] | Some t \<Rightarrow> [(''last_heartbeat_at'', JTime t)])
     @ [(''status'', JStr (h_status h)), (''agent_version'', JStr (h_agent_version h))]
     @ (case h_metadata h of None \<Rightarrow> [] | Some j \<Rightarrow> [(''metadata'', j)]))"

text \<open>\<open>body\<close> is the marshalling of the other replies, which the command decodes but does not look at.\<close>

definition reply_body :: "(reply \<Rightarrow> json option) \<Rightarrow> reply \<Rightarrow> json option" where
  "reply_body body r = (case r of Host_Reply h \<Rightarrow> Some (host_json h) | _ \<Rightarrow> body r)"

text \<open>\<open>/health\<close> is answered before the middleware of the API.\<close>

definition health :: "server \<Rightarrow> (nat \<times> json option) option \<times> server" where
  "health s = (Some (200, Some (json_map [(''status'', JStr ''ok'')])), s)"

definition site :: "server_env \<Rightarrow> api_config \<Rightarrow> (reply \<Rightarrow> json option) \<Rightarrow> string \<Rightarrow> string \<Rightarrow> server transport" where
  "site E K body base addr rq s =
     (if rq_method rq = ''GET'' \<and> rq_url rq = base @ ''/health'' then health s
      else (case deliver E K base addr rq s of ((status, r), s) \<Rightarrow> (Some (status, reply_body body r), s)))"

section \<open>Reaching a handler\<close>

lemma secure_equal_refl: "secure_equal t t"
  by (simp add: secure_equal_def constant_time_eq_def constant_time_compare_def)

lemma legacy_auth:
  assumes "bearer_token h = t" and "t \<noteq> []" and "t = ac_legacy_agent_token C"
  shows "\<exists>a'. api_auth C v now h i a db = (True, a', db)"
  using assms secure_equal_refl by (auto simp: api_auth_def Let_def split: prod.split bool.split)

lemma legacy_served:
  assumes "bearer_token (aq_authorization q) = t" and "t \<noteq> []" and "t = ac_legacy_agent_token (sc_auth K)" and "\<not> public_route rt"
  shows "\<exists>a. serve E K rt q s = handle E K rt q \<lparr>srv_auth = a, srv_db = bump (srv_db s)\<rparr>"
proof -
  obtain a where "api_auth (sc_auth K) (Some (validate_credential E)) (sv_now E (pg_calls (srv_db s))) (aq_authorization q)
      (aq_host_id q) (srv_auth s) (bump (srv_db s)) = (True, a, bump (srv_db s))"
    using legacy_auth [OF assms(1-3), where db = "bump (srv_db s)"] by metis
  then show ?thesis using assms(4) by (intro exI [of _ a]) (simp add: serve_def server_now_def on_db_def Let_def)
qed

text \<open>A post of the command with the token of the server reaches the handler of its route.\<close>

definition seed_call :: "string \<Rightarrow> string \<Rightarrow> string \<Rightarrow> string \<Rightarrow> json \<Rightarrow> api_request" where
  "seed_call addr path token i b = \<lparr>aq_authorization = ''Bearer '' @ token, aq_host_id = i, aq_query = query_of path,
     aq_body = Some b, aq_remote_addr = addr\<rparr>"

lemma site_post:
  assumes "rq_method rq = ''POST''" and "rq_url rq = base @ path" and "header ''Authorization'' (rq_headers rq) = ''Bearer '' @ t"
    and "word_ok t" and "t = ac_legacy_agent_token (sc_auth K)"
    and "match_route ''POST'' path = Some rt" and "\<not> public_route rt" and "CHR ''?'' \<notin> set path"
  shows "\<exists>a. site E K B base addr rq s =
    (case handle E K rt (received addr path rq) \<lparr>srv_auth = a, srv_db = bump (srv_db s)\<rparr> of
       ((status, r), s) \<Rightarrow> (Some (status, reply_body B r), s))"
proof -
  have "takeWhile (\<lambda>c. c \<noteq> CHR ''?'') path = path" using assms(8) by (auto simp: takeWhile_eq_all_conv)
  then have "site E K B base addr rq s = (case serve E K rt (received addr path rq) s of
      ((status, r), s) \<Rightarrow> (Some (status, reply_body B r), s))"
    using assms(1,2,6) by (simp add: site_def deliver_def del: takeWhile_eq_all_conv)
  moreover have "bearer_token (aq_authorization (received addr path rq)) = t"
    using assms(3) bearer_token_header [OF assms(4)] by (simp add: received_def)
  moreover have "t \<noteq> []" using assms(4) by (simp add: word_ok_def)
  ultimately show ?thesis using legacy_served [of "received addr path rq" t K rt E s] assms(5,7) by metis
qed

lemma seed_post_handled:
  assumes "word_ok t" and "t = ac_legacy_agent_token (sc_auth K)"
    and "match_route ''POST'' path = Some rt" and "\<not> public_route rt" and "CHR ''?'' \<notin> set path"
  shows "\<exists>a. seed_post (site E K B base addr) (base @ path) t b s =
      (case handle E K rt (seed_call addr path t [] b) \<lparr>srv_auth = a, srv_db = bump (srv_db s)\<rparr> of
         ((status, r), s) \<Rightarrow> (answer_map (Some (status, reply_body B r)), s))"
    and "\<exists>a. seed_post_with_host (site E K B base addr) (base @ path) t i b s =
      (case handle E K rt (seed_call addr path t i b) \<lparr>srv_auth = a, srv_db = bump (srv_db s)\<rparr> of
         ((status, r), s) \<Rightarrow> (answer_map (Some (status, reply_body B r)), s))"
proof -
  let ?rq = "\<lambda>hs. \<lparr>rq_method = ''POST'', rq_url = base @ path, rq_headers = (''Content-Type'', ''application/json'')
    # (''Authorization'', ''Bearer '' @ t) # hs, rq_body = Some b\<rparr>"
  have "\<exists>a. site E K B base addr (?rq hs) s =
    (case handle E K rt (received addr path (?rq hs)) \<lparr>srv_auth = a, srv_db = bump (srv_db s)\<rparr> of
       ((status, r), s) \<Rightarrow> (Some (status, reply_body B r), s))" for hs
    by (rule site_post) (use assms in \<open>simp_all add: header_def\<close>)
  from this [of "[]"] this [of "[(''X-Host-ID'', i)]"]
  obtain a a' where
    s: "site E K B base addr (?rq []) s = (case handle E K rt (received addr path (?rq [])) \<lparr>srv_auth = a, srv_db = bump (srv_db s)\<rparr> of
       ((status, r), s) \<Rightarrow> (Some (status, reply_body B r), s))"
      "site E K B base addr (?rq [(''X-Host-ID'', i)]) s
        = (case handle E K rt (received addr path (?rq [(''X-Host-ID'', i)])) \<lparr>srv_auth = a', srv_db = bump (srv_db s)\<rparr> of
       ((status, r), s) \<Rightarrow> (Some (status, reply_body B r), s))" by blast
  have r: "received addr path (?rq []) = seed_call addr path t [] b"
    "received addr path (?rq [(''X-Host-ID'', i)]) = seed_call addr path t i b"
    by (simp_all add: received_def seed_call_def header_def)
  show "\<exists>a. seed_post (site E K B base addr) (base @ path) t b s =
      (case handle E K rt (seed_call addr path t [] b) \<lparr>srv_auth = a, srv_db = bump (srv_db s)\<rparr> of
         ((status, r), s) \<Rightarrow> (answer_map (Some (status, reply_body B r)), s))"
    unfolding seed_post_def s(1) r by (intro exI [of _ a]) (simp split: prod.split)
  show "\<exists>a. seed_post_with_host (site E K B base addr) (base @ path) t i b s =
      (case handle E K rt (seed_call addr path t i b) \<lparr>srv_auth = a, srv_db = bump (srv_db s)\<rparr> of
         ((status, r), s) \<Rightarrow> (answer_map (Some (status, reply_body B r)), s))"
    unfolding seed_post_with_host_def s(2) r by (intro exI [of _ a']) (simp split: prod.split)
qed

section \<open>A server that can be seeded\<close>

text \<open>Its statements succeed, its identifiers are in canonical form, and the ones it makes are new.\<close>

definition good_id :: "server_env \<Rightarrow> string \<Rightarrow> bool" where
  "good_id E i \<longleftrightarrow> i \<noteq> [] \<and> sv_pg_uuid E i = Some i \<and> sv_parse_uuid E i = Some i"

definition seedable :: "server_env \<Rightarrow> pg \<Rightarrow> bool" where
  "seedable E db \<longleftrightarrow> (\<forall>n. sv_up E n) \<and> inj (sv_new_uuid E)
     \<and> (\<forall>i \<in> host_ids db \<union> job_ids db \<union> range (sv_new_uuid E). good_id E i)
     \<and> (\<forall>n \<ge> pg_calls db. sv_new_uuid E n \<notin> host_ids db)"

definition rows_kept :: "pg \<Rightarrow> pg \<Rightarrow> bool" where
  "rows_kept db db' \<longleftrightarrow> t_jobs db' = t_jobs db \<and> t_executions db' = t_executions db \<and> t_metrics db' = t_metrics db"

lemma rows_kept_trans: "rows_kept a b \<Longrightarrow> rows_kept b c \<Longrightarrow> rows_kept a c"
  by (simp add: rows_kept_def)

lemma rows_kept_bump [simp]: "rows_kept (bump a) b = rows_kept a b"
  by (simp add: rows_kept_def)

lemma seedable_bump: "seedable E db \<Longrightarrow> seedable E (bump db)"
  by (simp add: seedable_def)

lemma seedable_cong:
  "seedable E db \<Longrightarrow> host_ids db' = host_ids db \<Longrightarrow> job_ids db' = job_ids db \<Longrightarrow> pg_calls db \<le> pg_calls db' \<Longrightarrow> seedable E db'"
  by (simp add: seedable_def)

lemma host_of_ids: "host_of m db = Some h \<Longrightarrow> h_id h \<in> host_ids db"
  by (auto simp: host_of_def host_ids_def find_Some_iff)

lemma host_state_keeps:
  "t_hosts (snd (host_upsert_state E i st hb n db)) = t_hosts db"
  "rows_kept db (snd (host_upsert_state E i st hb n db))"
  "pg_calls db \<le> pg_calls (snd (host_upsert_state E i st hb n db))"
  by (simp_all add: host_upsert_state_def stmt_def rows_kept_def Let_def split: option.split sum.split)

lemma host_upsert_taken:
  assumes "seedable E db"
  shows "\<exists>h db'. host_upsert E r db = (Inr h, db') \<and> seedable E db' \<and> rows_kept db db'
    \<and> host_of (h_machine_id r) db' = Some h \<and> (\<forall>k. k \<noteq> h_machine_id r \<longrightarrow> host_of k db' = host_of k db)
    \<and> h_hostname h = h_hostname r"
proof -
  let ?u = "sv_new_uuid E (pg_calls db)" and ?now = "sv_db_now E (pg_calls db)"
  obtain h rows where up: "upsert_row h_machine_id (refresh_host r) (new_host ?now ?u r) (t_hosts db) = (h, rows)" by fastforce
  define db' where "db' = bump (db\<lparr>t_hosts := rows\<rparr>)"
  have run: "host_upsert E r db = (Inr h, db')"
    using assms up by (simp add: host_upsert_def stmt_def seedable_def db'_def)
  have sub: "host_ids db' \<subseteq> insert ?u (host_ids db)"
    using set_upsert_row [of _ h_machine_id "refresh_host r" "new_host ?now ?u r" "t_hosts db"] up
    by (fastforce simp: host_ids_def db'_def refresh_host_def new_host_def)
  have "sv_new_uuid E n \<notin> host_ids db'" if "n \<ge> pg_calls db'" for n
  proof -
    have "sv_new_uuid E n \<noteq> ?u" "sv_new_uuid E n \<notin> host_ids db"
      using that assms by (auto simp: seedable_def db'_def inj_eq)
    then show ?thesis using sub by blast
  qed
  moreover have "host_ids db' \<union> job_ids db' \<union> range (sv_new_uuid E) \<subseteq> host_ids db \<union> job_ids db \<union> range (sv_new_uuid E)"
    using sub by (auto simp: db'_def)
  ultimately have "seedable E db'" using assms unfolding seedable_def by blast
  moreover have up': "upsert_row h_machine_id (refresh_host r) (new_host ?now ?u r) (t_hosts db) = (h, t_hosts db')"
    using up by (simp add: db'_def)
  moreover have "h_hostname h = h_hostname r"
    using upsert_row_find(2) [OF up] by (auto simp: refresh_host_def new_host_def split: option.splits)
  ultimately show ?thesis
    using run host_of_upsert(1) [OF up'] by (intro exI [of _ h] exI [of _ db']) (simp add: rows_kept_def db'_def)
qed

lemma register_taken:
  assumes "seedable E db"
  shows "\<exists>h db'. register E r db = (Inr h, db') \<and> seedable E db' \<and> rows_kept db db'
    \<and> host_of (h_machine_id r) db' = Some h \<and> (\<forall>k. k \<noteq> h_machine_id r \<longrightarrow> host_of k db' = host_of k db)
    \<and> h_hostname h = h_hostname r"
proof -
  obtain h db1 where u: "host_upsert E r db = (Inr h, db1)" "seedable E db1" "rows_kept db db1"
    "host_of (h_machine_id r) db1 = Some h" "\<forall>k. k \<noteq> h_machine_id r \<longrightarrow> host_of k db1 = host_of k db" "h_hostname h = h_hostname r"
    using host_upsert_taken [OF assms, of r] by blast
  define db' where "db' = snd (host_upsert_state E (h_id h) ''active'' (Some (sv_now E (pg_calls db1))) 0 (bump db1))"
  have r: "register E r db = (Inr h, db')" using u(1) by (simp add: register_def server_now_def db'_def)
  have k: "t_hosts db' = t_hosts db1" "rows_kept db1 db'" "pg_calls db1 \<le> pg_calls db'"
    using host_state_keeps [where db = "bump db1" and E = E and i = "h_id h" and st = "''active''"
        and hb = "Some (sv_now E (pg_calls db1))" and n = 0]
    by (simp_all add: db'_def)
  then have "host_ids db' = host_ids db1" "job_ids db' = job_ids db1" "host_of m db' = host_of m db1" for m
    by (simp_all add: host_ids_def job_ids_def host_of_def rows_kept_def)
  then show ?thesis using r u k seedable_cong [OF u(2), of db'] rows_kept_trans [OF u(3) k(2)]
    by (intro exI [of _ h] exI [of _ db']) simp
qed

section \<open>Registering the hosts\<close>

definition knows_token :: "api_config \<Rightarrow> string \<Rightarrow> bool" where
  "knows_token K t \<longleftrightarrow> word_ok t \<and> t = ac_legacy_agent_token (sc_auth K)"

lemma seed_host_read:
  "as_body empty_register decode_register (Some (seed_host m hn ip env tags)) =
     Some \<lparr>rr_machine_id = m, rr_hostname = hn, rr_ip_address = ip, rr_environment = env, rr_tags = tags,
       rr_agent_version = ''0.1.0'', rr_metadata = None\<rparr>"
proof -
  have "traverse as_str_elem (map JStr xs) = Some xs" for xs by (induction xs) auto
  then show ?thesis by (simp add: as_body_def seed_host_def decode_register_def decode_fields)
qed

lemma seed_id_host [simp]: "seed_id (answer_map (Some (st, reply_body B (Host_Reply h)))) = h_id h"
  by (simp add: seed_id_def answer_map_def reply_body_def host_json_def)

lemma register_post:
  assumes "knows_token K t" and "seedable E (srv_db s)" and "m \<noteq> []" and "hn \<noteq> []"
  shows "\<exists>r h s'. seed_post (site E K B base addr) (base @ ''/api/v1/agents/register'') t (seed_host m hn ip env tags) s = (r, s')
    \<and> seed_id r = h_id h \<and> seedable E (srv_db s') \<and> rows_kept (srv_db s) (srv_db s') \<and> host_of m (srv_db s') = Some h
    \<and> (\<forall>k. k \<noteq> m \<longrightarrow> host_of k (srv_db s') = host_of k (srv_db s))"
proof -
  let ?p = "''/api/v1/agents/register''" and ?b = "seed_host m hn ip env tags"
  have route: "match_route ''POST'' ?p = Some Register_Route" "\<not> public_route Register_Route"
    by (simp_all add: match_route_def fixed_routes_def public_route_def)
  obtain a where p: "seed_post (site E K B base addr) (base @ ?p) t ?b s =
      (case handle_register E K (seed_call addr ?p t [] ?b) \<lparr>srv_auth = a, srv_db = bump (srv_db s)\<rparr> of
         ((status, r), s) \<Rightarrow> (answer_map (Some (status, reply_body B r)), s))"
    using seed_post_handled(1) [of t K ?p Register_Route E B base addr ?b s] assms(1) route by (auto simp: knows_token_def)
  define r where "r = register_to_domain \<lparr>rr_machine_id = m, rr_hostname = hn, rr_ip_address = ip, rr_environment = env,
    rr_tags = tags, rr_agent_version = ''0.1.0'', rr_metadata = None\<rparr>"
  have rm: "h_machine_id r = m" by (simp add: r_def register_to_domain_def)
  obtain h db' where h: "register E r (bump (srv_db s)) = (Inr h, db')" "seedable E db'" "rows_kept (bump (srv_db s)) db'"
    "host_of m db' = Some h" "\<forall>k. k \<noteq> m \<longrightarrow> host_of k db' = host_of k (bump (srv_db s))"
    using register_taken [OF seedable_bump [OF assms(2)], of r] rm by auto
  have "handle_register E K (seed_call addr ?p t [] ?b) \<lparr>srv_auth = a, srv_db = bump (srv_db s)\<rparr>
      = ((201, Host_Reply h), \<lparr>srv_auth = a, srv_db = db'\<rparr>)"
    using h(1) assms(3,4) seed_host_read [of m hn ip env tags]
    by (simp add: handle_register_def seed_call_def on_db_def write_json_def r_def)
  then show ?thesis using p h
    by (intro exI [of _ "answer_map (Some (201, reply_body B (Host_Reply h)))"] exI [of _ h] exI [of _ "\<lparr>srv_auth = a, srv_db = db'\<rparr>"])
      (simp add: host_of_def)
qed

lemma seed_hosts_registered:
  assumes "knows_token K t" and "seedable E (srv_db s)"
  shows "\<exists>h1 h2 h3 s'. register_hosts (site E K B base addr) base t seed_hosts [] s = ([h_id h1, h_id h2, h_id h3], s')
    \<and> host_of ''seed-host-001'' (srv_db s') = Some h1 \<and> host_of ''seed-host-002'' (srv_db s') = Some h2
    \<and> host_of ''seed-host-003'' (srv_db s') = Some h3 \<and> seedable E (srv_db s') \<and> rows_kept (srv_db s) (srv_db s')"
proof -
  obtain r1 h1 s1 where 1: "seed_post (site E K B base addr) (base @ ''/api/v1/agents/register'') t
      (seed_host ''seed-host-001'' ''web-prod-01'' ''10.0.1.10'' ''production'' [''web'', ''nginx'', ''prod'']) s = (r1, s1)"
    "seed_id r1 = h_id h1" "seedable E (srv_db s1)" "rows_kept (srv_db s) (srv_db s1)" "host_of ''seed-host-001'' (srv_db s1) = Some h1"
    using register_post [OF assms, of "''seed-host-001''" "''web-prod-01''"] by blast
  obtain r2 h2 s2 where 2: "seed_post (site E K B base addr) (base @ ''/api/v1/agents/register'') t
      (seed_host ''seed-host-002'' ''db-prod-01'' ''10.0.1.20'' ''production'' [''database'', ''postgres'', ''prod'']) s1 = (r2, s2)"
    "seed_id r2 = h_id h2" "seedable E (srv_db s2)" "rows_kept (srv_db s1) (srv_db s2)" "host_of ''seed-host-002'' (srv_db s2) = Some h2"
    "\<forall>k. k \<noteq> ''seed-host-002'' \<longrightarrow> host_of k (srv_db s2) = host_of k (srv_db s1)"
    using register_post [OF assms(1) 1(3), of "''seed-host-002''" "''db-prod-01''"] by blast
  obtain r3 h3 s3 where 3: "seed_post (site E K B base addr) (base @ ''/api/v1/agents/register'') t
      (seed_host ''seed-host-003'' ''crawler-dev-01'' ''192.168.1.5'' ''development'' [''crawler'', ''dev'']) s2 = (r3, s3)"
    "seed_id r3 = h_id h3" "seedable E (srv_db s3)" "rows_kept (srv_db s2) (srv_db s3)" "host_of ''seed-host-003'' (srv_db s3) = Some h3"
    "\<forall>k. k \<noteq> ''seed-host-003'' \<longrightarrow> host_of k (srv_db s3) = host_of k (srv_db s2)"
    using register_post [OF assms(1) 2(3), of "''seed-host-003''" "''crawler-dev-01''"] by blast
  have "register_hosts (site E K B base addr) base t seed_hosts [] s = ([h_id h1, h_id h2, h_id h3], s3)"
    by (simp add: seed_hosts_def 1(1,2) 2(1,2) 3(1,2))
  moreover have "host_of ''seed-host-001'' (srv_db s3) = Some h1" using 1(5) 2(6) 3(6) by simp
  moreover have "host_of ''seed-host-002'' (srv_db s3) = Some h2" using 2(5) 3(6) by simp
  moreover note 3(5,3) rows_kept_trans [OF rows_kept_trans [OF 1(4) 2(4)] 3(4)]
  ultimately show ?thesis by blast
qed

section \<open>Heartbeats\<close>

lemma heartbeat_beats:
  "rows_kept db (snd (agent_heartbeat E i ip db))" "pg_calls db \<le> pg_calls (snd (agent_heartbeat E i ip db))"
proof -
  obtain y db1 where u: "host_update_heartbeat E i ip db = (y, db1)" by fastforce
  have k: "rows_kept db db1" "pg_calls db \<le> pg_calls db1"
    using u by (auto simp: host_update_heartbeat_def stmt_def rows_kept_def split: if_splits option.splits sum.splits)
  show "rows_kept db (snd (agent_heartbeat E i ip db))"
    using u k host_state_keeps(2) [of "bump db1"] by (auto simp: agent_heartbeat_def server_now_def intro: rows_kept_trans split: sum.split)
  have "pg_calls db1 \<le> pg_calls (snd (host_upsert_state E i st hb n (bump db1)))" for st hb n
    using host_state_keeps(3) [of "bump db1" E i st hb n] by simp
  then show "pg_calls db \<le> pg_calls (snd (agent_heartbeat E i ip db))"
    using u k by (auto simp: agent_heartbeat_def server_now_def intro: le_trans split: sum.split)
qed

lemma find_update_where:
  "(\<And>r. key (f r) = key r) \<Longrightarrow>
     List.find (\<lambda>r. key r = k) (update_where p f rs) = map_option (\<lambda>r. if p r then f r else r) (List.find (\<lambda>r. key r = k) rs)"
  by (induction rs) (auto simp: update_where_def)

text \<open>A host that is up, without an address.\<close>

definition beaten :: "host \<Rightarrow> bool" where
  "beaten h \<longleftrightarrow> h_status h = ''active'' \<and> h_ip_address h = []"

definition hosts_beat :: "string set \<Rightarrow> pg \<Rightarrow> pg \<Rightarrow> bool" where
  "hosts_beat I db db' \<longleftrightarrow> host_ids db' = host_ids db
     \<and> (\<forall>m h. host_of m db = Some h \<longrightarrow>
          (\<exists>h'. host_of m db' = Some h' \<and> h_id h' = h_id h \<and> (h_id h \<in> I \<or> beaten h \<longrightarrow> beaten h')))"

lemma heartbeat_post:
  assumes "knows_token K t" and "seedable E (srv_db s)" and "i \<in> host_ids (srv_db s)"
  shows "\<exists>r s'. seed_post_with_host (site E K B base addr) (base @ ''/api/v1/agents/heartbeat'') t i (json_map []) s = (r, s')
    \<and> seedable E (srv_db s') \<and> rows_kept (srv_db s) (srv_db s') \<and> hosts_beat {i} (srv_db s) (srv_db s')"
proof -
  let ?p = "''/api/v1/agents/heartbeat''" and ?q = "seed_call addr ''/api/v1/agents/heartbeat'' t i (json_map [])"
  have route: "match_route ''POST'' ?p = Some Heartbeat_Route" "\<not> public_route Heartbeat_Route"
    by (simp_all add: match_route_def fixed_routes_def public_route_def)
  obtain a where p: "seed_post_with_host (site E K B base addr) (base @ ?p) t i (json_map []) s =
      (case handle_heartbeat E ?q \<lparr>srv_auth = a, srv_db = bump (srv_db s)\<rparr> of
         ((status, r), s) \<Rightarrow> (answer_map (Some (status, reply_body B r)), s))"
    using seed_post_handled(2) [of t K ?p Heartbeat_Route E B base addr i "json_map []" s] assms(1) route by (auto simp: knows_token_def)
  have i: "good_id E i" "\<And>n. sv_up E n" using assms(2,3) by (auto simp: seedable_def)
  obtain db' now where b: "agent_heartbeat E i [] (bump (srv_db s)) = (Inr (), db')"
    "t_hosts db' = update_where (\<lambda>h. h_id h = i)
       (\<lambda>h. h\<lparr>h_last_heartbeat_at := Some now, h_status := ''active'', h_ip_address := []\<rparr>) (t_hosts (srv_db s))"
    using heartbeat_saved [of E i i "bump (srv_db s)" "[]"] i assms(3) by (auto simp: good_id_def)
  have "handle_heartbeat E ?q \<lparr>srv_auth = a, srv_db = bump (srv_db s)\<rparr> = ((200, OK_Reply), \<lparr>srv_auth = a, srv_db = db'\<rparr>)"
    using i(1) b(1) by (simp add: handle_heartbeat_def seed_call_def with_host_def as_body_def decode_heartbeat_def
        decode_fields on_db_def write_json_def good_id_def)
  moreover have k: "rows_kept (srv_db s) db'" "pg_calls (srv_db s) \<le> pg_calls db'"
    using heartbeat_beats [of "bump (srv_db s)" E i "[]"] b(1) by simp_all
  moreover have ids: "host_ids db' = host_ids (srv_db s)" by (simp add: host_ids_def b(2) ids_update_where)
  moreover have "seedable E db'"
    using assms(2) ids k by (auto intro: seedable_cong simp: rows_kept_def job_ids_def)
  moreover have "hosts_beat {i} (srv_db s) db'"
    unfolding hosts_beat_def host_of_def b(2) using ids by (auto simp: find_update_where beaten_def)
  ultimately show ?thesis using p by auto
qed

lemma hosts_beat_host:
  "hosts_beat I db db' \<Longrightarrow> host_of m db = Some h \<Longrightarrow> h_id h \<in> I \<Longrightarrow>
     \<exists>h'. host_of m db' = Some h' \<and> h_id h' = h_id h \<and> beaten h'"
  unfolding hosts_beat_def by blast

lemma hosts_beat_trans: "hosts_beat I a b \<Longrightarrow> hosts_beat J b c \<Longrightarrow> hosts_beat (I \<union> J) a c"
  unfolding hosts_beat_def by (metis UnE)

lemma hosts_beat_refl: "hosts_beat {} a a"
  by (simp add: hosts_beat_def)

lemma heartbeats_sent:
  assumes "knows_token K t" and "seedable E (srv_db s)" and "set ids \<subseteq> host_ids (srv_db s)"
  shows "\<exists>s'. send_heartbeats (site E K B base addr) base t ids s = s' \<and> seedable E (srv_db s') \<and> rows_kept (srv_db s) (srv_db s')
    \<and> hosts_beat (set ids) (srv_db s) (srv_db s')"
  using assms(2,3)
proof (induction ids arbitrary: s)
  case Nil
  then show ?case by (simp add: send_heartbeats_def hosts_beat_refl rows_kept_def)
next
  case (Cons i ids)
  obtain r s1 where 1: "seed_post_with_host (site E K B base addr) (base @ ''/api/v1/agents/heartbeat'') t i (json_map []) s = (r, s1)"
    "seedable E (srv_db s1)" "rows_kept (srv_db s) (srv_db s1)" "hosts_beat {i} (srv_db s) (srv_db s1)"
    using heartbeat_post [OF assms(1) Cons.prems(1), of i B base addr] Cons.prems(2) by auto
  have "set ids \<subseteq> host_ids (srv_db s1)" using Cons.prems(2) 1(4) by (simp add: hosts_beat_def)
  from Cons.IH [OF 1(2) this] 1 show ?case
    using hosts_beat_trans [OF 1(4)] rows_kept_trans [OF 1(3)] by (fastforce simp: send_heartbeats_def)
qed

section \<open>Jobs\<close>

definition demo_job :: "string \<Rightarrow> string \<Rightarrow> string \<Rightarrow> string \<Rightarrow> string \<Rightarrow> string \<Rightarrow> string \<Rightarrow> discovered_job" where
  "demo_job schedule timezone user raw normalized hash source =
     \<lparr>dj_source_type = ''cron'', dj_schedule = schedule, dj_timezone = timezone, dj_user = user, dj_raw_command = raw,
      dj_normalized_command = normalized, dj_command_hash = hash, dj_enabled = True, dj_source_file = source\<rparr>"

definition sample_jobs :: "discovered_job list" where
  "sample_jobs =
     [demo_job ''0 2 * * *'' ''UTC'' ''root'' ''/usr/local/bin/backup.sh --full'' ''/usr/local/bin/backup.sh''
        ''abc123backup'' ''/etc/cron.d/backup'',
      demo_job ''*/5 * * * *'' ''UTC'' ''www-data'' ''/usr/bin/python3 /opt/app/collect.py''
        ''/usr/bin/python3 /opt/app/collect.py'' ''def456collect'' ''/etc/crontab'',
      demo_job ''0 0 * * *'' ''Asia/Taipei'' ''app'' ''/opt/app/daily_report.sh'' ''/opt/app/daily_report.sh''
        ''ghi789report'' ''/var/spool/cron/crontabs/app'']"

lemma seed_job_item: "seed_job sc tz us raw nc ha sf = discovery_item (demo_job sc tz us raw nc ha sf)"
  by (simp add: seed_job_def discovery_item_def demo_job_def)

lemma seed_jobs_payload: "JArr seed_jobs = to_discovery_payload sample_jobs"
  by (simp add: seed_jobs_def sample_jobs_def to_discovery_payload_def seed_job_item)

lemma sample_jobs_cron: "\<forall>j \<in> set sample_jobs. dj_source_type j \<in> set job_sources"
  by (simp add: sample_jobs_def demo_job_def job_sources_def)

lemma job_upsert_frame:
  assumes "job_upsert E j db = (y, db')"
  shows "t_hosts db' = t_hosts db \<and> t_executions db' = t_executions db \<and> t_metrics db' = t_metrics db
    \<and> pg_calls db \<le> pg_calls db' \<and> job_ids db' \<subseteq> job_ids db \<union> range (sv_new_uuid E)"
proof -
  have sub: "job_ids (db\<lparr>t_jobs := snd (upsert_row job_key (refresh_job now j) (new_job now (sv_new_uuid E n) hid j) (t_jobs db))\<rparr>)
      \<subseteq> job_ids db \<union> range (sv_new_uuid E)" for now n hid
    using set_upsert_row [of _ job_key "refresh_job now j" "new_job now (sv_new_uuid E n) hid j" "t_jobs db"]
    by (fastforce simp: job_ids_def refresh_job_def new_job_def)
  show ?thesis using assms
    by (auto simp: job_upsert_def stmt_def Let_def split_beta dest: subsetD [OF sub] split: option.splits if_splits)
qed

lemma discovery_frame:
  assumes "process_discovery E h js db = (saved, db')"
  shows "t_hosts db' = t_hosts db \<and> t_executions db' = t_executions db \<and> t_metrics db' = t_metrics db
    \<and> pg_calls db \<le> pg_calls db' \<and> job_ids db' \<subseteq> job_ids db \<union> range (sv_new_uuid E)"
proof -
  have "t_hosts (fold (\<lambda>j db. snd (job_upsert E j db)) js db) = t_hosts db
    \<and> t_executions (fold (\<lambda>j db. snd (job_upsert E j db)) js db) = t_executions db
    \<and> t_metrics (fold (\<lambda>j db. snd (job_upsert E j db)) js db) = t_metrics db
    \<and> pg_calls db \<le> pg_calls (fold (\<lambda>j db. snd (job_upsert E j db)) js db)
    \<and> job_ids (fold (\<lambda>j db. snd (job_upsert E j db)) js db) \<subseteq> job_ids db \<union> range (sv_new_uuid E)" for js
  proof (induction js arbitrary: db)
    case (Cons j js)
    then show ?case using job_upsert_frame [of E j db "fst (job_upsert E j db)" "snd (job_upsert E j db)"]
      by (fastforce intro: le_trans)
  qed simp
  then show ?thesis using discovery_loop_fold [of E h js "[]" db] assms by (simp add: process_discovery_def)
qed

lemma jobs_post:
  assumes "knows_token K t" and "seedable E (srv_db s)" and "i \<in> host_ids (srv_db s)"
    and "\<And>n. sv_new_uuid E n \<notin> job_ids (srv_db s)"
  shows "\<exists>r s'. seed_post_with_host (site E K B base addr) (base @ ''/api/v1/jobs/discovery'') t i
        (json_map [(''jobs'', JArr seed_jobs)]) s = (r, s')
    \<and> seedable E (srv_db s') \<and> t_hosts (srv_db s') = t_hosts (srv_db s) \<and> t_executions (srv_db s') = t_executions (srv_db s)
    \<and> t_metrics (srv_db s') = t_metrics (srv_db s)
    \<and> job_map (srv_db s') = learn i (map reported_job sample_jobs) (job_map (srv_db s))"
proof -
  let ?p = "''/api/v1/jobs/discovery''" and ?b = "json_map [(''jobs'', JArr seed_jobs)]"
  let ?q = "seed_call addr ?p t i ?b"
  have route: "match_route ''POST'' ?p = Some Discovery_Route" "\<not> public_route Discovery_Route"
    by (simp_all add: match_route_def fixed_routes_def public_route_def)
  obtain a where p: "seed_post_with_host (site E K B base addr) (base @ ?p) t i ?b s =
      (case handle_discovery E ?q \<lparr>srv_auth = a, srv_db = bump (srv_db s)\<rparr> of
         ((status, r), s) \<Rightarrow> (answer_map (Some (status, reply_body B r)), s))"
    using seed_post_handled(2) [of t K ?p Discovery_Route E B base addr i ?b s] assms(1) route by (auto simp: knows_token_def)
  have good: "good_id E i" using assms(2,3) by (auto simp: seedable_def)
  have takes: "takes_jobs E i i (bump (srv_db s))" using assms(2-4) good by (auto simp: takes_jobs_def seedable_def good_id_def)
  obtain ds where ds: "as_body [] decode_discovery (aq_body ?q) = Some ds" "map discovered_to_domain ds = map reported_job sample_jobs"
    using discovery_read [of sample_jobs] by (auto simp: seed_call_def seed_jobs_payload)
  obtain saved db' where d: "process_discovery E i (map reported_job sample_jobs) (bump (srv_db s)) = (saved, db')" by fastforce
  note f = discovery_frame [OF d]
  have "\<forall>j \<in> set (map reported_job sample_jobs). j_source_type j \<in> set job_sources"
    using sample_jobs_cron by (auto simp: reported_job_def)
  moreover have "job_map (bump (srv_db s)) = job_map (srv_db s)" by (simp add: job_map_def job_of_def fun_eq_iff)
  ultimately have "job_map db' = learn i (map reported_job sample_jobs) (job_map (srv_db s))"
    using discovery_learned [OF takes, of "map reported_job sample_jobs"] d by simp
  moreover have "handle_discovery E ?q \<lparr>srv_auth = a, srv_db = bump (srv_db s)\<rparr>
      = ((200, Discovery_Reply (int (length saved)) saved), \<lparr>srv_auth = a, srv_db = db'\<rparr>)"
    using ds d good by (simp add: handle_discovery_def with_host_def on_db_def write_json_def seed_call_def good_id_def)
  moreover have "host_ids db' = host_ids (srv_db s)" using f by (simp add: host_ids_def)
  then have "seedable E db'" using assms(2) f unfolding seedable_def by (auto simp: subset_iff)
  ultimately show ?thesis using p f by auto
qed

section \<open>Executions and metrics\<close>

definition sample_runs :: "time \<Rightarrow> execution list" where
  "sample_runs now =
     [\<lparr>e_id = [], e_host_id = [], e_job_id = None, e_scheduled_at = Some (now - hours 2),
       e_started_at = Some (now - hours 2 + seconds 5), e_finished_at = Some (now - hours 2 + seconds 45),
       e_duration_seconds = Some (81 / 2), e_status = ''success'', e_confidence = 17 / 20, e_sources = [''process''],
       e_output_text = None, e_evidence = Some (json_map [(''pid'', JNum 12345), (''ppid'', JNum 1)]), e_created_at = zero_time\<rparr>,
      \<lparr>e_id = [], e_host_id = [], e_job_id = None, e_scheduled_at = Some (now - hours 1),
       e_started_at = Some (now - hours 1), e_finished_at = None,
       e_duration_seconds = None, e_status = ''unknown'', e_confidence = 2 / 5, e_sources = [''cron_log''],
       e_output_text = None, e_evidence = Some (json_map [(''log_line'', JStr ''CRON[12349]: CMD (/usr/local/bin/backup.sh)'')]),
       e_created_at = zero_time\<rparr>]"

lemma sample_runs_read:
  "\<exists>es. as_body [] decode_execution_batch (Some (json_map [(''executions'', JArr (seed_executions now))])) = Some es
     \<and> executions_to_domain es = Some (sample_runs now)"
  by (simp add: as_body_def decode_execution_batch_def decode_fields seed_executions_def decode_event_def
      executions_to_domain_def event_to_domain_def sample_runs_def Let_def)

lemma sample_runs_ok: "\<forall>x \<in> set (sample_runs now). known_job J x \<and> passes_checks x"
  by (simp add: sample_runs_def known_job_def passes_checks_def execution_statuses_def)

lemma sample_runs_unlinked: "x \<in> set (sample_runs now) \<Longrightarrow> linked_job h db x = None"
  by (auto simp: sample_runs_def linked_job_def command_hash_from_evidence_def)

definition sample_measure :: "real \<Rightarrow> time \<Rightarrow> string \<Rightarrow> data_metric" where
  "sample_measure v t status = \<lparr>m_id = [], m_host_id = [], m_name = ''daily_records_inserted'', m_type = ''count'',
     m_dimensions = Some (json_map [(''table'', JStr ''events''), (''db'', JStr ''app_prod'')]), m_value = v,
     m_measured_at = t, m_status = status, m_evidence = Some seed_query, m_created_at = zero_time\<rparr>"

definition sample_measures :: "time \<Rightarrow> data_metric list" where
  "sample_measures now =
     [sample_measure 4821 (now - minutes 30) ''ok'', sample_measure 0 (now - hours 24 - minutes 30) ''critical'']"

lemma seed_metric_read:
  "map_option metric_to_domain (as_struct empty_metric decode_metric (seed_metric v t st)) = Some (sample_measure v t st)"
  by (simp add: seed_metric_def decode_metric_def decode_fields metric_to_domain_def sample_measure_def)

lemma traverse_read:
  "list_all2 (\<lambda>x y. map_option f (dec x) = Some y) xs ys \<Longrightarrow> \<exists>zs. traverse dec xs = Some zs \<and> map f zs = ys"
  by (induction rule: list_all2_induct) auto

lemma sample_measures_read:
  "\<exists>ms. as_body [] decode_metric_batch (Some (json_map [(''metrics'', JArr (seed_metrics now))])) = Some ms
     \<and> map metric_to_domain ms = sample_measures now"
proof -
  have "list_all2 (\<lambda>x y. map_option metric_to_domain (as_struct empty_metric decode_metric x) = Some y) (seed_metrics now) (sample_measures now)"
    by (simp add: seed_metrics_def sample_measures_def seed_metric_read del: map_option_eq_Some)
  moreover have "as_body [] decode_metric_batch (Some (json_map [(''metrics'', JArr xs)])) = traverse (as_struct empty_metric decode_metric) xs" for xs
    by (simp add: as_body_def decode_metric_batch_def decode_fields)
  ultimately show ?thesis using traverse_read by simp
qed

lemma sample_measures_ok: "\<forall>m \<in> set (sample_measures now). metric_passes m"
  by (simp add: sample_measures_def sample_measure_def metric_passes_def metric_types_def metric_statuses_def)

lemma execution_step_frame:
  assumes "execution_step E h e db = (new, db')"
  shows "t_hosts db' = t_hosts db \<and> t_metrics db' = t_metrics db"
proof -
  obtain e1 db1 where l: "link_job E h (e\<lparr>e_host_id := h\<rparr>) db = (e1, db1)" by fastforce
  obtain n where n: "db1 = db\<lparr>pg_calls := n\<rparr>" using link_job_pg(1) [OF l] by blast
  obtain y db2 where i: "execution_insert E e1 db1 = (y, db2)" by fastforce
  have "t_metrics db2 = t_metrics db" using execution_insert_cases [OF i] n by auto
  moreover have "t_metrics (snd (update_job_state E s db2)) = t_metrics db2" for s
    by (simp add: update_job_state_def count_recent_failures_def job_upsert_state_def query_def stmt_def Let_def
        split: option.split sum.split prod.split)
  ultimately have "t_metrics db' = t_metrics db"
    using assms l i by (auto simp: execution_step_def split: sum.splits if_splits)
  then show ?thesis using execution_step_appends [OF assms] by simp
qed

lemma execution_batch_frame:
  "t_hosts (snd (execution_batch E h xs db)) = t_hosts db \<and> t_metrics (snd (execution_batch E h xs db)) = t_metrics db"
proof -
  have "t_hosts (snd (execution_loop E h xs res db)) = t_hosts db \<and> t_metrics (snd (execution_loop E h xs res db)) = t_metrics db" for res
  proof (induction xs arbitrary: res db)
    case (Cons x xs)
    obtain new db1 where "execution_step E h x db = (new, db1)" by fastforce
    then show ?case using Cons execution_step_frame by (simp add: execution_loop_step del: execution_loop.simps)
  qed simp
  then show ?thesis by (simp add: execution_batch_def)
qed

lemma executions_post:
  assumes "knows_token K t" and "seedable E (srv_db s)" and "i \<in> host_ids (srv_db s)"
    and "\<And>n. sv_new_uuid E n \<notin> e_id ` set (t_executions (srv_db s))"
  shows "\<exists>r s' saved. seed_post_with_host (site E K B base addr) (base @ ''/api/v1/executions/batch'') t i
        (json_map [(''executions'', JArr (seed_executions now))]) s = (r, s')
    \<and> t_hosts (srv_db s') = t_hosts (srv_db s) \<and> t_jobs (srv_db s') = t_jobs (srv_db s) \<and> t_metrics (srv_db s') = t_metrics (srv_db s)
    \<and> t_executions (srv_db s') = t_executions (srv_db s) @ saved \<and> list_all2 (stored_run i (srv_db s)) (sample_runs now) saved"
proof -
  let ?p = "''/api/v1/executions/batch''" and ?b = "json_map [(''executions'', JArr (seed_executions now))]"
  let ?q = "seed_call addr ?p t i ?b"
  have route: "match_route ''POST'' ?p = Some Batch_Executions_Route" "\<not> public_route Batch_Executions_Route"
    by (simp_all add: match_route_def fixed_routes_def public_route_def)
  obtain a where p: "seed_post_with_host (site E K B base addr) (base @ ?p) t i ?b s =
      (case handle_batch_executions E ?q \<lparr>srv_auth = a, srv_db = bump (srv_db s)\<rparr> of
         ((status, r), s) \<Rightarrow> (answer_map (Some (status, reply_body B r)), s))"
    using seed_post_handled(2) [of t K ?p Batch_Executions_Route E B base addr i ?b s] assms(1) route by (auto simp: knows_token_def)
  have good: "good_id E i" using assms(2,3) by (auto simp: seedable_def)
  have takes: "takes_events E i (bump (srv_db s))" using assms(2-4) good by (auto simp: takes_events_def seedable_def good_id_def)
  obtain es where es: "as_body [] decode_execution_batch (aq_body ?q) = Some es" "executions_to_domain es = Some (sample_runs now)"
    using sample_runs_read [of now] by (auto simp: seed_call_def)
  obtain saved db' where x: "execution_batch E i (sample_runs now) (bump (srv_db s)) = (saved, db')"
    "list_all2 (stored_run i (bump (srv_db s))) (sample_runs now) saved"
    "t_executions db' = t_executions (srv_db s) @ saved" "t_jobs db' = t_jobs (srv_db s)"
    using batch_taken [OF takes sample_runs_ok [of now]] by auto
  have "stored_run i (bump (srv_db s)) = stored_run i (srv_db s)" using stored_run_cong [of "bump (srv_db s)" "srv_db s" i] by (simp add: fun_eq_iff)
  moreover have "handle_batch_executions E ?q \<lparr>srv_auth = a, srv_db = bump (srv_db s)\<rparr>
      = ((200, Accepted_Reply (int (length saved))), \<lparr>srv_auth = a, srv_db = db'\<rparr>)"
    using es x(1) good by (simp add: handle_batch_executions_def with_host_def on_db_def write_json_def seed_call_def good_id_def)
  moreover have "t_hosts db' = t_hosts (srv_db s) \<and> t_metrics db' = t_metrics (srv_db s)"
    using execution_batch_frame [of E i "sample_runs now" "bump (srv_db s)"] x(1) by simp
  ultimately show ?thesis using p x(2-4) by auto
qed

lemma metrics_post:
  assumes "knows_token K t" and "\<And>n. sv_up E n" and "inj (sv_new_uuid E)" and good: "good_id E i" and "i \<in> host_ids (srv_db s)"
    and "\<And>n. sv_new_uuid E n \<notin> m_id ` set (t_metrics (srv_db s))"
  shows "\<exists>r s' saved. seed_post_with_host (site E K B base addr) (base @ ''/api/v1/metrics/batch'') t i
        (json_map [(''metrics'', JArr (seed_metrics now))]) s = (r, s')
    \<and> t_hosts (srv_db s') = t_hosts (srv_db s) \<and> t_jobs (srv_db s') = t_jobs (srv_db s)
    \<and> t_executions (srv_db s') = t_executions (srv_db s)
    \<and> t_metrics (srv_db s') = t_metrics (srv_db s) @ saved \<and> list_all2 (stored_metric i) (sample_measures now) saved"
proof -
  let ?p = "''/api/v1/metrics/batch''" and ?b = "json_map [(''metrics'', JArr (seed_metrics now))]"
  let ?q = "seed_call addr ?p t i ?b"
  have route: "match_route ''POST'' ?p = Some Batch_Metrics_Route" "\<not> public_route Batch_Metrics_Route"
    by (simp_all add: match_route_def fixed_routes_def public_route_def)
  obtain a where p: "seed_post_with_host (site E K B base addr) (base @ ?p) t i ?b s =
      (case handle_batch_metrics E ?q \<lparr>srv_auth = a, srv_db = bump (srv_db s)\<rparr> of
         ((status, r), s) \<Rightarrow> (answer_map (Some (status, reply_body B r)), s))"
    using seed_post_handled(2) [of t K ?p Batch_Metrics_Route E B base addr i ?b s] assms(1) route by (auto simp: knows_token_def)
  have takes: "takes_metrics E i (bump (srv_db s))" using assms(2-6) by (auto simp: takes_metrics_def good_id_def)
  obtain ms where ms: "as_body [] decode_metric_batch (aq_body ?q) = Some ms" "map metric_to_domain ms = sample_measures now"
    using sample_measures_read [of now] by (auto simp: seed_call_def)
  obtain saved db' where m: "metric_batch E i (sample_measures now) (bump (srv_db s)) = (saved, db')"
    "list_all2 (stored_metric i) (sample_measures now) saved"
    "t_metrics db' = t_metrics (srv_db s) @ saved" "t_hosts db' = t_hosts (srv_db s)" "t_jobs db' = t_jobs (srv_db s)"
    "t_executions db' = t_executions (srv_db s)"
    using metrics_taken [OF takes sample_measures_ok [of now]] by auto
  have "handle_batch_metrics E ?q \<lparr>srv_auth = a, srv_db = bump (srv_db s)\<rparr>
      = ((200, Accepted_Reply (int (length saved))), \<lparr>srv_auth = a, srv_db = db'\<rparr>)"
    using ms m(1) good by (simp add: handle_batch_metrics_def with_host_def on_db_def write_json_def seed_call_def good_id_def)
  then show ?thesis using p m(2-6) by auto
qed

section \<open>The whole command\<close>

lemma site_health: "wait_for_server (site E K B base addr) base s = (True, s)"
  by (simp add: wait_for_server_def site_def health_def numeral_eq_Suc)

lemma stored_runs_sel:
  assumes "list_all2 (stored_run i db) (sample_runs now) xs"
  shows "map e_status xs = [''success'', ''unknown''] \<and> (\<forall>x \<in> set xs. e_host_id x = i \<and> e_job_id x = None)"
proof -
  obtain r1 r2 where r: "sample_runs now = [r1, r2]" "e_status r1 = ''success''" "e_status r2 = ''unknown''"
    by (simp add: sample_runs_def)
  then have "linked_job i db r1 = None" "linked_job i db r2 = None" using sample_runs_unlinked [of _ now i db] by auto
  then show ?thesis using assms r by (auto simp: list_all2_Cons1 dest!: stored_run_sel)
qed

lemma stored_metric_sel: "stored_metric i m s \<Longrightarrow> m_host_id s = i \<and> m_value s = m_value m"
  unfolding stored_metric_def by (erule ssubst) simp

lemma stored_metrics_sel:
  assumes "list_all2 (stored_metric i) (sample_measures now) ms"
  shows "map m_value ms = [4821, 0] \<and> (\<forall>m \<in> set ms. m_host_id m = i)"
  using assms by (auto simp: sample_measures_def sample_measure_def list_all2_Cons1 dest!: stored_metric_sel)

text \<open>The three posts of samples, for a first and a second host.\<close>

lemma samples_posted:
  assumes "knows_token K t" and "seedable E (srv_db s)" and "i \<in> host_ids (srv_db s)" and "k \<in> host_ids (srv_db s)"
    and new: "\<And>n. sv_new_uuid E n \<notin> job_ids (srv_db s) \<union> e_id ` set (t_executions (srv_db s)) \<union> m_id ` set (t_metrics (srv_db s))"
  shows "\<exists>r3 s3 r4 s4 r5 s5 xs ms.
      seed_post_with_host (site E K B base addr) (base @ ''/api/v1/jobs/discovery'') t i (json_map [(''jobs'', JArr seed_jobs)]) s = (r3, s3)
    \<and> seed_post_with_host (site E K B base addr) (base @ ''/api/v1/executions/batch'') t i
        (json_map [(''executions'', JArr (seed_executions now))]) s3 = (r4, s4)
    \<and> seed_post_with_host (site E K B base addr) (base @ ''/api/v1/metrics/batch'') t k
        (json_map [(''metrics'', JArr (seed_metrics now))]) s4 = (r5, s5)
    \<and> t_hosts (srv_db s5) = t_hosts (srv_db s) \<and> job_map (srv_db s5) = learn i (map reported_job sample_jobs) (job_map (srv_db s))
    \<and> t_executions (srv_db s5) = t_executions (srv_db s) @ xs \<and> list_all2 (stored_run i (srv_db s3)) (sample_runs now) xs
    \<and> t_metrics (srv_db s5) = t_metrics (srv_db s) @ ms \<and> list_all2 (stored_metric k) (sample_measures now) ms"
proof -
  let ?T = "site E K B base addr"
  have "sv_new_uuid E n \<notin> job_ids (srv_db s)" for n using new by blast
  from jobs_post [OF assms(1-3) this, of B base addr] obtain r3 s3 where
    j: "seed_post_with_host ?T (base @ ''/api/v1/jobs/discovery'') t i (json_map [(''jobs'', JArr seed_jobs)]) s = (r3, s3)"
    "seedable E (srv_db s3)" "t_hosts (srv_db s3) = t_hosts (srv_db s)" "t_executions (srv_db s3) = t_executions (srv_db s)"
    "t_metrics (srv_db s3) = t_metrics (srv_db s)"
    "job_map (srv_db s3) = learn i (map reported_job sample_jobs) (job_map (srv_db s))" by blast
  have "sv_new_uuid E n \<notin> e_id ` set (t_executions (srv_db s3))" for n using new j(4) by auto
  moreover have "i \<in> host_ids (srv_db s3)" using assms(3) j(3) by (simp add: host_ids_def)
  ultimately obtain r4 s4 xs where
    x: "seed_post_with_host ?T (base @ ''/api/v1/executions/batch'') t i (json_map [(''executions'', JArr (seed_executions now))]) s3 = (r4, s4)"
    "t_hosts (srv_db s4) = t_hosts (srv_db s3)" "t_jobs (srv_db s4) = t_jobs (srv_db s3)" "t_metrics (srv_db s4) = t_metrics (srv_db s3)"
    "t_executions (srv_db s4) = t_executions (srv_db s3) @ xs" "list_all2 (stored_run i (srv_db s3)) (sample_runs now) xs"
    using executions_post [OF assms(1) j(2), of i B base addr now] by blast
  have "k \<in> host_ids (srv_db s4)" using assms(4) j(3) x(2) by (simp add: host_ids_def)
  moreover have "good_id E k" using assms(2,4) by (simp add: seedable_def)
  moreover have "sv_new_uuid E n \<notin> m_id ` set (t_metrics (srv_db s4))" for n using new j(5) x(4) by auto
  ultimately obtain r5 s5 ms where
    "seed_post_with_host ?T (base @ ''/api/v1/metrics/batch'') t k (json_map [(''metrics'', JArr (seed_metrics now))]) s4 = (r5, s5)"
    "t_hosts (srv_db s5) = t_hosts (srv_db s4)" "t_jobs (srv_db s5) = t_jobs (srv_db s4)" "t_executions (srv_db s5) = t_executions (srv_db s4)"
    "t_metrics (srv_db s5) = t_metrics (srv_db s4) @ ms" "list_all2 (stored_metric k) (sample_measures now) ms"
    using metrics_post [OF assms(1), of E k s4 B base addr now] assms(2) by (auto simp: seedable_def)
  moreover from this(3) have "job_map (srv_db s5) = job_map (srv_db s3)" using x(3) by (simp add: job_map_def job_of_def fun_eq_iff)
  ultimately show ?thesis using j x
    by (intro exI [of _ r3] exI [of _ s3] exI [of _ r4] exI [of _ s4] exI [of _ r5] exI [of _ s5] exI [of _ xs] exI [of _ ms]) simp
qed

text \<open>C38. The seed command on a server that is up and has its token: it reaches its end, the three hosts are registered and
  active, the jobs of the first one are described as sent whatever was known before, two executions and, for the
  second host, two metrics are added. The empty heartbeats erase the addresses the hosts registered with, and the
  executions, which carry no command hash, stay without a job.\<close>

theorem seed_populates:
  assumes "getenv env ''SERVER_URL'' ''http://localhost:8000'' = base" and "getenv env ''SERVER_TOKEN'' ''dev-token'' = t"
    and "knows_token K t" and "seedable E (srv_db s)"
    and "\<And>n. sv_new_uuid E n \<notin> job_ids (srv_db s) \<union> e_id ` set (t_executions (srv_db s)) \<union> m_id ` set (t_metrics (srv_db s))"
  shows "\<exists>s' h1 h2 h3 xs ms. seed (site E K B base addr) env now s = (True, s')
    \<and> host_of ''seed-host-001'' (srv_db s') = Some h1 \<and> host_of ''seed-host-002'' (srv_db s') = Some h2
    \<and> host_of ''seed-host-003'' (srv_db s') = Some h3 \<and> beaten h1 \<and> beaten h2 \<and> beaten h3
    \<and> job_map (srv_db s') = learn (h_id h1) (map reported_job sample_jobs) (job_map (srv_db s))
    \<and> t_executions (srv_db s') = t_executions (srv_db s) @ xs \<and> map e_status xs = [''success'', ''unknown'']
    \<and> (\<forall>x \<in> set xs. e_host_id x = h_id h1 \<and> e_job_id x = None)
    \<and> t_metrics (srv_db s') = t_metrics (srv_db s) @ ms \<and> map m_value ms = [4821, 0] \<and> (\<forall>m \<in> set ms. m_host_id m = h_id h2)"
proof -
  let ?T = "site E K B base addr"
  obtain g1 g2 g3 s1 where r: "register_hosts ?T base t seed_hosts [] s = ([h_id g1, h_id g2, h_id g3], s1)"
    "host_of ''seed-host-001'' (srv_db s1) = Some g1" "host_of ''seed-host-002'' (srv_db s1) = Some g2"
    "host_of ''seed-host-003'' (srv_db s1) = Some g3" "seedable E (srv_db s1)" "rows_kept (srv_db s) (srv_db s1)"
    using seed_hosts_registered [OF assms(3,4), of B base addr] by blast
  obtain s2 where b: "send_heartbeats ?T base t [h_id g1, h_id g2, h_id g3] s1 = s2" "seedable E (srv_db s2)"
    "rows_kept (srv_db s1) (srv_db s2)" "hosts_beat (set [h_id g1, h_id g2, h_id g3]) (srv_db s1) (srv_db s2)"
    using heartbeats_sent [OF assms(3) r(5), of "[h_id g1, h_id g2, h_id g3]" B base addr] r(2-4) by (auto intro: host_of_ids)
  note beat = hosts_beat_host [OF b(4)]
  obtain h1 where 1: "host_of ''seed-host-001'' (srv_db s2) = Some h1" "h_id h1 = h_id g1" "beaten h1" using beat [OF r(2)] by auto
  obtain h2 where 2: "host_of ''seed-host-002'' (srv_db s2) = Some h2" "h_id h2 = h_id g2" "beaten h2" using beat [OF r(3)] by auto
  obtain h3 where 3: "host_of ''seed-host-003'' (srv_db s2) = Some h3" "h_id h3 = h_id g3" "beaten h3" using beat [OF r(4)] by auto
  have k: "rows_kept (srv_db s) (srv_db s2)" by (rule rows_kept_trans [OF r(6) b(3)])
  then have "job_map (srv_db s2) = job_map (srv_db s)" by (simp add: job_map_def job_of_def rows_kept_def fun_eq_iff)
  moreover have "sv_new_uuid E n \<notin> job_ids (srv_db s2) \<union> e_id ` set (t_executions (srv_db s2)) \<union> m_id ` set (t_metrics (srv_db s2))" for n
    using assms(5) k by (simp add: rows_kept_def job_ids_def)
  from samples_posted [OF assms(3) b(2) host_of_ids [OF 1(1)] host_of_ids [OF 2(1)] this, of B base addr now]
  obtain r3 s3 r4 s4 r5 s5 xs ms where
    p: "seed_post_with_host ?T (base @ ''/api/v1/jobs/discovery'') t (h_id h1) (json_map [(''jobs'', JArr seed_jobs)]) s2 = (r3, s3)"
    "seed_post_with_host ?T (base @ ''/api/v1/executions/batch'') t (h_id h1) (json_map [(''executions'', JArr (seed_executions now))]) s3 = (r4, s4)"
    "seed_post_with_host ?T (base @ ''/api/v1/metrics/batch'') t (h_id h2) (json_map [(''metrics'', JArr (seed_metrics now))]) s4 = (r5, s5)"
    and t: "t_hosts (srv_db s5) = t_hosts (srv_db s2)" "job_map (srv_db s5) = learn (h_id h1) (map reported_job sample_jobs) (job_map (srv_db s2))"
    "t_executions (srv_db s5) = t_executions (srv_db s2) @ xs" "t_metrics (srv_db s5) = t_metrics (srv_db s2) @ ms"
    and x: "list_all2 (stored_run (h_id h1) (srv_db s3)) (sample_runs now) xs" "list_all2 (stored_metric (h_id h2)) (sample_measures now) ms"
    by auto
  have "seed ?T env now s = (True, s5)"
    using r(1) b(1) p by (simp add: seed_def Let_def assms(1,2) site_health 1(2) 2(2))
  moreover have "host_of q (srv_db s5) = host_of q (srv_db s2)" for q using t(1) by (simp add: host_of_def)
  moreover note k t(2-) 1 2 3 stored_runs_sel [OF x(1)] stored_metrics_sel [OF x(2)]
  ultimately show ?thesis
    by (intro exI [of _ s5] exI [of _ h1] exI [of _ h2] exI [of _ h3] exI [of _ xs] exI [of _ ms]) (simp add: rows_kept_def)
qed

definition dev_config :: api_config where
  "dev_config = sample_server_config\<lparr>sc_auth := (sc_auth sample_server_config)\<lparr>ac_legacy_agent_token := ''dev-token''\<rparr>\<rparr>"

theorem seed_populates_witness:
  "\<exists>s' h1 xs ms. seed (site calm_server dev_config (\<lambda>r. None) ''http://localhost:8000'' []) (\<lambda>k. []) 0 fresh_server = (True, s')
     \<and> host_of ''seed-host-001'' (srv_db s') = Some h1 \<and> h_ip_address h1 = [] \<and> t_executions (srv_db s') = xs
     \<and> map e_job_id xs = [None, None] \<and> t_metrics (srv_db s') = ms \<and> map m_value ms = [4821, 0]"
proof -
  have "knows_token dev_config ''dev-token''"
    by (simp add: knows_token_def word_ok_def is_space_def dev_config_def)
  moreover have "inj (sv_new_uuid calm_server)" by (rule new_uuid_calm)
  then have "seedable calm_server (srv_db fresh_server)"
    by (simp add: seedable_def good_id_def calm_server_def fresh_server_def host_ids_def job_ids_def empty_pg_def)
  ultimately obtain s' h1 xs ms where
    "seed (site calm_server dev_config (\<lambda>r. None) ''http://localhost:8000'' []) (\<lambda>k. []) 0 fresh_server = (True, s')"
    "host_of ''seed-host-001'' (srv_db s') = Some h1" "beaten h1"
    "t_executions (srv_db s') = t_executions (srv_db fresh_server) @ xs" "map e_status xs = [''success'', ''unknown'']"
    "\<forall>x \<in> set xs. e_host_id x = h_id h1 \<and> e_job_id x = None"
    "t_metrics (srv_db s') = t_metrics (srv_db fresh_server) @ ms" "map m_value ms = [4821, 0]"
    using seed_populates [of "\<lambda>k. []" "''http://localhost:8000''" "''dev-token''" dev_config calm_server fresh_server "\<lambda>r. None" "[]" 0]
    by (auto simp: getenv_def fresh_server_def job_ids_def empty_pg_def)
  then show ?thesis
    by (intro exI [of _ s'] exI [of _ h1] exI [of _ xs] exI [of _ ms])
      (auto simp: beaten_def fresh_server_def empty_pg_def)
qed

section \<open>Waiting\<close>

definition probe :: "'w transport \<Rightarrow> string \<Rightarrow> 'w \<Rightarrow> (nat \<times> json option) option \<times> 'w" where
  "probe T url w = T \<lparr>rq_method = ''GET'', rq_url = url @ ''/health'', rq_headers = [], rq_body = None\<rparr> w"

definition probed :: "'w transport \<Rightarrow> string \<Rightarrow> nat \<Rightarrow> 'w \<Rightarrow> 'w" where
  "probed T url n w = ((\<lambda>w. snd (probe T url w)) ^^ n) w"

definition healthy :: "'w transport \<Rightarrow> string \<Rightarrow> 'w \<Rightarrow> bool" where
  "healthy T url w \<longleftrightarrow> (case fst (probe T url w) of Some (status, b) \<Rightarrow> status = 200 | None \<Rightarrow> False)"

lemma wait_attempts_Suc:
  "wait_attempts T url (Suc n) w =
     (if healthy T url w then (True, snd (probe T url w)) else wait_attempts T url n (snd (probe T url w)))"
  by (simp add: healthy_def probe_def split: prod.split option.split)

lemma wait_attempts_spec:
  "wait_attempts T url n w =
     (if \<exists>k < n. healthy T url (probed T url k w)
      then (True, probed T url (Suc (LEAST k. healthy T url (probed T url k w))) w)
      else (False, probed T url n w))"
proof (induction n arbitrary: w)
  case (Suc n)
  have step: "probed T url (Suc k) w = probed T url k (snd (probe T url w))" for k
    using funpow_swap1 [of "\<lambda>w. snd (probe T url w)" k w] by (simp add: probed_def)
  show ?case
  proof (cases "healthy T url w")
    case True
    then have "(LEAST k. healthy T url (probed T url k w)) = 0" by (intro Least_eq_0) (simp add: probed_def)
    then show ?thesis using True by (auto simp: wait_attempts_Suc probed_def intro: exI [of _ 0] simp del: wait_attempts.simps)
  next
    case False
    have n0: "\<not> healthy T url (probed T url 0 w)" using False by (simp add: probed_def)
    have ex: "(\<exists>k < Suc n. healthy T url (probed T url k w)) = (\<exists>k < n. healthy T url (probed T url k (snd (probe T url w))))"
      using n0 by (auto simp: step [symmetric] less_Suc_eq_0_disj)
    have "(LEAST k. healthy T url (probed T url k w)) = Suc (LEAST k. healthy T url (probed T url k (snd (probe T url w))))"
      if some: "\<exists>k < n. healthy T url (probed T url k (snd (probe T url w)))"
    proof -
      obtain k where "healthy T url (probed T url (Suc k) w)" using some step by auto
      from Least_Suc [OF this n0] show ?thesis by (simp add: step)
    qed
    then show ?thesis using False ex by (simp add: wait_attempts_Suc Suc.IH step del: wait_attempts.simps)
  qed
qed (simp add: probed_def)

text \<open>The command never waits for more than thirty attempts: it goes on right after the first one that is answered with
  status 200, and gives up after the thirtieth when none is.\<close>

theorem wait_bounded:
  "wait_for_server T url w =
     (if \<exists>k < 30. healthy T url (probed T url k w)
      then (True, probed T url (Suc (LEAST k. healthy T url (probed T url k w))) w)
      else (False, probed T url 30 w))"
  unfolding wait_for_server_def by (rule wait_attempts_spec)

end
