(* ===== verification/Flights.thy ===== *)
theory Flights
  imports Reporter
begin

text \<open>
  Every flush comes to its end, however many run at once and whatever the file and the server answer: the
  steps of the flushes of \<open>Reporter\<close> that are in flight decrease a measure, and a flush in flight always
  has a next step.
\<close>

section \<open>Steps of a flush in flight\<close>

text \<open>A step of \<open>flush_step\<close> that neither buffers an event nor starts a flush.\<close>

definition flight_step :: "client \<Rightarrow> flush_world \<Rightarrow> flush_world \<Rightarrow> bool" where
  "flight_step c w w' \<longleftrightarrow> flush_step c w w' \<and> fw_flights w' \<noteq> fw_flights w \<and> length (fw_flights w') \<le> length (fw_flights w)"

text \<open>The answer, one transaction for each event, and the end.\<close>

fun flight_work :: "flight \<Rightarrow> nat" where
  "flight_work (Uploading ps) = length ps + 2"
| "flight_work (Deleting ps) = length ps + 1"

definition work_left :: "flush_world \<Rightarrow> nat" where
  "work_left w = sum_list (map flight_work (fw_flights w))"

lemma flight_step_decreases: "flight_step c w w' \<Longrightarrow> work_left w' < work_left w"
  unfolding flight_step_def by (elim conjE flush_stepE) (auto simp: work_left_def)

text \<open>Buffering in between adds no work; only the start of another flush does.\<close>

lemma other_steps_no_work:
  "flush_step c w w' \<Longrightarrow> length (fw_flights w') \<le> length (fw_flights w) \<Longrightarrow> work_left w' \<le> work_left w"
  by (elim flush_stepE) (auto simp: work_left_def)

lemma flight_step_possible:
  assumes "fw_flights w \<noteq> []"
  shows "\<exists>w'. flight_step c w w'"
proof -
  obtain f gs where f: "fw_flights w = [] @ f # gs" using assms by (cases "fw_flights w") auto
  let ?E = "steady_env Transport_Error"
  show ?thesis
  proof (cases f)
    case (Uploading ps)
    have "batch_executions ?E c (json_map [(''executions'', JArr (map pe_payload ps))]) (fw_store w) = (Some Transport, tick (fw_store w))"
      by (simp add: client_calls post_def post_raw_def http_def)
    from step_failed [OF _ this, of "[]" gs "[]"] show ?thesis using f Uploading by (auto simp: flight_step_def)
  next
    case (Deleting ps)
    show ?thesis
    proof (cases ps)
      case Nil
      then show ?thesis using step_done [of w "[]" gs c] f Deleting by (auto simp: flight_step_def)
    next
      case (Cons p qs)
      obtain ok s' where "delete_execution ?E (pe_id p) (fw_store w) = (ok, s')" by fastforce
      then have "flush_step c w (w\<lparr>fw_store := s', fw_flights := [] @ Deleting qs # gs\<rparr>)"
        using f Deleting Cons by (intro step_delete) auto
      then show ?thesis using f Deleting Cons by (auto simp: flight_step_def)
    qed
  qed
qed

lemma flight_steps_work: "(flight_step c ^^ n) w w' \<Longrightarrow> n + work_left w' \<le> work_left w"
  by (induction n arbitrary: w') (fastforce dest: flight_step_decreases)+

lemma flights_can_end: "\<exists>w'. (flight_step c)\<^sup>*\<^sup>* w w' \<and> fw_flights w' = []"
proof (induction "work_left w" arbitrary: w rule: less_induct)
  case less
  show ?case
  proof (cases "fw_flights w = []")
    case False
    then obtain w1 where "flight_step c w w1" using flight_step_possible by blast
    moreover from this less flight_step_decreases obtain w' where "(flight_step c)\<^sup>*\<^sup>* w1 w'" "fw_flights w' = []" by blast
    ultimately show ?thesis by (meson converse_rtranclp_into_rtranclp)
  qed auto
qed



end
