(* ===== verification/Monitoring.thy ===== *)
theory Monitoring
  imports Uploads
begin

text \<open>
  What the program is for: a run of a cron job on a host becomes rows of the server. One scan of the process
  table of an enrolled agent and the flush after it are followed to the table of executions, with the jobs that
  the rows are linked to.
\<close>

section \<open>What an event says\<close>

definition event_status :: "json \<Rightarrow> string" where
  "event_status ev = (case json_field ev ''status'' of Some (JStr s) \<Rightarrow> s | _ \<Rightarrow> [])"

definition event_hash :: "json \<Rightarrow> string" where
  "event_hash ev = (case json_field ev ''command_hash'' of Some (JStr s) \<Rightarrow> s | _ \<Rightarrow> [])"

lemma event_sel [simp]:
  "event_status (running_event m) = ''running''" "event_hash (running_event m) = mp_job_hash m"
  "event_job (running_event m) = None"
  "event_status (completion_event x t) = ''partial''" "event_hash (completion_event x t) = ae_job_hash x"
  "event_job (completion_event x t) = None"
  by (simp_all add: event_status_def event_hash_def event_job_def running_event_def completion_event_def)

lemma sent_event_says: "sent_event ev h st \<Longrightarrow> event_status ev = st \<and> event_hash ev = h"
  by (elim sent_event.cases) (auto simp: event_status_def event_hash_def running_event_def completion_event_def
      command_event_def mail_event_def)

definition linked :: "string \<Rightarrow> pg \<Rightarrow> string \<Rightarrow> string option" where
  "linked hid db h = map_option j_id (job_of (hid, h) db)"

lemma landed_says:
  assumes "landed hid db ev x" and "event_job ev = None" and "event_hash ev \<noteq> []"
  shows "(e_host_id x, e_status x, e_job_id x) = (hid, event_status ev, linked hid db (event_hash ev))"
  using assms sent_event_says by (fastforce simp: landed_def linked_def)

lemma all_landed_say:
  "list_all2 (landed hid db) evs saved \<Longrightarrow> \<forall>ev \<in> set evs. event_job ev = None \<and> event_hash ev \<noteq> [] \<Longrightarrow>
   map (\<lambda>x. (e_host_id x, e_status x, e_job_id x)) saved = map (\<lambda>ev. (hid, event_status ev, linked hid db (event_hash ev))) evs"
  by (induction rule: list_all2_induct) (auto dest: landed_says)

section \<open>From the process table to the server\<close>

text \<open>The matches of a scan that are new, and the executions in progress whose process is gone.\<close>

definition begun :: "agent \<Rightarrow> matched_process list \<Rightarrow> matched_process list" where
  "begun a ms = filter (\<lambda>m. matched_pid m \<notin> active_pids a) ms"

definition over :: "agent \<Rightarrow> matched_process list \<Rightarrow> active_execution list" where
  "over a ms = map snd (filter (\<lambda>x. fst x \<notin> matched_pid ` set ms) (ag_active a))"

text \<open>The host, status and job that the rows of a scan have.\<close>

definition expected_rows :: "string \<Rightarrow> pg \<Rightarrow> agent \<Rightarrow> matched_process list \<Rightarrow> (string \<times> string \<times> string option) multiset" where
  "expected_rows hid db a ms =
     mset (map (\<lambda>m. (hid, ''running'', linked hid db (mp_job_hash m))) (begun a ms))
     + mset (map (\<lambda>x. (hid, ''partial'', linked hid db (ae_job_hash x))) (over a ms))"

lemma match_fair:
  assumes "known_ok A (ag_known a)" and "orders_ok A"
    and "match_jobs (ap_quote A) snaps (\<lambda>n. known_jobs_for_match (ap_jobs_order A n (ag_known a))) = Some ms" and "m \<in> set ms"
  shows "fair (mp_confidence m)"
proof -
  let ?order = "\<lambda>n. known_jobs_for_match (ap_jobs_order A n (ag_known a))"
  have "set (ap_jobs_order A n (ag_known a)) = set (ag_known a)" for n
    using assms(2) by (metis orders_ok_def set_mset_mset)
  then have "\<forall>n. commands_ok (?order n) \<and> set (?order n) = set (known_jobs_for_match (ag_known a))"
    using known_commands_ok [OF assms(1)] by (simp add: commands_ok_def known_jobs_for_match_def)
  from match_jobs_confidence [OF assms(3,4) this] show ?thesis by (auto simp: fair_def)
qed


section \<open>An instance\<close>

text \<open>An agent that watches one job, whose process 9 is gone and has a successor with number 7.\<close>

definition watch_env :: "agent_env \<Rightarrow> app_env" where
  "watch_env V = (sample_env [(7, ''/opt/b.sh'')])\<lparr>ap_sha := \<lambda>s. ''x'', ap_outside := V\<rparr>"

definition watch_link :: "server_env \<Rightarrow> api_config \<Rightarrow> string \<Rightarrow> server \<Rightarrow> agent_env" where
  "watch_link E K base s = \<lparr>ev_now = (\<lambda>n. 0), ev_uuid = (\<lambda>n. replicate n (CHR ''u'')), ev_tx = (\<lambda>n. True),
     ev_http = (\<lambda>n rq. Response (fst (fst (deliver E K base [] rq s))) None)\<rparr>"

definition watching :: "client \<Rightarrow> agent" where
  "watching c = (sample_agent [(9, sample_active\<lparr>ae_job_hash := ''78''\<rparr>)])
     \<lparr>ag_client := c, ag_known := [(''78'', sample_job\<lparr>dj_command_hash := ''78''\<rparr>)]\<rparr>"

lemma watching_sel [simp]:
  "ag_client (watching c) = c" "ag_active (watching c) = [(9, sample_active\<lparr>ae_job_hash := ''78''\<rparr>)]"
  "ag_store (watching c) = empty_store" "ag_known (watching c) = [(''78'', sample_job\<lparr>dj_command_hash := ''78''\<rparr>)]"
  "ap_outside (watch_env V) = V"
  by (simp_all add: watching_def sample_agent_def watch_env_def)

lemma watching_ok:
  "agent_ok (watch_env V) (watching c)" "orders_ok (watch_env V)" "outside_ok (watch_link E K base s)"
  "fresh_ids (watch_link E K base s) (watching c)"
proof -
  have "normalize_command ''/opt/b.sh'' = ''/opt/b.sh''" "command_hash (\<lambda>s. ''x'') ''/opt/b.sh'' = ''78''" by code_simp+
  then show "agent_ok (watch_env V) (watching c)"
    by (simp add: agent_ok_def known_ok_def active_ok_def kv_all_def kv_inv_def sample_active_def
        sample_job_def watch_env_def job_ok_def)
  show "orders_ok (watch_env V)" using sample_ok(2) by (simp add: orders_ok_def watch_env_def)
  show "outside_ok (watch_link E K base s)" by (simp add: outside_ok_def watch_link_def inj_def replicate_eq_replicate)
  show "fresh_ids (watch_link E K base s) (watching c)" by (simp add: fresh_ids_def empty_store_def kv_get_def)
qed


end
