(* ===== verification/Install.thy ===== *)
theory Install
  imports AgentDaemon Network "HOL-Library.Countable"
begin

text \<open>
  Installing the agent: what \<open>init\<close> writes (\<open>AgentCli\<close>) is what \<open>run\<close> reads (\<open>AgentConfig\<close>, \<open>AgentApp\<close>). The
  documents that \<open>init\<close> writes are values of type \<open>json\<close>, and the decoder fills the structs of \<open>config.go\<close> from
  their fields by the names in the struct tags; the text between them is a parameter, of which only the
  round trip is used.
\<close>

section \<open>Decoding a document\<close>

definition decode_server_config :: "json \<Rightarrow> server_config option" where
  "decode_server_config j =
     (case (dec_field [] as_str j ''url'', dec_field [] as_str j ''token'', dec_field [] as_str j ''token_file'') of
        (Some u, Some t, Some f) \<Rightarrow> Some \<lparr>sc_url = u, sc_token = t, sc_token_file = f\<rparr>
      | _ \<Rightarrow> None)"

definition decode_agent_config :: "json \<Rightarrow> agent_config option" where
  "decode_agent_config j =
     (let str = dec_field [] as_str j; strs = dec_field [] (as_list as_str_elem) j in
      case (str ''machine_id'', str ''hostname'', str ''environment'', strs ''tags'', str ''version'', str ''state_file'',
            str ''heartbeat_interval'', str ''discovery_interval'', str ''process_scan_interval'',
            str ''report_interval'', str ''command_poll_interval'', str ''mail_scan_interval'', strs ''mail_spool_paths'') of
        (Some mi, Some hn, Some en, Some tg, Some ve, Some sf, Some hb, Some di, Some ps, Some re, Some cp, Some ms, Some mp) \<Rightarrow>
          Some \<lparr>ac_machine_id = mi, ac_hostname = hn, ac_environment = en, ac_tags = tg, ac_version = ve,
            ac_state_file = sf, ac_heartbeat_interval = hb, ac_discovery_interval = di, ac_process_scan_interval = ps,
            ac_report_interval = re, ac_command_poll_interval = cp, ac_mail_scan_interval = ms, ac_mail_spool_paths = mp\<rparr>
      | _ \<Rightarrow> None)"

definition decode_sql_probe :: "json \<Rightarrow> sql_probe option" where
  "decode_sql_probe j =
     (case (dec_field [] as_str j ''dsn'', dec_field [] as_str j ''query'') of
        (Some d, Some q) \<Rightarrow> Some \<lparr>sq_dsn = d, sq_query = q\<rparr>
      | _ \<Rightarrow> None)"

definition decode_file_probe :: "json \<Rightarrow> file_probe option" where
  "decode_file_probe j =
     (case (dec_field [] as_str j ''path'', dec_field 0 as_int j ''max_age_seconds'') of
        (Some p, Some a) \<Rightarrow> Some \<lparr>fp_path = p, fp_max_age_seconds = a\<rparr>
      | _ \<Rightarrow> None)"

definition decode_command_probe :: "json \<Rightarrow> command_probe option" where
  "decode_command_probe j =
     (case (dec_field [] as_str j ''command'', dec_field [] (as_list as_str_elem) j ''args'') of
        (Some c, Some a) \<Rightarrow> Some \<lparr>cp_command = c, cp_args = a\<rparr>
      | _ \<Rightarrow> None)"

definition decode_probe_config :: "json \<Rightarrow> probe_config option" where
  "decode_probe_config j =
     (case (dec_field [] as_str j ''name'', dec_field [] as_str j ''type'', dec_field [] as_str j ''schedule'',
            dec_ptr (as_object decode_sql_probe) j ''sql'', dec_ptr (as_object decode_file_probe) j ''file'',
            dec_ptr (as_object decode_command_probe) j ''command'') of
        (Some n, Some t, Some s, Some q, Some f, Some c) \<Rightarrow>
          Some \<lparr>pc_name = n, pc_type = t, pc_schedule = s, pc_sql = q, pc_file = f, pc_command = c\<rparr>
      | _ \<Rightarrow> None)"

definition empty_server_config :: server_config where
  "empty_server_config = \<lparr>sc_url = [], sc_token = [], sc_token_file = []\<rparr>"

definition empty_agent_config :: agent_config where
  "empty_agent_config =
     \<lparr>ac_machine_id = [], ac_hostname = [], ac_environment = [], ac_tags = [], ac_version = [], ac_state_file = [],
      ac_heartbeat_interval = [], ac_discovery_interval = [], ac_process_scan_interval = [], ac_report_interval = [],
      ac_command_poll_interval = [], ac_mail_scan_interval = [], ac_mail_spool_paths = []\<rparr>"

definition decode_config :: "json \<Rightarrow> config option" where
  "decode_config j =
     (case (dec_field empty_server_config (as_object decode_server_config) j ''server'',
            dec_field empty_agent_config (as_object decode_agent_config) j ''agent'',
            dec_field [] (as_list (as_object decode_probe_config)) j ''probes'') of
        (Some s, Some a, Some p) \<Rightarrow> Some \<lparr>cfg_server = s, cfg_agent = a, cfg_probes = p\<rparr>
      | _ \<Rightarrow> None)"

definition credential_document :: "string \<Rightarrow> json" where
  "credential_document token = json_map [(''token'', JStr token)]"

definition decode_credential :: "json \<Rightarrow> string option" where
  "decode_credential j = dec_field [] as_str j ''token''"

section \<open>What is on disk afterwards\<close>

text \<open>\<open>enc\<close> is the text of a document, \<open>part\<close> what there is of one that could not be written.\<close>

fun file_effect :: "(json \<Rightarrow> string) \<Rightarrow> (string \<Rightarrow> string) \<Rightarrow> init_effect \<Rightarrow> (string \<Rightarrow> open_result) \<Rightarrow> string \<Rightarrow> open_result" where
  "file_effect enc part (Wrote_Credential p t) fs = fs(p := Opened (enc (credential_document t)))"
| "file_effect enc part (Wrote_Config p j) fs = fs(p := Opened (enc j))"
| "file_effect enc part (Truncated p) fs = fs(p := Opened (part p))"
| "file_effect enc part (Made_Dir d) fs = fs"
| "file_effect enc part (Saved_Host_Id p h) fs = fs"

definition files_after ::
  "(json \<Rightarrow> string) \<Rightarrow> (string \<Rightarrow> string) \<Rightarrow> init_effect list \<Rightarrow> (string \<Rightarrow> open_result) \<Rightarrow> string \<Rightarrow> open_result" where
  "files_after enc part effs = fold (file_effect enc part) effs"

fun state_effect :: "string \<Rightarrow> init_effect \<Rightarrow> store \<Rightarrow> store" where
  "state_effect path (Saved_Host_Id p h) s = (if p = path then s\<lparr>st_meta := kv_put ''host_id'' h (st_meta s)\<rparr> else s)"
| "state_effect path _ s = s"

definition state_after :: "string \<Rightarrow> init_effect list \<Rightarrow> store \<Rightarrow> store" where
  "state_after path effs = fold (state_effect path) effs"

text \<open>A transaction of \<open>Store\<close> that goes through does this to the state file.\<close>

lemma state_effect_set_meta:
  "ev_tx E (st_tick s) \<Longrightarrow> snd (set_meta E ''host_id'' h s) = tick (state_effect path (Saved_Host_Id path h) s)"
  by (simp add: set_meta_def tx_defs)

text \<open>Documents of strings, lists and maps, which is all that \<open>init\<close> writes.\<close>

primrec text_doc :: "json \<Rightarrow> bool" where
  "text_doc JNull = False"
| "text_doc (JBool b) = False"
| "text_doc (JNum x) = False"
| "text_doc (JStr s) = True"
| "text_doc (JTime t) = False"
| "text_doc (JArr js) = list_all id (map text_doc js)"
| "text_doc (JObj kvs) = list_all snd (map (map_prod id text_doc) kvs)"

text \<open>What the YAML library documents: decoding the text of such a document gives its value back.\<close>

definition reads_back :: "(json \<Rightarrow> string) \<Rightarrow> yaml_env \<Rightarrow> bool" where
  "reads_back enc Y \<longleftrightarrow>
     (\<forall>j. text_doc j \<longrightarrow> ye_config Y (enc j) = decode_config j \<and> ye_token Y (enc j) = decode_credential j)"

lemma text_doc_map:
  assumes "list_all (text_doc \<circ> snd) kvs"
  shows "text_doc (json_map kvs)"
proof -
  have "kv_all (\<lambda>_. text_doc) (fold (\<lambda>(k, v). kv_put k v) kvs m)" if "list_all (text_doc \<circ> snd) kvs" "kv_all (\<lambda>_. text_doc) m" for m
    using that by (induction kvs arbitrary: m) auto
  from this [of "[]"] assms have "kv_all (\<lambda>_. text_doc) (fold (\<lambda>(k, v). kv_put k v) kvs [])" by simp
  then show ?thesis by (simp add: json_map_def kv_all_def list.pred_set split_beta)
qed

lemma text_strings: "text_doc (JArr (map JStr xs))"
  by (induction xs) auto

lemma text_documents: "text_doc (credential_document t)" "text_doc (build_config u f m h s r)"
proof -
  have entry: "list_all (text_doc \<circ> snd) ((k, v) # kvs)" if "text_doc v" "list_all (text_doc \<circ> snd) kvs" for k v kvs
    using that by simp
  have str: "text_doc (JStr s)" for s by simp
  have nil: "list_all (text_doc \<circ> snd) []" "text_doc (JArr [])" by simp_all
  show "text_doc (credential_document t)" unfolding credential_document_def by (intro text_doc_map entry str nil)
  show "text_doc (build_config u f m h s r)" unfolding build_config_def Let_def
    by (intro text_doc_map entry str nil text_strings)
qed

section \<open>From init to run\<close>

text \<open>The structs that \<open>build_config\<close> is decoded into.\<close>

definition enrolled_config :: "string \<Rightarrow> string \<Rightarrow> string \<Rightarrow> string \<Rightarrow> string \<Rightarrow> enroll_response \<Rightarrow> config" where
  "enrolled_config url token_file machine_id hostname state_file r =
     (let c = ep_config r in
      \<lparr>cfg_server = \<lparr>sc_url = url, sc_token = [], sc_token_file = token_file\<rparr>,
       cfg_agent = \<lparr>ac_machine_id = machine_id, ac_hostname = hostname, ac_environment = bc_environment c,
         ac_tags = bc_tags c, ac_version = ''0.1.0'', ac_state_file = state_file,
         ac_heartbeat_interval = default_value (bc_heartbeat_interval c) ''30s'',
         ac_discovery_interval = default_value (bc_discovery_interval c) ''5m'',
         ac_process_scan_interval = default_value (bc_process_scan_interval c) ''30s'',
         ac_report_interval = default_value (bc_report_interval c) ''1m'',
         ac_command_poll_interval = default_value (bc_command_poll_interval c) ''15s'',
         ac_mail_scan_interval = [], ac_mail_spool_paths = []\<rparr>,
       cfg_probes = []\<rparr>)"

lemma dec_field_absent: "json_field j k = None \<Longrightarrow> dec_field zero dec j k = Some zero"
  by (simp add: dec_field_def)

lemma decode_built: "decode_config (build_config u f m h s r) = Some (enrolled_config u f m h s r)"
proof -
  have "traverse as_str_elem (map JStr xs) = Some xs" for xs by (induction xs) auto
  then show ?thesis
    by (simp add: decode_config_def build_config_def enrolled_config_def Let_def as_object_def decode_server_config_def
        decode_agent_config_def dec_field_there dec_field_absent agent_version_def)
qed

definition init_request :: "init_env \<Rightarrow> string \<Rightarrow> enroll_request" where
  "init_request V token = \<lparr>eq_enrollment_token = token, eq_machine_id = ie_machine_id V, eq_hostname = ie_hostname V,
     eq_ip_address = [], eq_agent_version = agent_version\<rparr>"

text \<open>An enrollment without an error asked the server, and wrote the credential, then the configuration, then the
  identifier of the host.\<close>

lemma init_succeeds:
  assumes "interactive_init V C u t config_out state_file token_file = (effs, None)"
    and "co = default_value config_out default_config_path" and "tf = default_value token_file (default_token_file co)"
    and "sf = default_value state_file default_state_file"
  obtains url token resp where "ask_missing C u t = Inr (url, token)" and "url \<noteq> []"
    and "ie_enroll V url (init_request V token) = Inr resp"
    and "filter (\<lambda>e. \<forall>d. e \<noteq> Made_Dir d) effs = [Wrote_Credential tf (ep_token resp),
      Wrote_Config co (build_config url tf (ie_machine_id V) (ie_hostname V) sf resp), Saved_Host_Id sf (ep_host_id resp)]"
proof -
  have eff: "co = (if config_out = [] then default_config_path else config_out)"
    "tf = (if token_file = [] then default_token_file co else token_file)"
    "sf = (if state_file = [] then default_state_file else state_file)"
    using assms(2-4) by (simp_all add: default_value_def)
  obtain url token where ask: "ask_missing C u t = Inr (url, token)"
    using assms(1) by (auto simp: interactive_init_def Let_def split: sum.splits)
  then have given: "url \<noteq> []"
    by (auto simp: ask_missing_def Let_def split: if_splits option.splits)
  obtain resp where resp: "ie_enroll V url (init_request V token) = Inr resp"
    using assms(1) ask by (auto simp: interactive_init_def Let_def init_request_def split: sum.splits)
  have "filter (\<lambda>e. \<forall>d. e \<noteq> Made_Dir d) effs = [Wrote_Credential tf (ep_token resp),
      Wrote_Config co (build_config url tf (ie_machine_id V) (ie_hostname V) sf resp), Saved_Host_Id sf (ep_host_id resp)]"
    using assms(1) resp unfolding interactive_init_def Let_def ask eff(1) [symmetric] eff(2) [symmetric] eff(3) [symmetric]
      init_request_def
    by (auto simp: write_credential_file_def write_config_file_def write_document_def made_dir_def split: if_splits)
  then show ?thesis using that [OF ask given resp] by simp
qed

text \<open>Only what is written counts.\<close>

lemma files_after_filter: "files_after enc part effs = files_after enc part (filter (\<lambda>e. \<forall>d. e \<noteq> Made_Dir d) effs)"
proof (rule ext)
  show "files_after enc part effs fs = files_after enc part (filter (\<lambda>e. \<forall>d. e \<noteq> Made_Dir d) effs) fs" for fs
    unfolding files_after_def by (induction effs arbitrary: fs) auto
qed

lemma state_after_filter: "state_after path effs = state_after path (filter (\<lambda>e. \<forall>d. e \<noteq> Made_Dir d) effs)"
proof (rule ext)
  show "state_after path effs s = state_after path (filter (\<lambda>e. \<forall>d. e \<noteq> Made_Dir d) effs) s" for s
    unfolding state_after_def by (induction effs arbitrary: s) auto
qed

text \<open>\<open>init\<close> hands over to \<open>run\<close>: the configuration loads, whatever the flags were, with the server, the machine and the
  intervals of the enrollment and with its token from the credential file, and the agent that starts from it and the
  state file speaks to that server as the host that was enrolled. Only a server that answers without a token makes a
  configuration that does not load.\<close>

lemma init_starts:
  assumes "interactive_init V C u t config_out state_file token_file = (effs, None)"
    and "co = default_value config_out default_config_path" and "tf = default_value token_file (default_token_file co)"
    and "sf = default_value state_file default_state_file" and "tf \<noteq> co"
    and "reads_back enc Y" and "ye_open Y = files_after enc part effs fs"
    and "ie_machine_id V \<noteq> []" and "\<And>n. ev_tx (ap_outside A) n"
  obtains url token resp cfg where "ask_missing C u t = Inr (url, token)" and "ie_enroll V url (init_request V token) = Inr resp"
    and "cfg = enrolled_config url tf (ie_machine_id V) (ie_hostname V) sf resp"
    and "load_config Y co = (if ep_token resp = [] then Inl Missing_Token
      else Inr (cfg\<lparr>cfg_server := (cfg_server cfg)\<lparr>sc_token := ep_token resp\<rparr>\<rparr>))"
    and "ep_host_id resp \<noteq> [] \<Longrightarrow> \<exists>a. init_agent A (cfg\<lparr>cfg_server := (cfg_server cfg)\<lparr>sc_token := ep_token resp\<rparr>\<rparr>)
        (state_after sf effs old) = Inr a
      \<and> ag_client a = \<lparr>cl_base_url = url, cl_token = ep_token resp, cl_host_id = ep_host_id resp\<rparr>"
proof -
  obtain url token resp where i: "ask_missing C u t = Inr (url, token)" "url \<noteq> []"
    "ie_enroll V url (init_request V token) = Inr resp"
    "filter (\<lambda>e. \<forall>d. e \<noteq> Made_Dir d) effs = [Wrote_Credential tf (ep_token resp),
      Wrote_Config co (build_config url tf (ie_machine_id V) (ie_hostname V) sf resp), Saved_Host_Id sf (ep_host_id resp)]"
    using assms(1-4) by (rule init_succeeds)
  define cfg where "cfg = enrolled_config url tf (ie_machine_id V) (ie_hostname V) sf resp"
  have tf: "tf \<noteq> []" using assms(3) by (simp add: default_value_def default_token_file_def split: if_splits)
  have "ye_open Y co = Opened (enc (build_config url tf (ie_machine_id V) (ie_hostname V) sf resp))"
    "ye_open Y tf = Opened (enc (credential_document (ep_token resp)))"
    using assms(5,7) i(4) by (simp_all add: files_after_filter [of enc part effs], simp_all add: files_after_def)
  moreover have "ye_config Y (enc (build_config url tf (ie_machine_id V) (ie_hostname V) sf resp)) = Some cfg"
    "ye_token Y (enc (credential_document (ep_token resp))) = Some (ep_token resp)"
    using assms(6) text_documents decode_built by (simp_all add: reads_back_def cfg_def)
      (simp add: decode_credential_def credential_document_def dec_field_there)
  ultimately have "load_config Y co = (if ep_token resp = [] then Inl Missing_Token
      else Inr (cfg\<lparr>cfg_server := (cfg_server cfg)\<lparr>sc_token := ep_token resp\<rparr>\<rparr>))"
    using tf i(2) assms(8) by (simp add: load_config_def load_token_file_def validate_def cfg_def enrolled_config_def Let_def)
  moreover have "\<exists>a. init_agent A (cfg\<lparr>cfg_server := (cfg_server cfg)\<lparr>sc_token := ep_token resp\<rparr>\<rparr>)
        (state_after sf effs old) = Inr a
      \<and> ag_client a = \<lparr>cl_base_url = url, cl_token = ep_token resp, cl_host_id = ep_host_id resp\<rparr>" if "ep_host_id resp \<noteq> []"
  proof -
    have "kv_get (st_meta (state_after sf effs old)) ''host_id'' = Some (ep_host_id resp)"
      using i(4) by (simp add: state_after_filter [of sf effs], simp add: state_after_def)
    then show ?thesis using that assms(9)
      by (simp add: init_agent_def open_store_def get_meta_def tx_defs cfg_def enrolled_config_def Let_def)
  qed
  ultimately show ?thesis using that i(1,3) cfg_def by blast
qed

section \<open>Enrolling with a server\<close>

text \<open>The one call that \<open>init\<close> makes, delivered to the server in state \<open>s\<close>; the reply as it is marshalled.\<close>

definition answered :: "nat \<times> reply \<Rightarrow> http_result" where
  "answered r = (case r of
      (status, Enroll_Reply x) \<Rightarrow> Response status (Some (enroll_response_json x))
    | (status, _) \<Rightarrow> Response status None)"

definition link_to :: "server_env \<Rightarrow> api_config \<Rightarrow> string \<Rightarrow> string \<Rightarrow> server \<Rightarrow> agent_env" where
  "link_to E K base addr s = \<lparr>ev_now = (\<lambda>n. 0), ev_uuid = (\<lambda>n. []), ev_tx = (\<lambda>n. True),
     ev_http = (\<lambda>n rq. answered (fst (deliver E K base addr rq s)))\<rparr>"

definition enroll_body :: "enroll_request \<Rightarrow> json" where
  "enroll_body r = JObj [(''enrollment_token'', JStr (eq_enrollment_token r)), (''machine_id'', JStr (eq_machine_id r)),
     (''hostname'', JStr (eq_hostname r)), (''ip_address'', JStr (eq_ip_address r)),
     (''agent_version'', JStr (eq_agent_version r))]"

definition plain_client :: "string \<Rightarrow> client" where
  "plain_client url = \<lparr>cl_base_url = url, cl_token = [], cl_host_id = []\<rparr>"

definition enroll_over :: "server_env \<Rightarrow> api_config \<Rightarrow> string \<Rightarrow> server \<Rightarrow> string \<Rightarrow> enroll_request \<Rightarrow> client_error + enroll_response" where
  "enroll_over E K addr s url r = fst (enroll (link_to E K url addr s) (plain_client url) r empty_store)"

definition enroll_delivery :: "server_env \<Rightarrow> api_config \<Rightarrow> string \<Rightarrow> string \<Rightarrow> enroll_request \<Rightarrow> server \<Rightarrow> handled" where
  "enroll_delivery E K addr url r s =
     deliver E K url addr (post_request (plain_client url) ''/api/v1/agents/enroll'' [] (enroll_body r)) s"

lemma enroll_delivered:
  "enroll_delivery E K addr url r s = handle_enroll E K
     (received addr ''/api/v1/agents/enroll'' (post_request (plain_client url) ''/api/v1/agents/enroll'' [] (enroll_body r))) s"
proof -
  have "match_route ''POST'' ''/api/v1/agents/enroll'' = Some Enroll_Route" by (simp add: match_route_def fixed_routes_def)
  then show ?thesis
    by (simp add: enroll_delivery_def deliver_def post_request_def plain_client_def serve_def public_route_def Let_def)
qed

lemma enroll_over_answer:
  assumes "enroll_over E K addr s url r = Inr resp"
  obtains x host db' where "enroll_agent E (sc_static_token K) (eq_enrollment_token r) host (srv_db s) = (Inr x, db')"
    and "enroll_delivery E K addr url r s = ((201, Enroll_Reply x), s\<lparr>srv_db := db'\<rparr>)"
    and "ep_token resp = er_agent_token x" and "ep_host_id resp = h_id (er_host x)"
proof -
  let ?d = "enroll_delivery E K addr url r s"
  have link: "post_raw (link_to E K url addr s) (plain_client url) ''/api/v1/agents/enroll'' [] (enroll_body r) empty_store
    = (case answered (fst ?d) of Transport_Error \<Rightarrow> (Inl Transport, tick empty_store)
       | Response status b \<Rightarrow> (if 400 \<le> status then Inl (Server_Error status) else Inr b, tick empty_store))"
    by (simp add: post_raw_def http_def link_to_def enroll_delivery_def split: http_result.split)
  have "\<exists>status x s'. ?d = ((status, Enroll_Reply x), s') \<and> status < 400"
    using assms link
    by (cases ?d; cases "fst ?d"; cases "snd (fst ?d)")
      (auto simp: enroll_over_def enroll_def enroll_body_def answered_def split: if_splits)
  then obtain status x s' where d: "?d = ((status, Enroll_Reply x), s')" "status < 400" by blast
  then have "resp = \<lparr>ep_host_id = h_id (er_host x), ep_token = er_agent_token x,
           ep_config = \<lparr>bc_environment = er_environment x, bc_tags = er_tags x, bc_heartbeat_interval = ''30s'',
             bc_discovery_interval = ''5m'', bc_process_scan_interval = ''30s'', bc_report_interval = ''1m'',
             bc_command_poll_interval = ''15s''\<rparr>\<rparr>"
    using assms link enroll_response_roundtrip [of x]
    by (simp add: enroll_over_def enroll_def enroll_body_def [symmetric] answered_def enroll_response_json_def)
  moreover have "as_body empty_enroll decode_enroll (Some (enroll_body r))
    = Some \<lparr>ar_enrollment_token = eq_enrollment_token r, ar_machine_id = eq_machine_id r, ar_hostname = eq_hostname r,
        ar_ip_address = eq_ip_address r, ar_agent_version = eq_agent_version r, ar_metadata = None\<rparr>"
    by (simp add: as_body_def as_struct_def is_object_def enroll_body_def decode_enroll_def dec_field_there)
  then obtain host db' where "enroll_agent E (sc_static_token K) (eq_enrollment_token r) host (srv_db s) = (Inr x, db')"
    "status = 201" "s' = s\<lparr>srv_db := db'\<rparr>"
    using d unfolding enroll_delivered
    by (auto simp: handle_enroll_def received_def post_request_def on_db_def write_error_def write_json_def
        split: if_splits prod.splits sum.splits)
  ultimately show ?thesis using that d by simp
qed

text \<open>
  An installed agent works. When \<open>init\<close> ends without an error against a server, then whatever the flags were and
  wherever the files are, the configuration it wrote loads, the agent starts from it and the state file, and every
  request that this agent then makes to a protected route gets past the authentication: the router hands it to the
  handler of the route.
\<close>

lemma installed_agent_served:
  assumes "interactive_init V C u t config_out state_file token_file = (effs, None)"
    and "co = default_value config_out default_config_path" and "tf = default_value token_file (default_token_file co)"
    and "sf = default_value state_file default_state_file" and "tf \<noteq> co"
    and "reads_back enc Y" and "ye_open Y = files_after enc part effs fs"
    and "ie_machine_id V \<noteq> []" and "\<And>n. ev_tx (ap_outside A) n"
    and "ie_enroll V = enroll_over E K addr s" and "pg_ok (srv_db s)" and "\<And>n. sv_up E n"
    and "\<forall>n k. sv_random E n = Some k \<longrightarrow> word_ok k" and "sv_pg_uuid E [] = None"
  shows "\<exists>url token cfg a s'. ask_missing C u t = Inr (url, token)
    \<and> snd (enroll_delivery E K addr url (init_request V token) s) = s'
    \<and> load_config Y co = Inr cfg \<and> ac_state_file (cfg_agent cfg) = sf \<and> init_agent A cfg (state_after sf effs old) = Inr a
    \<and> (\<forall>path rt body. match_route ''POST'' path = Some rt \<and> \<not> public_route rt \<and> CHR ''?'' \<notin> set path \<longrightarrow>
        (\<exists>m n. deliver E K url addr (post_request (ag_client a) path (cl_host_id (ag_client a)) body) s'
          = handle E K rt (received addr path (post_request (ag_client a) path (cl_host_id (ag_client a)) body))
              \<lparr>srv_auth = m, srv_db = (srv_db s')\<lparr>pg_calls := n\<rparr>\<rparr>))"
proof -
  obtain url token resp cfg where i: "ask_missing C u t = Inr (url, token)" "ie_enroll V url (init_request V token) = Inr resp"
    "cfg = enrolled_config url tf (ie_machine_id V) (ie_hostname V) sf resp"
    "load_config Y co = (if ep_token resp = [] then Inl Missing_Token
      else Inr (cfg\<lparr>cfg_server := (cfg_server cfg)\<lparr>sc_token := ep_token resp\<rparr>\<rparr>))"
    "ep_host_id resp \<noteq> [] \<Longrightarrow> \<exists>a. init_agent A (cfg\<lparr>cfg_server := (cfg_server cfg)\<lparr>sc_token := ep_token resp\<rparr>\<rparr>)
        (state_after sf effs old) = Inr a
      \<and> ag_client a = \<lparr>cl_base_url = url, cl_token = ep_token resp, cl_host_id = ep_host_id resp\<rparr>"
    using init_starts [OF assms(1-9)] by metis
  obtain x host db' where e: "enroll_agent E (sc_static_token K) (eq_enrollment_token (init_request V token)) host (srv_db s) = (Inr x, db')"
    "enroll_delivery E K addr url (init_request V token) s = ((201, Enroll_Reply x), s\<lparr>srv_db := db'\<rparr>)"
    "ep_token resp = er_agent_token x" "ep_host_id resp = h_id (er_host x)"
    using i(2) enroll_over_answer unfolding assms(10) by metis
  from e(1) obtain db2 db3 where c: "new_token E db2 = (Some (er_agent_token x), db3)"
    "credential_upsert E (h_id (er_host x)) (sv_sha_hex E (er_agent_token x)) db3 = (Inr (), db')"
    by (rule enroll_agent_cases)
  have w: "word_ok (er_agent_token x)" using c(1) assms(13) by (auto simp: new_token_def)
  have h: "h_id (er_host x) \<noteq> []" using credential_saved [OF c(2)] assms(14) by auto
  obtain a where a: "init_agent A (cfg\<lparr>cfg_server := (cfg_server cfg)\<lparr>sc_token := ep_token resp\<rparr>\<rparr>) (state_after sf effs old) = Inr a"
    "ag_client a = \<lparr>cl_base_url = url, cl_token = ep_token resp, cl_host_id = ep_host_id resp\<rparr>"
    using i(5) h e(4) by auto
  have l: "load_config Y co = Inr (cfg\<lparr>cfg_server := (cfg_server cfg)\<lparr>sc_token := ep_token resp\<rparr>\<rparr>)"
    using i(4) e(3) w by (simp add: word_ok_def)
  have "\<exists>m n. deliver E K url addr (post_request (ag_client a) path (cl_host_id (ag_client a)) body) (s\<lparr>srv_db := db'\<rparr>)
          = handle E K rt (received addr path (post_request (ag_client a) path (cl_host_id (ag_client a)) body))
              \<lparr>srv_auth = m, srv_db = db'\<lparr>pg_calls := n\<rparr>\<rparr>"
    if "match_route ''POST'' path = Some rt" "\<not> public_route rt" "CHR ''?'' \<notin> set path" for path rt body
    using enrolled_served_post [OF assms(11) e(1) assms(12) w h _ _ _ that, of "s\<lparr>srv_db := db'\<rparr>" "ag_client a" K addr body]
      a(2) e(3,4) by simp
  moreover have "ac_state_file (cfg_agent cfg) = sf" by (simp add: i(3) enrolled_config_def Let_def)
  ultimately show ?thesis using i(1) e(2) l a(1)
    by (intro exI [of _ url] exI [of _ token] exI [of _ "cfg\<lparr>cfg_server := (cfg_server cfg)\<lparr>sc_token := ep_token resp\<rparr>\<rparr>"]
        exI [of _ a] exI [of _ "s\<lparr>srv_db := db'\<rparr>"]) simp
qed

section \<open>An instance\<close>

text \<open>A codec for documents of strings: its text is as long as the number of the document.\<close>

datatype doc_tree = Leaf_Doc string | List_Doc "doc_tree list" | Map_Doc "(string \<times> doc_tree) list"

instance doc_tree :: countable
  by countable_datatype

primrec doc_of :: "json \<Rightarrow> doc_tree" where
  "doc_of JNull = Leaf_Doc []"
| "doc_of (JBool b) = Leaf_Doc []"
| "doc_of (JNum x) = Leaf_Doc []"
| "doc_of (JStr s) = Leaf_Doc s"
| "doc_of (JTime t) = Leaf_Doc []"
| "doc_of (JArr js) = List_Doc (map doc_of js)"
| "doc_of (JObj kvs) = Map_Doc (map (map_prod id doc_of) kvs)"

primrec json_of :: "doc_tree \<Rightarrow> json" where
  "json_of (Leaf_Doc s) = JStr s"
| "json_of (List_Doc ds) = JArr (map json_of ds)"
| "json_of (Map_Doc kvs) = JObj (map (map_prod id json_of) kvs)"

lemma json_doc: "text_doc j \<Longrightarrow> json_of (doc_of j) = j"
proof (induction j)
  case (JArr js)
  then show ?case by (auto simp: list.pred_set intro: map_idI)
next
  case (JObj kvs)
  have "map_prod id (json_of \<circ> doc_of) kv = kv" if "kv \<in> set kvs" for kv
    using JObj that by (cases kv) (fastforce simp: list.pred_set)
  then have "map (map_prod id json_of \<circ> map_prod id doc_of) kvs = kvs" by (intro map_idI) (simp add: map_prod.compositionality)
  then show ?case by simp
qed auto

definition unary_text :: "json \<Rightarrow> string" where
  "unary_text j = replicate (to_nat (doc_of j)) (CHR ''x'')"

definition unary_document :: "string \<Rightarrow> json" where
  "unary_document s = json_of (from_nat (length s))"

lemma unary_reads_back: "text_doc j \<Longrightarrow> unary_document (unary_text j) = j"
  by (simp add: unary_document_def unary_text_def json_doc)

end
