(* ===== verification/Onboarding.thy ===== *)
theory Onboarding
  imports Install Seed
begin

text \<open>
  From the dashboard to a working agent: the administrator creates an enrollment token, the payload is given to
  \<open>observer-agent init\<close> on the new host, and the agent that then runs is served. Where \<open>Install\<close> starts from an
  enrollment that succeeded, here it is shown to succeed.
\<close>

section \<open>An enrollment that succeeds\<close>

text \<open>The clock of the server does not move by more than the life of a token.\<close>

definition within_a_day :: "server_env \<Rightarrow> bool" where
  "within_a_day E \<longleftrightarrow> (\<forall>m n. sv_now E m \<le> sv_now E n + hours 24)"

definition fresh_token :: "server_env \<Rightarrow> string \<Rightarrow> pg \<Rightarrow> bool" where
  "fresh_token E h db \<longleftrightarrow> (\<exists>t n. select_one (\<lambda>t. et_token_hash t = h) (t_tokens db) = Inr t \<and> \<not> et_used t
     \<and> et_expires_at t = sv_now E n + hours 24)"

lemma generated_fresh:
  assumes "generate_enrollment_token E label db = (Inr (raw, rec), db')"
  shows "fresh_token E (sv_sha_hex E raw) db'"
proof -
  obtain n x1 x2 y db1 where g: "new_token E db = (Some raw, db1)" "rec = \<lparr>et_id = x1, et_token_hash = sv_sha_hex E raw,
      et_label = label, et_used = False, et_used_at = None, et_expires_at = sv_now E n + hours 24, et_created_at = y\<rparr>"
    "sv_sha_hex E raw \<notin> et_token_hash ` set (t_tokens db1)" "t_tokens db' = t_tokens db1 @ [rec]"
    using assms by (auto simp: generate_enrollment_token_def token_create_def stmt_def server_now_def Let_def
      split: option.splits if_splits prod.splits sum.splits)
  have "find (\<lambda>t. et_token_hash t = h) (ts @ [r]) = Some r" if "h \<notin> et_token_hash ` set ts" "et_token_hash r = h" for h ts r
    using that by (induction ts) auto
  from this [OF g(3), of rec] show ?thesis using g(2,4) by (auto simp: fresh_token_def select_one_def)
qed

lemma fresh_consumed:
  assumes "fresh_token E (sv_sha_hex E tok) db" and "within_a_day E" and "\<And>n. sv_up E n" and "tok \<noteq> []"
  shows "\<exists>db'. consume_enrollment_token E static tok db = (Inr (), db') \<and> t_hosts db' = t_hosts db \<and> t_jobs db' = t_jobs db
    \<and> pg_calls db \<le> pg_calls db' \<and> token_spent (sv_sha_hex E tok) db'"
proof -
  let ?h = "sv_sha_hex E tok"
  obtain t n where t: "select_one (\<lambda>t. et_token_hash t = ?h) (t_tokens db) = Inr t" "\<not> et_used t"
    "et_expires_at t = sv_now E n + hours 24" using assms(1) by (auto simp: fresh_token_def)
  note in_table = select_one_Inr [OF t(1)]
  have "filter (\<lambda>t. et_token_hash t = ?h) (t_tokens db) \<noteq> []" using in_table by (auto simp: filter_empty_conv)
  then have f: "token_found E ?h db = (Inr True, bump db)"
    using assms(3) by (simp add: token_found_def query_def stmt_def)
  have "\<not> et_expires_at t < sv_now E m" for m using assms(2) t(3) by (simp add: within_a_day_def not_less)
  then have c: "token_check E ?h (bump db) = (Inr True, bump (bump (bump db)))"
    using assms(3) t(1,2) by (simp add: token_check_def token_lookup_def query_def stmt_def server_now_def)
  have "\<exists>db'. token_mark_used E ?h (bump (bump (bump db))) = (Inr (), db') \<and> t_hosts db' = t_hosts db \<and> t_jobs db' = t_jobs db
      \<and> pg_calls db \<le> pg_calls db' \<and> (\<exists>now. t_tokens db' = update_where (\<lambda>t. et_token_hash t = ?h) (use_token now) (t_tokens db))"
    using assms(3) by (auto simp: token_mark_used_def stmt_def)
  then obtain db' now where m: "token_mark_used E ?h (bump (bump (bump db))) = (Inr (), db')" "t_hosts db' = t_hosts db"
    "t_jobs db' = t_jobs db" "pg_calls db \<le> pg_calls db'"
    "t_tokens db' = update_where (\<lambda>t. et_token_hash t = ?h) (use_token now) (t_tokens db)" by blast
  have "?h \<in> et_token_hash ` set (t_tokens db')" unfolding m(5) hashes_after using in_table by (metis imageI)
  moreover have "\<forall>t \<in> set (t_tokens db'). et_token_hash t = ?h \<longrightarrow> et_used t" unfolding m(5) by (rule used_after)
  ultimately have "token_spent ?h db'" by (fastforce simp: token_spent_def)
  then show ?thesis using f c m assms(4) by (simp add: consume_enrollment_token_def token_consume_def)
qed

lemma enroll_taken:
  assumes "seedable E db" and "fresh_token E (sv_sha_hex E tok) db" and "within_a_day E" and "tok \<noteq> []"
    and "\<And>n. sv_random E n \<noteq> None"
  shows "\<exists>x db'. enroll_agent E static tok r db = (Inr x, db') \<and> token_spent (sv_sha_hex E tok) db'"
proof -
  have up: "sv_up E n" for n using assms(1) by (simp add: seedable_def)
  obtain db1 where c: "consume_enrollment_token E static tok db = (Inr (), db1)" "t_hosts db1 = t_hosts db" "t_jobs db1 = t_jobs db"
    "pg_calls db \<le> pg_calls db1" "token_spent (sv_sha_hex E tok) db1"
    using fresh_consumed [OF assms(2,3) up assms(4)] by blast
  then have s1: "seedable E db1" using seedable_cong [OF assms(1), of db1] by (simp add: host_ids_def job_ids_def)
  obtain h db2 where g: "register E r db1 = (Inr h, db2)" "seedable E db2" "host_of (h_machine_id r) db2 = Some h"
    using register_taken [OF s1] by blast
  have i: "h_id h \<in> host_ids db2" "sv_pg_uuid E (h_id h) = Some (h_id h)"
    using host_of_ids [OF g(3)] g(2) by (auto simp: seedable_def good_id_def)
  obtain k where k: "sv_random E (pg_calls db2) = Some k" using assms(5) by blast
  obtain db3 where "credential_upsert E (h_id h) (sv_sha_hex E k) (bump db2) = (Inr (), db3)"
    using i up by (simp add: credential_upsert_def stmt_def)
  then have cr: "credential_upsert E (h_id h) (sv_sha_hex E k) (bump db2) = (Inr (), db3)" .
  then obtain x where e: "enroll_agent E static tok r db = (Inr x, db3)"
    using c(1) g(1) k by (simp add: enroll_agent_def new_token_def)
  have "token_spent (sv_sha_hex E tok) db2" using spent.register_keeps [OF c(5), of E r] g(1) by simp
  then have "token_spent (sv_sha_hex E tok) db3"
    using spent.credential_upsert [of "sv_sha_hex E tok" "bump db2" E "h_id h" "sv_sha_hex E k"] cr by simp
  then show ?thesis using e by blast
qed

section \<open>The payload of the dashboard\<close>

text \<open>The file system of a host on which everything can be written.\<close>

definition writable :: "init_env \<Rightarrow> bool" where
  "writable V \<longleftrightarrow> (\<forall>d. d \<noteq> [] \<longrightarrow> ie_mkdir V d) \<and> (\<forall>p. ie_create V p \<and> ie_encode V p \<and> ie_open_state V p) \<and> ie_set_meta V
     \<and> ie_machine_id V \<noteq> [] \<and> ie_hostname V \<noteq> []"

lemma default_paths:
  "state_dir (default_token_file default_config_path) \<noteq> []" "default_token_file default_config_path \<noteq> default_config_path"
  "default_token_file default_config_path \<noteq> []" "default_config_path \<noteq> []" "default_state_file \<noteq> []"
  by code_simp+

lemma init_writes:
  assumes "writable V" and "ie_enroll V url (init_request V token) = Inr resp" and "url \<noteq> []" and "token \<noteq> []"
  obtains effs where "interactive_init V C url token default_config_path default_state_file [] = (effs, None)"
  using assms default_paths
  by (simp add: writable_def interactive_init_def ask_missing_def Let_def init_request_def write_credential_file_def
      write_config_file_def write_document_def)

text \<open>A server that can be enrolled with answers the call of \<open>init\<close>.\<close>

lemma enroll_over_taken:
  assumes "seedable E (srv_db s)" and "fresh_token E (sv_sha_hex E tok) (srv_db s)" and "within_a_day E" and "tok \<noteq> []"
    and "\<And>n. sv_random E n \<noteq> None" and "ie_machine_id V \<noteq> []" and "ie_hostname V \<noteq> []"
  shows "\<exists>x db'. enroll_delivery E K addr url (init_request V tok) s = ((201, Enroll_Reply x), s\<lparr>srv_db := db'\<rparr>)
    \<and> token_spent (sv_sha_hex E tok) db'"
    and "\<exists>resp. enroll_over E K addr s url (init_request V tok) = Inr resp"
proof -
  let ?r = "init_request V tok"
  let ?h = "enroll_to_domain \<lparr>ar_enrollment_token = tok, ar_machine_id = ie_machine_id V, ar_hostname = ie_hostname V,
        ar_ip_address = [], ar_agent_version = agent_version, ar_metadata = None\<rparr>"
  obtain x db' where e: "enroll_agent E (sc_static_token K) tok ?h (srv_db s) = (Inr x, db')" "token_spent (sv_sha_hex E tok) db'"
    using enroll_taken [OF assms(1-5)] by blast
  have "as_body empty_enroll decode_enroll (Some (enroll_body ?r))
    = Some \<lparr>ar_enrollment_token = tok, ar_machine_id = ie_machine_id V, ar_hostname = ie_hostname V,
        ar_ip_address = [], ar_agent_version = agent_version, ar_metadata = None\<rparr>"
    by (simp add: as_body_def as_struct_def is_object_def enroll_body_def decode_enroll_def dec_field_there init_request_def)
  then have d: "enroll_delivery E K addr url ?r s = ((201, Enroll_Reply x), s\<lparr>srv_db := db'\<rparr>)"
    using e(1) assms(4,6,7) unfolding enroll_delivered
    by (simp add: handle_enroll_def received_def post_request_def on_db_def write_json_def)
  then show "\<exists>x db'. enroll_delivery E K addr url ?r s = ((201, Enroll_Reply x), s\<lparr>srv_db := db'\<rparr>)
    \<and> token_spent (sv_sha_hex E tok) db'" using e(2) by blast
  have "fst (enroll (link_to E K url addr s) (plain_client url) ?r empty_store) = (case answered (fst (enroll_delivery E K addr url ?r s)) of
      Response status (Some j) \<Rightarrow> (case as_object decode_enroll_response j of None \<Rightarrow> Inl Decode_Error | Some r \<Rightarrow> Inr r) | _ \<Rightarrow> Inl Transport)"
    using d by (simp add: enroll_def post_raw_def http_def link_to_def enroll_delivery_def enroll_body_def answered_def enroll_response_json_def)
  then show "\<exists>resp. enroll_over E K addr s url ?r = Inr resp"
    using d enroll_response_roundtrip [of x] by (simp add: enroll_over_def answered_def)
qed

text \<open>C6. 
  What the dashboard shows works: the payload of a new enrollment token, given to \<open>init\<close> with no other flag on a host
  that can be written to, enrolls the host within the life of the token. \<open>init\<close> ends without an error and the token is
  spent, the configuration loads, the agent starts, and each of its requests to a protected route gets past the
  authentication of the server.
\<close>

theorem dashboard_payload_installs:
  assumes "handle_create_token E K q s0 = ((201, Token_Reply t), s)" and "pg_ok (srv_db s0)"
    and "\<And>x. decode64 (sc_encode64 K x) = Some x" and "\<And>u r. decode_payload (sc_payload_json K u r) = Some (u, r)"
    and "\<And>x. x \<noteq> [] \<Longrightarrow> sc_encode64 K x \<noteq> []" and "\<And>u r. sc_payload_json K u r \<noteq> []"
    and "seedable E (srv_db s)" and "within_a_day E" and "\<And>n. sv_random E n \<noteq> None"
    and "\<forall>n k. sv_random E n = Some k \<longrightarrow> word_ok k" and "sv_pg_uuid E [] = None"
    and "writable V" and "ie_enroll V = enroll_over E K addr s"
    and "init_cmd decode64 decode_payload V C (init_defaults\<lparr>if_payload := tc_payload t\<rparr>) = (effs, err)"
    and "reads_back enc Y" and "ye_open Y = files_after enc part effs fs" and "\<And>n. ev_tx (ap_outside A) n"
  shows "err = None \<and> (\<exists>url token cfg a s'.
      snd (enroll_delivery E K addr url (init_request V token) s) = s' \<and> token_spent (sv_sha_hex E token) (srv_db s')
    \<and> load_config Y default_config_path = Inr cfg \<and> run_app A (\<lambda>p. state_after p effs (old p)) cfg = Inr (main_loop_start A a)
    \<and> (\<forall>path rt body. match_route ''POST'' path = Some rt \<and> \<not> public_route rt \<and> CHR ''?'' \<notin> set path \<longrightarrow>
        (\<exists>m n. deliver E K url addr (post_request (ag_client a) path (cl_host_id (ag_client a)) body) s'
          = handle E K rt (received addr path (post_request (ag_client a) path (cl_host_id (ag_client a)) body))
              \<lparr>srv_auth = m, srv_db = (srv_db s')\<lparr>pg_calls := n\<rparr>\<rparr>)))"
proof -
  obtain label url0 where q: "as_body ([], []) decode_create_token (aq_body q) = Some (label, url0)"
    using assms(1) by (auto simp: handle_create_token_def write_error_def split: option.splits)
  define url where "url = (if url0 = [] then sc_public_url K else url0)"
  obtain raw rec where g: "url \<noteq> []" "generate_enrollment_token E label (srv_db s0) = (Inr (raw, rec), srv_db s)"
    "tc_payload t = sc_encode64 K (sc_payload_json K url raw)"
    using assms(1) q unfolding handle_create_token_def url_def
    by (auto simp: on_db_def write_error_def write_json_def Let_def split: prod.splits sum.splits if_splits)
  have "sv_random E (pg_calls (srv_db s0)) = Some raw"
    using g(2) by (auto simp: generate_enrollment_token_def new_token_def server_now_def split: option.splits prod.splits sum.splits)
  then have raw: "raw \<noteq> []" using assms(10) by (auto simp: word_ok_def)
  have up: "sv_up E n" for n using assms(7) by (simp add: seedable_def)
  have w: "ie_machine_id V \<noteq> []" "ie_hostname V \<noteq> []" using assms(12) by (simp_all add: writable_def)
  note taken = enroll_over_taken [OF assms(7) generated_fresh [OF g(2)] assms(8) raw assms(9) w]
  obtain resp where "ie_enroll V url (init_request V raw) = Inr resp" using taken(2) assms(13) by metis
  then obtain effs' where i: "interactive_init V C url raw default_config_path default_state_file [] = (effs', None)"
    using init_writes [OF assms(12) _ g(1) raw] by metis
  have "init_arguments decode64 decode_payload (tc_payload t) [] [] = Inr (url, raw)"
    using assms(3-6) by (simp add: init_arguments_def g(3))
  then have e: "effs = effs'" "err = None" using assms(14) i by (simp_all add: init_cmd_def init_defaults_def)
  have "pg_ok (srv_db s)" using generate_token_ok [OF assms(2), of E label] g(2) by simp
  from installed_agent_served [OF i refl refl refl _ assms(15) _ w(1) assms(17) assms(13) this up assms(10,11),
      where part = part and fs = fs and old = "old default_state_file"] assms(16) e(1) default_paths
  obtain cfg a url' tok' s' where x: "ask_missing C url raw = Inr (url', tok')"
    "snd (enroll_delivery E K addr url' (init_request V tok') s) = s'"
    "load_config Y default_config_path = Inr cfg" "ac_state_file (cfg_agent cfg) = default_state_file"
    "init_agent A cfg (state_after default_state_file effs (old default_state_file)) = Inr a"
    "\<forall>path rt body. match_route ''POST'' path = Some rt \<and> \<not> public_route rt \<and> CHR ''?'' \<notin> set path \<longrightarrow>
        (\<exists>m n. deliver E K url' addr (post_request (ag_client a) path (cl_host_id (ag_client a)) body) s'
          = handle E K rt (received addr path (post_request (ag_client a) path (cl_host_id (ag_client a)) body))
              \<lparr>srv_auth = m, srv_db = (srv_db s')\<lparr>pg_calls := n\<rparr>\<rparr>)"
    by (auto simp: default_value_def)
  have "run_app A (\<lambda>p. state_after p effs (old p)) cfg = Inr (main_loop_start A a)"
    using x(4,5) default_paths(5) by (simp add: run_app_def)
  moreover have "url' = url" "tok' = raw" using x(1) g(1) raw by (simp_all add: ask_missing_def)
  moreover have "token_spent (sv_sha_hex E raw) (srv_db (snd (enroll_delivery E K addr url (init_request V raw) s)))"
    using taken(1) [of K addr url] by auto
  ultimately show ?thesis using x(2,3,6) e(2) by blast
qed

section \<open>An instance\<close>

definition day_server :: server_env where
  "day_server = calm_server\<lparr>sv_now := \<lambda>n. 0, sv_pg_uuid := \<lambda>i. if i = [] then None else Some i\<rparr>"

definition bare_host :: "(string \<Rightarrow> enroll_request \<Rightarrow> client_error + enroll_response) \<Rightarrow> init_env" where
  "bare_host enr = \<lparr>ie_hostname = ''h'', ie_machine_id = ''m'', ie_enroll = enr, ie_mkdir = (\<lambda>d. d \<noteq> []), ie_create = (\<lambda>p. True),
     ie_encode = (\<lambda>p. True), ie_open_state = (\<lambda>p. True), ie_set_meta = True\<rparr>"

definition unary_yaml :: "(string \<Rightarrow> open_result) \<Rightarrow> yaml_env" where
  "unary_yaml fs = \<lparr>ye_open = fs, ye_config = decode_config \<circ> unary_document, ye_token = decode_credential \<circ> unary_document,
     ye_error_text = (\<lambda>e. [])\<rparr>"

lemma day_server_random: "\<forall>n k. sv_random day_server n = Some k \<longrightarrow> word_ok k"
proof (intro allI impI)
  fix n k assume "sv_random day_server n = Some k"
  then have "k = CHR ''r'' # show_nat n" by (simp add: day_server_def calm_server_def)
  moreover have "\<not> is_space c" if "c \<in> set (show_nat n)" for c
    using show_nat_digits [of n] that by (auto simp: list_all_iff dest: is_digit_not_space)
  moreover have "\<not> is_space (CHR ''r'')" by (simp add: is_space_def)
  ultimately show "word_ok k" by (simp add: word_ok_def)
qed

theorem dashboard_payload_installs_witness:
  "\<exists>t s effs cfg a. handle_create_token day_server token_config token_call fresh_server = ((201, Token_Reply t), s)
     \<and> init_cmd Some unary_decode (bare_host (enroll_over day_server token_config [] s))
         \<lparr>co_url_line = [], co_hide_echo = False, co_secret_line = None\<rparr> (init_defaults\<lparr>if_payload := tc_payload t\<rparr>) = (effs, None)
     \<and> load_config (unary_yaml (files_after unary_text (\<lambda>p. []) effs (\<lambda>p. No_Such_File))) default_config_path = Inr cfg
     \<and> run_app (sample_env []) (\<lambda>p. state_after p effs empty_store) cfg = Inr (main_loop_start (sample_env []) a)"
proof -
  let ?r = "handle_create_token day_server token_config token_call fresh_server"
  have "case fst ?r of (st, Token_Reply t) \<Rightarrow> st = 201 | _ \<Rightarrow> False" by code_simp
  then obtain t where "fst ?r = (201, Token_Reply t)" by (cases "fst ?r") (auto split: reply.splits)
  then obtain s where r: "?r = ((201, Token_Reply t), s)" by (metis prod.collapse)
  have "t_hosts (srv_db (snd ?r)) = [] \<and> t_jobs (srv_db (snd ?r)) = []" by code_simp
  then have empty: "host_ids (srv_db s) = {}" "job_ids (srv_db s) = {}" using r by (simp_all add: host_ids_def job_ids_def)
  moreover have "good_id day_server (sv_new_uuid day_server n)" "sv_up day_server n" for n
    by (simp_all add: good_id_def day_server_def calm_server_def)
  moreover have "inj (sv_new_uuid day_server)" using new_uuid_calm(1) by (simp add: day_server_def calm_server_def)
  ultimately have ok: "seedable day_server (srv_db s)" by (auto simp: seedable_def)
  let ?V = "bare_host (enroll_over day_server token_config [] s)"
  let ?C = "\<lparr>co_url_line = [], co_hide_echo = False, co_secret_line = None\<rparr>"
  obtain effs err where i: "init_cmd Some unary_decode ?V ?C (init_defaults\<lparr>if_payload := tc_payload t\<rparr>) = (effs, err)" by fastforce
  let ?Y = "unary_yaml (files_after unary_text (\<lambda>p. []) effs (\<lambda>p. No_Such_File))"
  have "sc_encode64 token_config x = x" "sc_payload_json token_config u v = unary_payload u v" for x u v
    by (simp_all add: token_config_def sample_server_config_def)
  moreover have "pg_ok (srv_db fresh_server)" by (simp add: fresh_server_def empty_pg_ok)
  moreover have "within_a_day day_server" "\<And>n. sv_random day_server n \<noteq> None" "sv_pg_uuid day_server [] = None"
    by (simp_all add: within_a_day_def day_server_def calm_server_def duration_defs)
  moreover have "writable ?V" "ie_enroll ?V = enroll_over day_server token_config [] s" by (simp_all add: writable_def bare_host_def)
  moreover have "reads_back unary_text ?Y" "ye_open ?Y = files_after unary_text (\<lambda>p. []) effs (\<lambda>p. No_Such_File)"
    by (simp_all add: reads_back_def unary_reads_back unary_yaml_def)
  moreover have "ev_tx (ap_outside (sample_env [])) n" for n by (simp add: sample_env_def)
  ultimately show ?thesis
    using dashboard_payload_installs [OF r, of Some unary_decode ?V "[]" ?C effs err unary_text ?Y "\<lambda>p. []" "\<lambda>p. No_Such_File"
        "sample_env []" "\<lambda>p. empty_store"] unary_decode_payload ok day_server_random i r
    by (auto simp: unary_payload_def)
qed

end
